theory Spec2Isabelle
  imports Complex_Main "HOL-Library.AList" "HOL-Library.Char_ord" "HOL-Library.List_Lexorder"
    "HOL-Library.Product_Lexorder" "HOL-Library.Multiset"
begin

section \<open>ConflictZero: trajectory reconstruction, congestion and loss of separation\<close>

text \<open>
  A shallow embedding of \<^verbatim>\<open>flight_analysis.py\<close> and \<^verbatim>\<open>airspace_congestion.py\<close>.

  Conventions of the embedding.
  \<^item> A Python \<^verbatim>\<open>float\<close> is a \<^typ>\<open>real\<close> and a Python \<^verbatim>\<open>int\<close> an \<^typ>\<open>int\<close>:
    arithmetic is exact, there is no rounding, overflow, infinity or NaN. Where the code
    runs on doubles this idealises it: the haversine intermediate \<^verbatim>\<open>a\<close> lies in \<open>[0, 1]\<close>
    here, while rounding can push it above 1 between nearly antipodal points, where
    \<^verbatim>\<open>math.sqrt(1 - a)\<close> then raises; \<^verbatim>\<open>float(departure_time)\<close> is exact here and rounds
    above \<open>2^53\<close>; a sample at fraction 1 is the endpoint here and may differ from it in the
    last bit. The claims below are therefore stated for the runs that return, with the
    values written as the code computes them; none of them says that a distance function
    returns on every input, and where one needs a distance it is that of equal positions,
    which is 0 in doubles too, or that of an example leg on the equator.
  \<^item> An exception is a value: a fallible function returns \<open>py_error + 'a\<close>, \<open>Inl\<close> the
    exception. \<^verbatim>\<open>math.sqrt\<close> and \<^verbatim>\<open>math.asin\<close> raise \<^verbatim>\<open>ValueError\<close> outside their
    domain, a division raises \<^verbatim>\<open>ZeroDivisionError\<close> on a zero divisor, arithmetic on
    \<^verbatim>\<open>None\<close> raises \<^verbatim>\<open>TypeError\<close>, a missing dictionary key \<^verbatim>\<open>KeyError\<close>.
  \<^item> A \<^verbatim>\<open>dict\<close> is an association list in insertion order, as Python iterates it;
    \<open>AList.update\<close> overwrites a key in place and appends a new key at the end.
  \<^item> A field the code tests against \<^verbatim>\<open>None\<close> is an \<open>option\<close>.
  \<^item> The builtin \<^verbatim>\<open>float(str)\<close> is the parameter \<open>pyfloat\<close> of the parsers (\<open>None\<close>
    where it raises \<^verbatim>\<open>ValueError\<close>); \<open>float_dec\<close> below is its fragment of plain
    decimal numerals, used for closed examples. The numerals \<^verbatim>\<open>nan\<close> and \<^verbatim>\<open>inf\<close>, which
    \<^verbatim>\<open>float\<close> accepts, have no value here: a route with such a token is outside the
    embedding (on it the code raises as soon as a segment with that waypoint is sampled).
  \<^item> The \<^verbatim>\<open>print\<close> calls, and the list \<^verbatim>\<open>sorted_flights\<close> that only a \<^verbatim>\<open>print\<close> reads,
    are left out; the conflict record keeps the time bucket \<open>t\<close> whose UTC rendering the
    code stores under \<^verbatim>\<open>start_time_overlap\<close>.
\<close>

subsection \<open>Exceptions, loops and numeric builtins\<close>

datatype py_error =
  TypeError | ValueError | KeyError | IndexError | ZeroDivisionError | OverflowError | OSError

type_synonym coord = "real \<times> real"

text \<open>\<^verbatim>\<open>for x in xs: st = body(x, st)\<close>, stopping at the first exception.\<close>

fun fold_err :: "('a \<Rightarrow> 's \<Rightarrow> py_error + 's) \<Rightarrow> 'a list \<Rightarrow> 's \<Rightarrow> py_error + 's" where
  "fold_err f [] st = Inr st"
| "fold_err f (x # xs) st = (case f x st of Inl e \<Rightarrow> Inl e | Inr st' \<Rightarrow> fold_err f xs st')"

text \<open>A loop that appends one computed element per iteration.\<close>

fun map_err :: "('a \<Rightarrow> py_error + 'b) \<Rightarrow> 'a list \<Rightarrow> py_error + 'b list" where
  "map_err f [] = Inr []"
| "map_err f (x # xs) =
     (case f x of Inl e \<Rightarrow> Inl e
      | Inr y \<Rightarrow> (case map_err f xs of Inl e \<Rightarrow> Inl e | Inr ys \<Rightarrow> Inr (y # ys)))"

definition radians :: "real \<Rightarrow> real" where
  "radians x = x * (pi / 180)"

definition py_sqrt :: "real \<Rightarrow> py_error + real" where
  "py_sqrt x = (if x < 0 then Inl ValueError else Inr (sqrt x))"

definition py_asin :: "real \<Rightarrow> py_error + real" where
  "py_asin x = (if x < - 1 \<or> 1 < x then Inl ValueError else Inr (arcsin x))"

text \<open>\<^verbatim>\<open>math.atan2(y, x)\<close>: the angle of the point \<open>(x, y)\<close>, in \<open>(-pi, pi]\<close>.\<close>

definition py_atan2 :: "real \<Rightarrow> real \<Rightarrow> real" where
  "py_atan2 y x =
     (if 0 < x then arctan (y / x)
      else if x < 0 then (if 0 \<le> y then arctan (y / x) + pi else arctan (y / x) - pi)
      else if 0 < y then pi / 2
      else if y < 0 then - (pi / 2)
      else 0)"

definition py_div :: "real \<Rightarrow> real \<Rightarrow> py_error + real" where
  "py_div x y = (if y = 0 then Inl ZeroDivisionError else Inr (x / y))"

text \<open>\<^verbatim>\<open>int(x)\<close> of a float truncates towards zero.\<close>

definition py_int :: "real \<Rightarrow> int" where
  "py_int x = (if 0 \<le> x then \<lfloor>x\<rfloor> else \<lceil>x\<rceil>)"

text \<open>\<^verbatim>\<open>round(x, 2)\<close>: to two decimals, a tie to the even neighbour.\<close>

definition py_round2 :: "real \<Rightarrow> real" where
  "py_round2 x =
     (let y = x * 100; f = \<lfloor>y\<rfloor>
      in (if y - of_int f < 1 / 2 then of_int f
          else if 1 / 2 < y - of_int f then of_int (f + 1)
          else if even f then of_int f else of_int (f + 1)) / 100)"

subsection \<open>Strings\<close>

text \<open>
  A \<^typ>\<open>char\<close> is a code point below 256. The code points below 256 that
  \<^verbatim>\<open>str.split()\<close> and \<^verbatim>\<open>str.strip()\<close> treat as whitespace: the ASCII ones, U+0085 and
  U+00A0.
\<close>

definition is_space :: "char \<Rightarrow> bool" where
  "is_space c = (c \<in> set [CHR '' '', CHR 0x09, CHR 0x0A, CHR 0x0B, CHR 0x0C, CHR 0x0D,
                          CHR 0x1C, CHR 0x1D, CHR 0x1E, CHR 0x1F, CHR 0x85, CHR 0xA0])"

fun words_acc :: "string \<Rightarrow> string \<Rightarrow> string list" where
  "words_acc acc [] = (if acc = [] then [] else [rev acc])"
| "words_acc acc (c # cs) =
     (if is_space c then (if acc = [] then words_acc [] cs else rev acc # words_acc [] cs)
      else words_acc (c # acc) cs)"

text \<open>\<^verbatim>\<open>s.strip().split()\<close>: the maximal runs of characters that are not whitespace.\<close>

definition py_split :: "string \<Rightarrow> string list" where
  "py_split s = words_acc [] s"

text \<open>\<^verbatim>\<open>s.split(sep)\<close>: the pieces between the separators, at least one piece.\<close>

fun split_on :: "char \<Rightarrow> string \<Rightarrow> string list" where
  "split_on sep [] = [[]]"
| "split_on sep (c # cs) =
     (if c = sep then [] # split_on sep cs
      else (case split_on sep cs of [] \<Rightarrow> [[c]] | p # ps \<Rightarrow> (c # p) # ps))"

text \<open>\<^verbatim>\<open>s.split(sep, 1)\<close>: cut at the first separator only.\<close>

definition split_once :: "char \<Rightarrow> string \<Rightarrow> string list" where
  "split_once sep s =
     (case dropWhile (\<lambda>c. c \<noteq> sep) s of
        [] \<Rightarrow> [s]
      | _ # rest \<Rightarrow> [takeWhile (\<lambda>c. c \<noteq> sep) s, rest])"

text \<open>\<^verbatim>\<open>c.upper()\<close> on an ASCII character.\<close>

definition py_upper :: "char \<Rightarrow> char" where
  "py_upper c =
     (case map_of (zip ''abcdefghijklmnopqrstuvwxyz'' ''ABCDEFGHIJKLMNOPQRSTUVWXYZ'') c of
        None \<Rightarrow> c | Some u \<Rightarrow> u)"

text \<open>
  Plain decimal numerals (\<^verbatim>\<open>12\<close>, \<^verbatim>\<open>-0.5\<close>, \<^verbatim>\<open>+3.\<close>, \<^verbatim>\<open>.25\<close>): the fragment of what
  \<^verbatim>\<open>float(str)\<close> accepts that has no exponent, underscore, \<^verbatim>\<open>inf\<close> or \<^verbatim>\<open>nan\<close>.
\<close>

definition digit_val :: "char \<Rightarrow> nat option" where
  "digit_val c = map_of (zip ''0123456789'' [0, 1, 2, 3, 4, 5, 6, 7, 8, 9]) c"

fun dec_nat :: "nat \<Rightarrow> string \<Rightarrow> nat option" where
  "dec_nat acc [] = Some acc"
| "dec_nat acc (c # cs) =
     (case digit_val c of None \<Rightarrow> None | Some d \<Rightarrow> dec_nat (10 * acc + d) cs)"

definition float_unsigned :: "string \<Rightarrow> real option" where
  "float_unsigned s =
     (let ip = takeWhile (\<lambda>c. c \<noteq> CHR ''.'') s;
          fp = (case dropWhile (\<lambda>c. c \<noteq> CHR ''.'') s of [] \<Rightarrow> [] | _ # r \<Rightarrow> r)
      in if ip = [] \<and> fp = [] then None
         else (case dec_nat 0 ip of
                 None \<Rightarrow> None
               | Some i \<Rightarrow>
                   (case dec_nat 0 fp of
                      None \<Rightarrow> None
                    | Some f \<Rightarrow> Some (real i + real f / 10 ^ length fp))))"

definition float_dec :: "string \<Rightarrow> real option" where
  "float_dec s =
     (case s of
        [] \<Rightarrow> None
      | c # cs \<Rightarrow>
          if c = CHR ''-'' then map_option uminus (float_unsigned cs)
          else if c = CHR ''+'' then float_unsigned cs
          else float_unsigned s)"

subsection \<open>Flights and the airport table\<close>

record Flight =
  acid :: string
  plane_type :: "string option"
  route :: "string option"
  altitude :: "int option"
  departure_airport :: "string option"
  arrival_airport :: "string option"
  departure_time :: "int option"
  aircraft_speed :: "real option"
  passengers :: int
  is_cargo :: bool

definition AIRPORT_LOCATIONS :: "(string \<times> coord) list" where
  "AIRPORT_LOCATIONS =
     [(''CYYZ'', (43.68, - 79.63)), (''CYVR'', (49.19, - 123.18)), (''CYUL'', (45.47, - 73.74)),
      (''CYYC'', (51.11, - 114.02)), (''CYOW'', (45.32, - 75.67)), (''CYWG'', (49.91, - 97.24)),
      (''CYHZ'', (44.88, - 63.51)), (''CYEG'', (53.31, - 113.58)), (''CYQB'', (46.79, - 71.39)),
      (''CYYJ'', (48.65, - 123.43)), (''CYYT'', (47.62, - 52.75)), (''CYXE'', (52.17, - 106.70))]"

subsection \<open>Route parsing (\<^verbatim>\<open>flight_analysis.py\<close>)\<close>

text \<open>
  The inner \<^verbatim>\<open>parse_coord\<close>: \<^verbatim>\<open>float(c_str[:-1])\<close> first, then the sign from
  \<^verbatim>\<open>c_str[-1].upper() in ('S', 'W')\<close>, one test for latitudes and longitudes alike.
\<close>

definition parse_coord :: "(string \<Rightarrow> real option) \<Rightarrow> string \<Rightarrow> py_error + real" where
  "parse_coord pyfloat c_str =
     (case pyfloat (butlast c_str) of
        None \<Rightarrow> Inl ValueError
      | Some val \<Rightarrow>
          if c_str = [] then Inl IndexError
          else Inr (if py_upper (last c_str) \<in> set [CHR ''S'', CHR ''W''] then - val else val))"

text \<open>
  The body of the \<^verbatim>\<open>try\<close> after the test for a slash: the unpacking
  \<^verbatim>\<open>lat_str, lon_str = part.split('/')\<close> raises \<^verbatim>\<open>ValueError\<close> unless there are exactly
  two pieces.
\<close>

definition parse_waypoint :: "(string \<Rightarrow> real option) \<Rightarrow> string \<Rightarrow> py_error + coord" where
  "parse_waypoint pyfloat part =
     (case split_on CHR ''/'' part of
        [lat_str, lon_str] \<Rightarrow>
          (case parse_coord pyfloat lat_str of
             Inl e \<Rightarrow> Inl e
           | Inr la \<Rightarrow>
               (case parse_coord pyfloat lon_str of
                  Inl e \<Rightarrow> Inl e
                | Inr lo \<Rightarrow> Inr (la, lo)))
      | _ \<Rightarrow> Inl ValueError)"

text \<open>
  The loop over the parts; \<^verbatim>\<open>except (ValueError, IndexError): continue\<close> catches every
  exception \<open>parse_waypoint\<close> can raise.
\<close>

fun parse_parts :: "(string \<Rightarrow> real option) \<Rightarrow> string list \<Rightarrow> coord list" where
  "parse_parts pyfloat [] = []"
| "parse_parts pyfloat (part # parts) =
     (if CHR ''/'' \<notin> set part then parse_parts pyfloat parts
      else (case parse_waypoint pyfloat part of
              Inl e \<Rightarrow> parse_parts pyfloat parts
            | Inr w \<Rightarrow> w # parse_parts pyfloat parts))"

definition parse_route :: "(string \<Rightarrow> real option) \<Rightarrow> string option \<Rightarrow> coord list" where
  "parse_route pyfloat route_str =
     (case route_str of
        None \<Rightarrow> []
      | Some rs \<Rightarrow> if rs = [] then [] else parse_parts pyfloat (py_split rs))"

definition airport_point :: "string option \<Rightarrow> coord list" where
  "airport_point code =
     (case code of
        None \<Rightarrow> []
      | Some c \<Rightarrow>
          if c = [] then []
          else (case map_of AIRPORT_LOCATIONS c of None \<Rightarrow> [] | Some p \<Rightarrow> [p]))"

definition get_full_flight_path :: "(string \<Rightarrow> real option) \<Rightarrow> Flight \<Rightarrow> coord list" where
  "get_full_flight_path pyfloat flight =
     airport_point (departure_airport flight) @ parse_route pyfloat (route flight)
       @ airport_point (arrival_airport flight)"

subsection \<open>Route parsing (\<^verbatim>\<open>airspace_congestion.py\<close>)\<close>

definition parse_waypoint_congestion ::
  "(string \<Rightarrow> real option) \<Rightarrow> string \<Rightarrow> py_error + coord" where
  "parse_waypoint_congestion pyfloat part =
     (case split_once CHR ''/'' part of
        [lat_str, lon_str] \<Rightarrow>
          (case pyfloat (butlast lat_str) of
             None \<Rightarrow> Inl ValueError
           | Some lat_val \<Rightarrow>
               if lat_str = [] then Inl IndexError
               else
                 (case pyfloat (butlast lon_str) of
                    None \<Rightarrow> Inl ValueError
                  | Some lon_val \<Rightarrow>
                      if lon_str = [] then Inl IndexError
                      else Inr (if py_upper (last lat_str) = CHR ''S'' then - lat_val else lat_val,
                                if py_upper (last lon_str) = CHR ''W'' then - lon_val else lon_val)))
      | _ \<Rightarrow> Inl ValueError)"

fun parse_parts_congestion :: "(string \<Rightarrow> real option) \<Rightarrow> string list \<Rightarrow> coord list" where
  "parse_parts_congestion pyfloat [] = []"
| "parse_parts_congestion pyfloat (part # parts) =
     (if CHR ''/'' \<notin> set part then parse_parts_congestion pyfloat parts
      else (case parse_waypoint_congestion pyfloat part of
              Inl e \<Rightarrow> parse_parts_congestion pyfloat parts
            | Inr w \<Rightarrow> w # parse_parts_congestion pyfloat parts))"

text \<open>\<^verbatim>\<open>if not route_str or not route_str.strip(): return []\<close>, then the same loop.\<close>

definition parse_route_congestion ::
  "(string \<Rightarrow> real option) \<Rightarrow> string option \<Rightarrow> coord list" where
  "parse_route_congestion pyfloat route_str =
     (case route_str of
        None \<Rightarrow> []
      | Some rs \<Rightarrow>
          if rs = [] \<or> py_split rs = [] then []
          else parse_parts_congestion pyfloat (py_split rs))"

subsection \<open>Great-circle distance and interpolation\<close>

text \<open>\<^verbatim>\<open>flight_analysis.haversine_distance_km\<close>: radius 6371.0 km, inverse by \<^verbatim>\<open>atan2\<close>.\<close>

definition haversine_distance_km :: "coord \<Rightarrow> coord \<Rightarrow> py_error + real" where
  "haversine_distance_km coord1 coord2 =
     (case coord1 of (lat1, lon1) \<Rightarrow> case coord2 of (lat2, lon2) \<Rightarrow>
        let R = 6371.0;
            phi1 = radians lat1; phi2 = radians lat2;
            delta_phi = radians (lat2 - lat1);
            delta_lambda = radians (lon2 - lon1);
            a = (sin (delta_phi / 2))\<^sup>2 + cos phi1 * cos phi2 * (sin (delta_lambda / 2))\<^sup>2
        in (case py_sqrt a of
              Inl e \<Rightarrow> Inl e
            | Inr sa \<Rightarrow>
                (case py_sqrt (1 - a) of
                   Inl e \<Rightarrow> Inl e
                 | Inr sb \<Rightarrow> Inr (R * (2 * py_atan2 sa sb)))))"

definition horizontal_distance_nm :: "coord \<Rightarrow> coord \<Rightarrow> py_error + real" where
  "horizontal_distance_nm coord1 coord2 =
     (case haversine_distance_km coord1 coord2 of
        Inl e \<Rightarrow> Inl e
      | Inr km \<Rightarrow> Inr (km / 1.852))"

text \<open>\<^verbatim>\<open>airspace_congestion.haversine_distance\<close>: radius 3440.065 nm, inverse by \<^verbatim>\<open>asin\<close>.\<close>

definition haversine_distance :: "real \<Rightarrow> real \<Rightarrow> real \<Rightarrow> real \<Rightarrow> py_error + real" where
  "haversine_distance lat1 lon1 lat2 lon2 =
     (let R = 3440.065;
          lat1_rad = radians lat1; lon1_rad = radians lon1;
          lat2_rad = radians lat2; lon2_rad = radians lon2;
          dlat = lat2_rad - lat1_rad;
          dlon = lon2_rad - lon1_rad;
          a = (sin (dlat / 2))\<^sup>2 + cos lat1_rad * cos lat2_rad * (sin (dlon / 2))\<^sup>2
      in (case py_sqrt a of
            Inl e \<Rightarrow> Inl e
          | Inr sa \<Rightarrow>
              (case py_asin sa of
                 Inl e \<Rightarrow> Inl e
               | Inr as \<Rightarrow> Inr (R * (2 * as)))))"

definition interpolate_position :: "coord \<Rightarrow> coord \<Rightarrow> real \<Rightarrow> coord" where
  "interpolate_position start finish fraction =
     (case start of (lat1, lon1) \<Rightarrow> case finish of (lat2, lon2) \<Rightarrow>
        (lat1 + (lat2 - lat1) * fraction, lon1 + (lon2 - lon1) * fraction))"

subsection \<open>The 4D trajectory (\<^verbatim>\<open>flight_analysis.generate_4d_trajectory\<close>)\<close>

type_synonym trajectory = "(int \<times> coord) list"

text \<open>
  The body of \<^verbatim>\<open>for s in range(steps + 1)\<close>, with \<^verbatim>\<open>time_step_sec\<close> at its default 60, the
  only value a caller passes.
\<close>

definition traj_sample ::
  "coord \<Rightarrow> coord \<Rightarrow> real \<Rightarrow> real \<Rightarrow> int \<Rightarrow> trajectory \<Rightarrow> py_error + trajectory" where
  "traj_sample p1 p2 current_time duration_sec s traj =
     (case py_div (of_int (s * 60)) duration_sec of
        Inl e \<Rightarrow> Inl e
      | Inr fraction0 \<Rightarrow>
          let fraction = (if 1 < fraction0 then 1 else fraction0);
              pos = interpolate_position p1 p2 fraction;
              t_stamp = py_int (current_time + of_int (s * 60));
              t_minute = (t_stamp div 60) * 60
          in Inr (AList.update t_minute pos traj))"

text \<open>The body of \<^verbatim>\<open>for i in range(len(path) - 1)\<close>, on the segment \<open>(path[i], path[i+1])\<close>.\<close>

definition traj_segment ::
  "real \<Rightarrow> coord \<times> coord \<Rightarrow> trajectory \<times> real \<Rightarrow> py_error + trajectory \<times> real" where
  "traj_segment speed_nm_per_sec seg st =
     (case seg of (p1, p2) \<Rightarrow> case st of (traj, current_time) \<Rightarrow>
        (case horizontal_distance_nm p1 p2 of
           Inl e \<Rightarrow> Inl e
         | Inr dist_nm \<Rightarrow>
             if dist_nm = 0 then Inr (traj, current_time)
             else
               (case py_div dist_nm speed_nm_per_sec of
                  Inl e \<Rightarrow> Inl e
                | Inr duration_sec \<Rightarrow>
                    let steps = py_int (duration_sec / 60)
                    in (case fold_err (traj_sample p1 p2 current_time duration_sec) [0..steps] traj of
                          Inl e \<Rightarrow> Inl e
                        | Inr traj' \<Rightarrow> Inr (traj', current_time + duration_sec)))))"

definition generate_4d_trajectory :: "Flight \<Rightarrow> coord list \<Rightarrow> py_error + trajectory" where
  "generate_4d_trajectory flight path =
     (case departure_time flight of
        None \<Rightarrow> Inr []
      | Some dt \<Rightarrow>
          if dt = 0 then Inr []
          else
            (case aircraft_speed flight of
               None \<Rightarrow> Inr []
             | Some speed \<Rightarrow>
                 if speed = 0 \<or> speed \<le> 0 then Inr []
                 else if path = [] then Inr []
                 else
                   (case fold_err (traj_segment (speed / 3600)) (zip path (tl path))
                           ([], of_int dt) of
                      Inl e \<Rightarrow> Inl e
                    | Inr (traj, current_time) \<Rightarrow> Inr traj)))"

subsection \<open>Loss of separation (\<^verbatim>\<open>flight_analysis.detect_loss_of_separation\<close>)\<close>

record ConflictRecord =
  flight1 :: string
  flight2 :: string
  horizontal_nm :: real
  vertical_ft :: int
  reason :: string
  start_time_overlap :: int

type_synonym detect_state = "ConflictRecord list \<times> (string \<times> string) set"

text \<open>
  The first loop: \<^verbatim>\<open>flight_objects[f.acid] = f\<close>, then the trajectory, stored only when it
  is not empty.
\<close>

definition preprocess_flight ::
  "(string \<Rightarrow> real option) \<Rightarrow> Flight \<Rightarrow> (string \<times> Flight) list \<times> (string \<times> trajectory) list
     \<Rightarrow> py_error + (string \<times> Flight) list \<times> (string \<times> trajectory) list" where
  "preprocess_flight pyfloat f st =
     (case st of (flight_objects, flight_trajectories) \<Rightarrow>
        let flight_objects' = AList.update (acid f) f flight_objects;
            path = get_full_flight_path pyfloat f
        in if path = [] then Inr (flight_objects', flight_trajectories)
           else
             (case generate_4d_trajectory f path of
                Inl e \<Rightarrow> Inl e
              | Inr traj \<Rightarrow>
                  if traj \<noteq> []
                  then Inr (flight_objects', AList.update (acid f) traj flight_trajectories)
                  else Inr (flight_objects', flight_trajectories)))"

text \<open>
  \<^verbatim>\<open>if t not in position_by_time: position_by_time[t] = []\<close>, then
  \<^verbatim>\<open>position_by_time[t].append((acid, pos))\<close>.
\<close>

definition add_position ::
  "string \<Rightarrow> int \<times> coord \<Rightarrow> (int \<times> (string \<times> coord) list) list
     \<Rightarrow> (int \<times> (string \<times> coord) list) list" where
  "add_position a tp position_by_time =
     (case tp of (t, pos) \<Rightarrow>
        (case map_of position_by_time t of
           None \<Rightarrow> AList.update t [(a, pos)] position_by_time
         | Some l \<Rightarrow> AList.update t (l @ [(a, pos)]) position_by_time))"

definition invert_trajectories ::
  "(string \<times> trajectory) list \<Rightarrow> (int \<times> (string \<times> coord) list) list" where
  "invert_trajectories flight_trajectories =
     fold (\<lambda>(a, traj) position_by_time. fold (add_position a) traj position_by_time)
       flight_trajectories []"

text \<open>\<^verbatim>\<open>tuple(sorted((acid1, acid2)))\<close>.\<close>

definition pair_key :: "string \<Rightarrow> string \<Rightarrow> string \<times> string" where
  "pair_key acid1 acid2 = (if acid2 < acid1 then (acid2, acid1) else (acid1, acid2))"

text \<open>
  \<^verbatim>\<open>datetime.datetime.fromtimestamp(t, tz=datetime.timezone.utc)\<close> on an \<^verbatim>\<open>int\<close>: it
  raises \<^verbatim>\<open>OverflowError\<close> when \<open>t\<close> does not fit the 64-bit \<^verbatim>\<open>time_t\<close>, \<^verbatim>\<open>OSError\<close>
  when \<^verbatim>\<open>gmtime\<close> (of glibc) cannot hold the year, and \<^verbatim>\<open>ValueError\<close> when the year is
  not one of 1 .. 9999. The formatted string is a function of \<open>t\<close>, which stands for it.
\<close>

definition fromtimestamp_utc :: "int \<Rightarrow> py_error + int" where
  "fromtimestamp_utc t =
     (if t < - (2 ^ 63) \<or> 2 ^ 63 \<le> t then Inl OverflowError
      else if t < - 67768040609740800 \<or> 67768036191676799 < t then Inl OSError
      else if t < - 62135596800 \<or> 253402300799 < t then Inl ValueError
      else Inr t)"

text \<open>
  The body of the inner loop \<^verbatim>\<open>for j in range(i + 1, len(aircraft_at_t))\<close>; \<open>fl1\<close> and
  \<open>fl2\<close> are the code's \<^verbatim>\<open>flight1\<close> and \<^verbatim>\<open>flight2\<close>. The record is
  built before it is appended, its entries in the order of the dictionary display: so
  \<^verbatim>\<open>abs(flight1.altitude - flight2.altitude)\<close> raises \<^verbatim>\<open>TypeError\<close> on a missing
  altitude, and then \<^verbatim>\<open>fromtimestamp\<close> raises on a time bucket it cannot render, with
  nothing appended.
\<close>

definition check_pair ::
  "(string \<times> Flight) list \<Rightarrow> int \<Rightarrow> string \<Rightarrow> coord \<Rightarrow> Flight \<Rightarrow> string \<times> coord
     \<Rightarrow> detect_state \<Rightarrow> py_error + detect_state" where
  "check_pair flight_objects t acid1 pos1 fl1 ap2 st =
     (case ap2 of (acid2, pos2) \<Rightarrow> case st of (conflicts, active_conflicts) \<Rightarrow>
        (case map_of flight_objects acid2 of
           None \<Rightarrow> Inl KeyError
         | Some fl2 \<Rightarrow>
             if (case altitude fl1 of
                   None \<Rightarrow> False
                 | Some alt1 \<Rightarrow>
                     (case altitude fl2 of
                        None \<Rightarrow> False
                      | Some alt2 \<Rightarrow> 2000 \<le> \<bar>alt1 - alt2\<bar>))
             then Inr (conflicts, active_conflicts)
             else
               (case horizontal_distance_nm pos1 pos2 of
                  Inl e \<Rightarrow> Inl e
                | Inr dist_nm \<Rightarrow>
                    if dist_nm < 5.0 then
                      if pair_key acid1 acid2 \<notin> active_conflicts then
                        (case altitude fl1 of
                           None \<Rightarrow> Inl TypeError
                         | Some alt1 \<Rightarrow>
                             (case altitude fl2 of
                                None \<Rightarrow> Inl TypeError
                              | Some alt2 \<Rightarrow>
                                  (case fromtimestamp_utc t of
                                     Inl e \<Rightarrow> Inl e
                                   | Inr start \<Rightarrow>
                                       Inr (conflicts @
                                              [\<lparr>flight1 = acid1, flight2 = acid2,
                                                horizontal_nm = py_round2 dist_nm,
                                                vertical_ft = \<bar>alt1 - alt2\<bar>,
                                                reason = ''Loss-of-separation detected'',
                                                start_time_overlap = start\<rparr>],
                                            insert (pair_key acid1 acid2) active_conflicts))))
                      else Inr (conflicts, active_conflicts)
                    else Inr (conflicts, active_conflicts))))"

text \<open>
  \<^verbatim>\<open>for i in range(len(aircraft_at_t))\<close>: the aircraft at \<open>i\<close> against every later one;
  \<^verbatim>\<open>flight_objects[acid1]\<close> is read before the inner loop.
\<close>

fun check_bucket ::
  "(string \<times> Flight) list \<Rightarrow> int \<Rightarrow> (string \<times> coord) list \<Rightarrow> detect_state
     \<Rightarrow> py_error + detect_state" where
  "check_bucket flight_objects t [] st = Inr st"
| "check_bucket flight_objects t (ap1 # rest) st =
     (case map_of flight_objects (fst ap1) of
        None \<Rightarrow> Inl KeyError
      | Some fl1 \<Rightarrow>
          (case fold_err (check_pair flight_objects t (fst ap1) (snd ap1) fl1) rest st of
             Inl e \<Rightarrow> Inl e
           | Inr st' \<Rightarrow> check_bucket flight_objects t rest st'))"

text \<open>The body of \<^verbatim>\<open>for t in sorted_times\<close>.\<close>

definition check_time ::
  "(string \<times> Flight) list \<Rightarrow> (int \<times> (string \<times> coord) list) list \<Rightarrow> int \<Rightarrow> detect_state
     \<Rightarrow> py_error + detect_state" where
  "check_time flight_objects position_by_time t st =
     (case map_of position_by_time t of
        None \<Rightarrow> Inl KeyError
      | Some aircraft_at_t \<Rightarrow> check_bucket flight_objects t aircraft_at_t st)"

text \<open>
  The second part of the function, \<^verbatim>\<open># 2. Check for Conflicts\<close>, which reads the flights
  through the two dictionaries only: the inverted index, the sorted times and the loops.
\<close>

definition check_conflicts ::
  "(string \<times> Flight) list \<Rightarrow> (string \<times> trajectory) list \<Rightarrow> py_error + ConflictRecord list" where
  "check_conflicts flight_objects flight_trajectories =
     (let position_by_time = invert_trajectories flight_trajectories;
          sorted_times = sort (map fst position_by_time)
      in (case fold_err (check_time flight_objects position_by_time) sorted_times ([], {}) of
            Inl e \<Rightarrow> Inl e
          | Inr (conflicts, active_conflicts) \<Rightarrow> Inr conflicts))"

text \<open>The first part, \<^verbatim>\<open># 1. Preprocessing\<close>, then the second.\<close>

definition detect_loss_of_separation ::
  "(string \<Rightarrow> real option) \<Rightarrow> Flight list \<Rightarrow> py_error + ConflictRecord list" where
  "detect_loss_of_separation pyfloat flights =
     (case fold_err (preprocess_flight pyfloat) flights ([], []) of
        Inl e \<Rightarrow> Inl e
      | Inr (flight_objects, flight_trajectories) \<Rightarrow>
          check_conflicts flight_objects flight_trajectories)"

subsection \<open>Congestion (\<^verbatim>\<open>airspace_congestion.py\<close>)\<close>

text \<open>The field \<open>sample_acid\<close> is the code's \<^verbatim>\<open>PositionSample.acid\<close>.\<close>

record PositionSample =
  timestamp :: int
  latitude :: real
  longitude :: real
  sample_acid :: string

text \<open>The field \<open>flight_set\<close> is the set the code stores under the key \<^verbatim>\<open>'flights'\<close>.\<close>

record Hotspot =
  sector_lat :: int
  sector_lon :: int
  window_start :: int
  flight_count :: nat
  flight_set :: "string set"

text \<open>
  The body of \<^verbatim>\<open>for j in range(num_samples + 1)\<close>; \<open>current_time\<close> is \<open>None\<close> when the
  flight has no departure time, and the addition then raises \<^verbatim>\<open>TypeError\<close>.
\<close>

definition segment_sample ::
  "string \<Rightarrow> coord \<Rightarrow> coord \<Rightarrow> int option \<Rightarrow> real \<Rightarrow> int \<Rightarrow> int \<Rightarrow> py_error + PositionSample" where
  "segment_sample a p1 p2 current_time time_for_segment num_samples j =
     (case p1 of (lat1, lon1) \<Rightarrow> case p2 of (lat2, lon2) \<Rightarrow>
        let t0 = (if 0 < num_samples then of_int j / of_int num_samples else 0);
            t = min t0 1;
            lat = lat1 + t * (lat2 - lat1);
            lon = lon1 + t * (lon2 - lon1)
        in (case current_time of
              None \<Rightarrow> Inl TypeError
            | Some ct \<Rightarrow>
                Inr \<lparr>timestamp = ct + py_int (t * time_for_segment), latitude = lat,
                     longitude = lon, sample_acid = a\<rparr>))"

text \<open>The body of \<^verbatim>\<open>for i in range(len(waypoints) - 1)\<close>, with the sample interval 90.\<close>

definition congestion_segment ::
  "string \<Rightarrow> real \<Rightarrow> coord \<times> coord \<Rightarrow> PositionSample list \<times> int option
     \<Rightarrow> py_error + PositionSample list \<times> int option" where
  "congestion_segment a speed_knots seg st =
     (case seg of (p1, p2) \<Rightarrow> case st of (samples, current_time) \<Rightarrow>
        (case haversine_distance (fst p1) (snd p1) (fst p2) (snd p2) of
           Inl e \<Rightarrow> Inl e
         | Inr distance_nm \<Rightarrow>
             let time_for_segment = (distance_nm / speed_knots) * 3600
             in if time_for_segment \<le> 0 then Inr (samples, current_time)
                else
                  let num_samples = max 1 (py_int (time_for_segment / 90))
                  in (case map_err (segment_sample a p1 p2 current_time time_for_segment num_samples)
                             [0..num_samples] of
                        Inl e \<Rightarrow> Inl e
                      | Inr new_samples \<Rightarrow>
                          (case current_time of
                             None \<Rightarrow> Inl TypeError
                           | Some ct \<Rightarrow>
                               Inr (samples @ new_samples,
                                    Some (ct + py_int time_for_segment))))))"

definition estimate_trajectory ::
  "(string \<Rightarrow> real option) \<Rightarrow> Flight \<Rightarrow> py_error + PositionSample list" where
  "estimate_trajectory pyfloat flight =
     (let waypoints = parse_route_congestion pyfloat (route flight)
      in if length waypoints < 2 then Inr []
         else
           (case aircraft_speed flight of
              None \<Rightarrow> Inl TypeError
            | Some speed_knots \<Rightarrow>
                if speed_knots \<le> 0 then Inr []
                else
                  (case fold_err (congestion_segment (acid flight) speed_knots)
                          (zip waypoints (tl waypoints)) ([], departure_time flight) of
                     Inl e \<Rightarrow> Inl e
                   | Inr (samples, current_time) \<Rightarrow> Inr samples)))"

definition get_sector :: "real \<Rightarrow> real \<Rightarrow> int \<times> int" where
  "get_sector lat lon = (\<lfloor>lat\<rfloor>, \<lfloor>lon\<rfloor>)"

definition get_time_window :: "int \<Rightarrow> int" where
  "get_time_window ts = (ts div 900) * 900"

text \<open>The key \<^verbatim>\<open>(sector_lat, sector_lon, window_start)\<close> of a sample.\<close>

definition sample_key :: "PositionSample \<Rightarrow> int \<times> int \<times> int" where
  "sample_key sample =
     (case get_sector (latitude sample) (longitude sample) of
        (s_lat, s_lon) \<Rightarrow> (s_lat, s_lon, get_time_window (timestamp sample)))"

text \<open>
  \<^verbatim>\<open>sector_window_flights[key].add(acid)\<close> on a \<^verbatim>\<open>defaultdict(set)\<close>: a missing key
  starts at the empty set.
\<close>

definition add_flight ::
  "string \<Rightarrow> PositionSample \<Rightarrow> ((int \<times> int \<times> int) \<times> string set) list
     \<Rightarrow> ((int \<times> int \<times> int) \<times> string set) list" where
  "add_flight a sample sector_window_flights =
     (let k = sample_key sample
      in AList.update k
           (insert a (case map_of sector_window_flights k of None \<Rightarrow> {} | Some fs \<Rightarrow> fs))
           sector_window_flights)"

text \<open>The body of \<^verbatim>\<open>for flight in flights\<close>.\<close>

definition congestion_flight ::
  "(string \<Rightarrow> real option) \<Rightarrow> Flight \<Rightarrow> ((int \<times> int \<times> int) \<times> string set) list
     \<Rightarrow> py_error + ((int \<times> int \<times> int) \<times> string set) list" where
  "congestion_flight pyfloat flight sector_window_flights =
     (case estimate_trajectory pyfloat flight of
        Inl e \<Rightarrow> Inl e
      | Inr samples \<Rightarrow> Inr (fold (add_flight (acid flight)) samples sector_window_flights))"

definition make_hotspot :: "(int \<times> int \<times> int) \<times> string set \<Rightarrow> Hotspot" where
  "make_hotspot kv =
     (case kv of ((s_lat, s_lon, w_start), fs) \<Rightarrow>
        \<lparr>sector_lat = s_lat, sector_lon = s_lon, window_start = w_start,
         flight_count = card fs, flight_set = fs\<rparr>)"

text \<open>The sort key \<^verbatim>\<open>(x['window_start'], x['sector_lat'], x['sector_lon'])\<close>.\<close>

definition hotspot_order :: "Hotspot \<Rightarrow> int \<times> int \<times> int" where
  "hotspot_order h = (window_start h, sector_lat h, sector_lon h)"

definition detect_congestion ::
  "(string \<Rightarrow> real option) \<Rightarrow> Flight list \<Rightarrow> py_error + Hotspot list" where
  "detect_congestion pyfloat flights =
     (case fold_err (congestion_flight pyfloat) flights [] of
        Inl e \<Rightarrow> Inl e
      | Inr sector_window_flights \<Rightarrow>
          let hotspots = map make_hotspot (filter (\<lambda>kv. 5 < card (snd kv)) sector_window_flights)
          in Inr (sort_key hotspot_order hotspots))"

subsection \<open>Notions the properties are stated with\<close>

text \<open>
  The haversine intermediate \<^verbatim>\<open>a\<close> that both distance functions compute, and the central
  angle \<^verbatim>\<open>c\<close> they multiply by their radius.
\<close>

definition haversine_a :: "real \<Rightarrow> real \<Rightarrow> real \<Rightarrow> real \<Rightarrow> real" where
  "haversine_a lat1 lon1 lat2 lon2 =
     (sin (radians (lat2 - lat1) / 2))\<^sup>2
       + cos (radians lat1) * cos (radians lat2) * (sin (radians (lon2 - lon1) / 2))\<^sup>2"

definition central_angle :: "real \<Rightarrow> real \<Rightarrow> real \<Rightarrow> real \<Rightarrow> real" where
  "central_angle lat1 lon1 lat2 lon2 = 2 * arcsin (sqrt (haversine_a lat1 lon1 lat2 lon2))"

text \<open>
  What the dictionary \<^verbatim>\<open>sector_window_flights\<close> holds under the key \<open>k\<close>: the identifiers
  of the flights of the input one of whose position samples has the key \<open>k\<close>.
\<close>

definition bucket_flights ::
  "(string \<Rightarrow> real option) \<Rightarrow> Flight list \<Rightarrow> int \<times> int \<times> int \<Rightarrow> string set" where
  "bucket_flights pyfloat flights k =
     acid ` {f \<in> set flights.
               case estimate_trajectory pyfloat f of
                 Inl e \<Rightarrow> False
               | Inr samples \<Rightarrow> k \<in> sample_key ` set samples}"

text \<open>The unordered pair of flights a conflict record reports.\<close>

definition conflict_pair :: "ConflictRecord \<Rightarrow> string set" where
  "conflict_pair c = {flight1 c, flight2 c}"

text \<open>
  Example flights at 480 kt on the equator, as the loader builds them (\<^verbatim>\<open>"Unknown"\<close>
  airports are not in the table). The routes: one leg of 0.1 degree (6 nm, 45 s), one leg
  of 0.001 degree (under half a second), and two legs of 0.1 degree.
\<close>

definition demo_flight :: "string \<Rightarrow> string \<Rightarrow> int option \<Rightarrow> int option \<Rightarrow> Flight" where
  "demo_flight a r alt dep =
     \<lparr>acid = a, plane_type = Some ''Airbus A320'', route = Some r, altitude = alt,
      departure_airport = Some ''Unknown'', arrival_airport = Some ''Unknown'',
      departure_time = dep, aircraft_speed = Some 480, passengers = 150, is_cargo = False\<rparr>"

definition short_leg :: string where
  "short_leg = ''0N/0E 0N/0.1E''"

definition tiny_leg :: string where
  "tiny_leg = ''0N/0E 0N/0.001E''"

text \<open>
  The occupants of the time bucket \<open>t\<close>: for each stored trajectory, in the order of
  \<^verbatim>\<open>flight_trajectories\<close>, its position at \<open>t\<close> when it has one.
\<close>

definition bucket_at :: "(string \<times> trajectory) list \<Rightarrow> int \<Rightarrow> (string \<times> coord) list" where
  "bucket_at flight_trajectories t =
     concat (map (\<lambda>(a, traj). case map_of traj t of None \<Rightarrow> [] | Some pos \<Rightarrow> [(a, pos)])
               flight_trajectories)"

text \<open>
  What the first loop of \<^verbatim>\<open>detect_loss_of_separation\<close> has built from the flights \<open>F\<close>:
  every identifier has its flight object, a stored trajectory is the non-empty
  trajectory of a flight of that identifier, and every flight with a non-empty trajectory
  has a trajectory stored under its identifier.
\<close>

definition preprocessed ::
  "(string \<Rightarrow> real option) \<Rightarrow> Flight set
     \<Rightarrow> (string \<times> Flight) list \<times> (string \<times> trajectory) list \<Rightarrow> bool" where
  "preprocessed pyfloat F st =
     (case st of (flight_objects, flight_trajectories) \<Rightarrow>
        fst ` set flight_objects = acid ` F
        \<and> (\<forall>a g. map_of flight_objects a = Some g \<longrightarrow> g \<in> F \<and> acid g = a)
        \<and> distinct (map fst flight_trajectories)
        \<and> (\<forall>a traj. (a, traj) \<in> set flight_trajectories \<longrightarrow>
              traj \<noteq> [] \<and> distinct (map fst traj)
              \<and> (\<exists>g \<in> F. acid g = a
                    \<and> generate_4d_trajectory g (get_full_flight_path pyfloat g) = Inr traj))
        \<and> (\<forall>g \<in> F. generate_4d_trajectory g (get_full_flight_path pyfloat g) \<noteq> Inr []
              \<longrightarrow> acid g \<in> fst ` set flight_trajectories))"

text \<open>
  A record that reports a genuine pair: two different flights that share the time bucket
  of the record, with known altitudes less than 2000 ft apart and positions less than
  5 nm apart.
\<close>

definition genuine_conflict ::
  "(string \<times> Flight) list \<Rightarrow> (int \<times> (string \<times> coord) list) list \<Rightarrow> ConflictRecord \<Rightarrow> bool" where
  "genuine_conflict flight_objects position_by_time c =
     (\<exists>l pos1 pos2 fl1 fl2 h1 h2 d.
        map_of position_by_time (start_time_overlap c) = Some l
        \<and> (flight1 c, pos1) \<in> set l \<and> (flight2 c, pos2) \<in> set l \<and> flight1 c \<noteq> flight2 c
        \<and> map_of flight_objects (flight1 c) = Some fl1
        \<and> map_of flight_objects (flight2 c) = Some fl2
        \<and> altitude fl1 = Some h1 \<and> altitude fl2 = Some h2
        \<and> \<bar>h1 - h2\<bar> < 2000 \<and> vertical_ft c = \<bar>h1 - h2\<bar>
        \<and> horizontal_distance_nm pos1 pos2 = Inr d \<and> d < 5 \<and> horizontal_nm c = py_round2 d)"

text \<open>
  The state of the pair loop is well formed when no two records report the same
  unordered pair and the active pairs are exactly the reported ones.
\<close>

definition once_per_pair :: "detect_state \<Rightarrow> bool" where
  "once_per_pair st =
     (case st of (conflicts, active_conflicts) \<Rightarrow>
        distinct (map conflict_pair conflicts)
        \<and> (\<lambda>c. pair_key (flight1 c) (flight2 c)) ` set conflicts = active_conflicts)"

definition two_legs :: string where
  "two_legs = ''0N/0E 0N/0.1E 0N/0.2E''"

text \<open>
  The two tests of the pair loop: the vertical guard of line 248 and the horizontal
  threshold of line 255.
\<close>

definition vertically_separated :: "Flight \<Rightarrow> Flight \<Rightarrow> bool" where
  "vertically_separated f g =
     (case altitude f of
        None \<Rightarrow> False
      | Some h1 \<Rightarrow> (case altitude g of None \<Rightarrow> False | Some h2 \<Rightarrow> 2000 \<le> \<bar>h1 - h2\<bar>))"

definition too_close :: "coord \<Rightarrow> coord \<Rightarrow> bool" where
  "too_close p q = (case horizontal_distance_nm p q of Inl e \<Rightarrow> False | Inr d \<Rightarrow> d < 5)"

text \<open>
  Six flights on the leg of 0.001 degree, departing at the same time, and the first five
  of them.
\<close>

definition six_flights :: "Flight list" where
  "six_flights =
     map (\<lambda>a. demo_flight a tiny_leg (Some 35000) (Some 1700000000))
       [''AC101'', ''AC102'', ''AC103'', ''AC104'', ''AC105'', ''AC106'']"

definition five_flights :: "Flight list" where
  "five_flights =
     map (\<lambda>a. demo_flight a tiny_leg (Some 35000) (Some 1700000000))
       [''AC101'', ''AC102'', ''AC103'', ''AC104'', ''AC105'']"

text \<open>
  The bucket of the specification: a position sample is in the bucket \<open>k\<close> when it lies in
  the one-degree sector whose south-west corner is \<open>(s_lat, s_lon)\<close> and its timestamp in
  the 15 minutes that start at \<open>w_start\<close>, a multiple of 900 s. The flights observed in a
  bucket are the identifiers of the flights with a sample in it.
\<close>

definition in_bucket :: "PositionSample \<Rightarrow> int \<times> int \<times> int \<Rightarrow> bool" where
  "in_bucket s k =
     (case k of (s_lat, s_lon, w_start) \<Rightarrow>
        of_int s_lat \<le> latitude s \<and> latitude s < of_int s_lat + 1
        \<and> of_int s_lon \<le> longitude s \<and> longitude s < of_int s_lon + 1
        \<and> w_start mod 900 = 0 \<and> w_start \<le> timestamp s \<and> timestamp s < w_start + 900)"

definition flights_observed ::
  "(string \<Rightarrow> real option) \<Rightarrow> Flight list \<Rightarrow> int \<times> int \<times> int \<Rightarrow> string set" where
  "flights_observed pyfloat flights k =
     acid ` {f \<in> set flights.
               case estimate_trajectory pyfloat f of
                 Inl e \<Rightarrow> False
               | Inr samples \<Rightarrow> \<exists>s \<in> set samples. in_bucket s k}"

text \<open>
  Six flights on a leg of 0.001 degree that crosses the meridian 0 westwards, from sector
  \<open>(0, 0)\<close> into sector \<open>(0, -1)\<close>.
\<close>

definition crossing_leg :: string where
  "crossing_leg = ''0N/0.0005E 0N/0.0005W''"

definition six_crossing_flights :: "Flight list" where
  "six_crossing_flights =
     map (\<lambda>a. demo_flight a crossing_leg (Some 35000) (Some 1700000000))
       [''AC101'', ''AC102'', ''AC103'', ''AC104'', ''AC105'', ''AC106'']"

section \<open>Properties\<close>

subsection \<open>The distance functions in closed form\<close>

lemma sin_sq_half: "(sin (x / 2))\<^sup>2 = (1 - cos x) / 2" for x :: real
  using cos_double_sin [of "x / 2"] by simp

lemma haversine_a_convex:
  fixes p1 p2 dl :: real
  shows "(sin ((p2 - p1) / 2))\<^sup>2 + cos p1 * cos p2 * (sin (dl / 2))\<^sup>2
       = (1 - (sin (dl / 2))\<^sup>2) * ((1 - cos (p2 - p1)) / 2)
         + (sin (dl / 2))\<^sup>2 * ((1 + cos (p1 + p2)) / 2)"
proof -
  have alg: "(1 - (C + S)) / 2 + C * s = (1 - s) * ((1 - (C + S)) / 2) + s * ((1 + (C - S)) / 2)"
    for C S s :: real
    by (simp add: field_simps)
  show ?thesis
    unfolding sin_sq_half [of "p2 - p1"] cos_diff cos_add
    using alg [of "cos p2 * cos p1" "sin p2 * sin p1" "(sin (dl / 2))\<^sup>2"]
    by (simp add: mult.commute)
qed

text \<open>In exact arithmetic the intermediate value lies in \<open>[0, 1]\<close> for all inputs.\<close>

lemma haversine_a_bounds:
  fixes p1 p2 dl :: real
  defines "a \<equiv> (sin ((p2 - p1) / 2))\<^sup>2 + cos p1 * cos p2 * (sin (dl / 2))\<^sup>2"
  shows "0 \<le> a" and "a \<le> 1"
proof -
  define s where "s = (sin (dl / 2))\<^sup>2"
  define u where "u = (1 - cos (p2 - p1)) / 2"
  define v where "v = (1 + cos (p1 + p2)) / 2"
  have s: "0 \<le> s" "s \<le> 1"
    unfolding s_def by (simp_all add: abs_square_le_1)
  have u: "0 \<le> u" "u \<le> 1"
    using cos_le_one [of "p2 - p1"] cos_ge_minus_one [of "p2 - p1"] by (auto simp: u_def)
  have "0 \<le> 1 + cos (p1 + p2)"
    using cos_ge_minus_one [of "p1 + p2"] by linarith
  then have "0 \<le> v"
    by (simp add: v_def)
  moreover have "v \<le> 1"
    using cos_le_one [of "p1 + p2"] by (simp add: v_def)
  ultimately have v: "0 \<le> v" "v \<le> 1" .
  have a: "a = (1 - s) * u + s * v"
    unfolding a_def s_def u_def v_def by (rule haversine_a_convex)
  show "0 \<le> a"
    unfolding a using s u v by simp
  have "(1 - s) * u \<le> (1 - s) * 1"
    using s u by (intro mult_left_mono) simp_all
  moreover have "s * v \<le> s * 1"
    using s v by (intro mult_left_mono) simp_all
  ultimately show "a \<le> 1"
    unfolding a by simp
qed

lemma atan2_arcsin:
  fixes a :: real
  assumes "0 \<le> a" "a \<le> 1"
  shows "py_atan2 (sqrt a) (sqrt (1 - a)) = arcsin (sqrt a)"
proof (cases "a = 1")
  case True
  then show ?thesis by (simp add: py_atan2_def)
next
  case False
  with assms have lt: "a < 1" by simp
  then have pos: "0 < sqrt (1 - a)" by simp
  have sq: "(sqrt a)\<^sup>2 = a" using assms by simp
  have "sqrt a < 1" using lt assms by simp
  moreover have "- 1 < sqrt a" using assms by (smt (verit) real_sqrt_ge_zero)
  ultimately have "arcsin (sqrt a) = arctan (sqrt a / sqrt (1 - (sqrt a)\<^sup>2))"
    by (rule arcsin_arctan [rotated])
  then show ?thesis using pos by (simp add: py_atan2_def sq)
qed

lemma radians_diff: "radians (x - y) = radians x - radians y"
  by (simp add: radians_def left_diff_distrib)

lemma haversine_a_ge_0: "0 \<le> haversine_a lat1 lon1 lat2 lon2"
  unfolding haversine_a_def radians_diff by (rule haversine_a_bounds)

lemma haversine_a_le_1: "haversine_a lat1 lon1 lat2 lon2 \<le> 1"
  unfolding haversine_a_def radians_diff by (rule haversine_a_bounds)

lemma haversine_distance_km_eq:
  "haversine_distance_km (lat1, lon1) (lat2, lon2) = Inr (6371 * central_angle lat1 lon1 lat2 lon2)"
proof -
  let ?a = "haversine_a lat1 lon1 lat2 lon2"
  have "py_sqrt ?a = Inr (sqrt ?a)" "py_sqrt (1 - ?a) = Inr (sqrt (1 - ?a))"
    using haversine_a_ge_0 [of lat1 lon1 lat2 lon2] haversine_a_le_1 [of lat1 lon1 lat2 lon2]
    by (simp_all add: py_sqrt_def)
  moreover have "py_atan2 (sqrt ?a) (sqrt (1 - ?a)) = arcsin (sqrt ?a)"
    by (rule atan2_arcsin) (rule haversine_a_ge_0 haversine_a_le_1)+
  ultimately show ?thesis
    by (simp add: haversine_distance_km_def central_angle_def Let_def haversine_a_def [symmetric])
qed

lemma horizontal_distance_nm_eq:
  "horizontal_distance_nm (lat1, lon1) (lat2, lon2)
     = Inr (6371 * central_angle lat1 lon1 lat2 lon2 / 1.852)"
  by (simp add: horizontal_distance_nm_def haversine_distance_km_eq)

lemma haversine_distance_eq:
  "haversine_distance lat1 lon1 lat2 lon2 = Inr (3440.065 * central_angle lat1 lon1 lat2 lon2)"
proof -
  let ?a = "haversine_a lat1 lon1 lat2 lon2"
  have a: "0 \<le> ?a" "?a \<le> 1" by (rule haversine_a_ge_0 haversine_a_le_1)+
  then have "py_sqrt ?a = Inr (sqrt ?a)"
    by (simp add: py_sqrt_def)
  moreover have "py_asin (sqrt ?a) = Inr (arcsin (sqrt ?a))"
    using a by (simp add: py_asin_def) (smt (verit) real_sqrt_ge_zero)
  ultimately show ?thesis
    by (simp add: haversine_distance_def central_angle_def Let_def radians_diff [symmetric]
        haversine_a_def [symmetric])
qed

lemma central_angle_ge_0: "0 \<le> central_angle lat1 lon1 lat2 lon2"
  unfolding central_angle_def
  using haversine_a_ge_0 [of lat1 lon1 lat2 lon2] haversine_a_le_1 [of lat1 lon1 lat2 lon2]
  by (simp add: arcsin_nonneg)

lemma central_angle_same: "central_angle lat lon lat lon = 0"
  by (simp add: central_angle_def haversine_a_def radians_def)

lemma central_angle_equator:
  assumes "0 \<le> lon_b - lon_a" "lon_b - lon_a \<le> 180"
  shows "central_angle 0 lon_a 0 lon_b = radians (lon_b - lon_a)"
proof -
  let ?x = "radians (lon_b - lon_a)"
  have x: "0 \<le> ?x / 2" "?x / 2 \<le> pi / 2"
    using assms by (simp_all add: radians_def)
  then have nonneg: "0 \<le> sin (?x / 2)"
    by (intro sin_ge_zero) (use pi_gt_zero in linarith)+
  have "haversine_a 0 lon_a 0 lon_b = (sin (?x / 2))\<^sup>2"
    by (simp add: haversine_a_def radians_def)
  then have "sqrt (haversine_a 0 lon_a 0 lon_b) = sin (?x / 2)"
    using nonneg by simp
  moreover have "arcsin (sin (?x / 2)) = ?x / 2"
    using x by (intro arcsin_sin) (use pi_gt_zero in linarith)+
  ultimately show ?thesis
    by (simp add: central_angle_def)
qed

subsection \<open>Nautical miles against kilometres\<close>

lemma central_angle_le_pi: "central_angle lat1 lon1 lat2 lon2 \<le> pi"
proof -
  let ?a = "haversine_a lat1 lon1 lat2 lon2"
  have "0 \<le> ?a" "?a \<le> 1"
    by (rule haversine_a_ge_0 haversine_a_le_1)+
  then have "- 1 \<le> sqrt ?a" "sqrt ?a \<le> 1"
    by (simp_all add: order_trans [of "- 1" 0])
  then have "arcsin (sqrt ?a) \<le> pi / 2"
    by (rule arcsin_ubound)
  then show ?thesis
    by (simp add: central_angle_def)
qed

text \<open>
  C6 (amended). For coordinates within the valid ranges (a latitude between -90 and 90, a
  longitude between -180 and 180), whenever \<^verbatim>\<open>haversine_distance\<close> (radius 3440.065 nm)
  and \<^verbatim>\<open>horizontal_distance_nm\<close> (radius 6371.0 km, divided by 1.852) both return, their
  results are within 0.002 nautical miles of each other. They are not equal up to
  floating-point rounding: the two radius constants are not in the ratio 1.852, since
  \<open>3440.065 * 1.852 = 6371.00038\<close>.
\<close>

theorem nm_km_distances_within_two_thousandths:
  "haversine_distance lat1 lon1 lat2 lon2 = Inr d_nm
   \<and> horizontal_distance_nm (lat1, lon1) (lat2, lon2) = Inr d
   \<and> \<bar>lat1\<bar> \<le> 90 \<and> \<bar>lat2\<bar> \<le> 90 \<and> \<bar>lon1\<bar> \<le> 180 \<and> \<bar>lon2\<bar> \<le> 180
   \<longrightarrow> \<bar>d_nm - d\<bar> \<le> 2 / 1000"
proof
  assume h: "haversine_distance lat1 lon1 lat2 lon2 = Inr d_nm
   \<and> horizontal_distance_nm (lat1, lon1) (lat2, lon2) = Inr d
   \<and> \<bar>lat1\<bar> \<le> 90 \<and> \<bar>lat2\<bar> \<le> 90 \<and> \<bar>lon1\<bar> \<le> 180 \<and> \<bar>lon2\<bar> \<le> 180"
  let ?c = "central_angle lat1 lon1 lat2 lon2"
  have c: "0 \<le> ?c" "?c < 4"
    using central_angle_ge_0 [of lat1 lon1 lat2 lon2] central_angle_le_pi [of lat1 lon1 lat2 lon2]
      pi_less_4 by simp_all
  from h have "d_nm = 3440.065 * ?c" "d = 6371 * ?c / 1.852"
    by (simp_all add: haversine_distance_eq horizontal_distance_nm_eq)
  then have "d_nm - d = (0.00038 / 1.852) * ?c"
    by (simp add: field_simps)
  then show "\<bar>d_nm - d\<bar> \<le> 2 / 1000"
    using c by (simp add: abs_mult field_simps)
qed

text \<open>The theorem at the waypoints \<open>(0, 0)\<close> and \<open>(0, 90)\<close>, a quarter of the equator.\<close>

theorem nm_km_distances_witness:
  "haversine_distance 0 0 0 90 = Inr (3440.065 * (pi / 2))
   \<and> horizontal_distance_nm (0, 0) (0, 90) = Inr (6371 * (pi / 2) / 1.852)
   \<and> \<bar>3440.065 * (pi / 2) - 6371 * (pi / 2) / 1.852\<bar> \<le> 2 / 1000"
proof -
  have c: "central_angle 0 0 0 90 = pi / 2"
    using central_angle_equator [where lon_a = 0 and lon_b = 90] by (simp add: radians_def)
  have nm: "haversine_distance 0 0 0 90 = Inr (3440.065 * (pi / 2))"
    by (simp add: haversine_distance_eq c)
  have km: "horizontal_distance_nm (0, 0) (0, 90) = Inr (6371 * (pi / 2) / 1.852)"
    by (simp add: horizontal_distance_nm_eq c)
  have "\<bar>3440.065 * (pi / 2) - 6371 * (pi / 2) / 1.852\<bar> \<le> 2 / 1000"
    using nm_km_distances_within_two_thousandths
      [of 0 0 0 90 "3440.065 * (pi / 2)" "6371 * (pi / 2) / 1.852"] nm km
    by simp
  with nm km show ?thesis
    by (intro conjI)
qed

text \<open>
  C6 as stated fails: between the antipodal points \<open>(0, 0)\<close> and \<open>(0, 180)\<close> the two
  nautical-mile distances differ by more than 0.0004 nm (about 0.7 m), some eight orders
  of magnitude above the rounding of a double near 10800.
\<close>

theorem nm_km_distances_counterexample:
  "haversine_distance 0 0 0 180 = Inr (3440.065 * pi)
   \<and> horizontal_distance_nm (0, 0) (0, 180) = Inr (6371 * pi / 1.852)
   \<and> 4 / 10000 < 3440.065 * pi - 6371 * pi / 1.852"
proof -
  have "central_angle 0 0 0 180 = pi"
    using central_angle_equator [where lon_a = 0 and lon_b = 180] by (simp add: radians_def)
  moreover have "4 / 10000 < 3440.065 * pi - 6371 * pi / 1.852"
    using pi_ge_two by (simp add: field_simps)
  ultimately show ?thesis
    by (simp add: haversine_distance_eq horizontal_distance_nm_eq)
qed

subsection \<open>Loops with exceptions\<close>

lemma fold_err_invariant:
  assumes "fold_err f xs st = Inr st'" and "I st"
    and "\<And>x s s'. x \<in> set xs \<Longrightarrow> I s \<Longrightarrow> f x s = Inr s' \<Longrightarrow> I s'"
  shows "I st'"
  using assms
proof (induction xs arbitrary: st)
  case Nil
  then show ?case by simp
next
  case (Cons x xs)
  from Cons.prems(1) obtain s1 where s1: "f x st = Inr s1" "fold_err f xs s1 = Inr st'"
    by (auto split: sum.splits)
  have "I s1"
    using Cons.prems(3) [of x st s1] Cons.prems(2) s1(1) by simp
  with s1(2) show ?case
  proof (rule Cons.IH)
    fix y s s'
    assume "y \<in> set xs" "I s" "f y s = Inr s'"
    then show "I s'" using Cons.prems(3) [of y s s'] by simp
  qed
qed

lemma fold_err_pure:
  assumes "\<And>x s. x \<in> set xs \<Longrightarrow> f x s = Inr (g x s)"
  shows "fold_err f xs st = Inr (fold g xs st)"
  using assms by (induction xs arbitrary: st) simp_all

lemma fold_err_append:
  "fold_err f (xs @ ys) st =
     (case fold_err f xs st of Inl e \<Rightarrow> Inl e | Inr st' \<Rightarrow> fold_err f ys st')"
  by (induction xs arbitrary: st) (simp_all split: sum.splits)

lemma fold_err_steps_succeed:
  assumes "fold_err f xs st = Inr st'" and "x \<in> set xs"
  shows "\<exists>s s'. f x s = Inr s'"
  using assms
proof (induction xs arbitrary: st)
  case Nil
  then show ?case by simp
next
  case (Cons y ys)
  from Cons.prems(1) obtain s1 where s1: "f y st = Inr s1" "fold_err f ys s1 = Inr st'"
    by (auto split: sum.splits)
  show ?case
  proof (cases "x = y")
    case True
    with s1(1) show ?thesis by blast
  next
    case False
    with Cons.prems(2) have "x \<in> set ys" by simp
    with Cons.IH [OF s1(2)] show ?thesis .
  qed
qed

subsection \<open>In exact arithmetic the 4D trajectory never raises; it has one position per minute\<close>

lemma horizontal_distance_nm_total:
  "\<exists>d. horizontal_distance_nm p1 p2 = Inr d \<and> 0 \<le> d"
proof -
  obtain lat1 lon1 lat2 lon2 where p: "p1 = (lat1, lon1)" "p2 = (lat2, lon2)"
    by (cases p1, cases p2) auto
  have "0 \<le> 6371 * central_angle lat1 lon1 lat2 lon2 / 1.852"
    using central_angle_ge_0 [of lat1 lon1 lat2 lon2] by simp
  then show ?thesis
    unfolding p horizontal_distance_nm_eq by blast
qed

lemma traj_sample_eq:
  assumes "duration_sec \<noteq> 0"
  shows "traj_sample p1 p2 current_time duration_sec s traj =
           Inr (AList.update ((py_int (current_time + of_int (s * 60)) div 60) * 60)
                  (interpolate_position p1 p2 (min 1 (of_int (s * 60) / duration_sec))) traj)"
  using assms by (simp add: traj_sample_def py_div_def Let_def min_def)

lemma traj_segment_eq:
  assumes "horizontal_distance_nm p1 p2 = Inr d" and "0 < v"
  shows "traj_segment v (p1, p2) (traj, ct) =
           (if d = 0 then Inr (traj, ct)
            else Inr (fold (\<lambda>s. AList.update ((py_int (ct + of_int (s * 60)) div 60) * 60)
                              (interpolate_position p1 p2 (min 1 (of_int (s * 60) / (d / v)))))
                        [0..py_int (d / v / 60)] traj,
                      ct + d / v))"
proof (cases "d = 0")
  case True
  then show ?thesis using assms by (simp add: traj_segment_def)
next
  case False
  with assms have nz: "d / v \<noteq> 0" by simp
  have "fold_err (traj_sample p1 p2 ct (d / v)) [0..py_int (d / v / 60)] traj =
          Inr (fold (\<lambda>s. AList.update ((py_int (ct + of_int (s * 60)) div 60) * 60)
                       (interpolate_position p1 p2 (min 1 (of_int (s * 60) / (d / v)))))
                 [0..py_int (d / v / 60)] traj)"
    by (rule fold_err_pure) (rule traj_sample_eq [OF nz])
  then show ?thesis
    using assms False by (simp add: traj_segment_def py_div_def Let_def)
qed

lemma distinct_fold_update:
  "distinct (map fst al) \<Longrightarrow> distinct (map fst (fold (\<lambda>x. AList.update (k x) (w x)) xs al))"
  by (induction xs arbitrary: al) (simp_all add: distinct_update)

lemma traj_segment_distinct:
  assumes "traj_segment v seg (traj, ct) = Inr (traj', ct')" and "0 < v"
    and "distinct (map fst traj)"
  shows "distinct (map fst traj')"
proof -
  obtain p1 p2 where seg: "seg = (p1, p2)" by (cases seg)
  obtain d where d: "horizontal_distance_nm p1 p2 = Inr d"
    using horizontal_distance_nm_total by blast
  show ?thesis
    using assms(1,3) unfolding seg traj_segment_eq [OF d assms(2)]
    by (auto simp: distinct_fold_update split: if_splits)
qed

lemma traj_segment_total:
  assumes "0 < v"
  shows "\<exists>st'. traj_segment v seg st = Inr st'"
proof -
  obtain p1 p2 where seg: "seg = (p1, p2)" by (cases seg)
  obtain traj ct where st: "st = (traj, ct)" by (cases st)
  obtain d where d: "horizontal_distance_nm p1 p2 = Inr d"
    using horizontal_distance_nm_total by blast
  show ?thesis
    unfolding seg st traj_segment_eq [OF d assms] by simp
qed

lemma fold_err_total:
  assumes "\<And>x s. \<exists>s'. f x s = Inr s'"
  shows "\<exists>st'. fold_err f xs st = Inr st'"
proof (induction xs arbitrary: st)
  case Nil
  then show ?case by simp
next
  case (Cons x xs)
  obtain s1 where "f x st = Inr s1" using assms by blast
  then show ?case using Cons.IH [of s1] by simp
qed

lemma generate_4d_trajectory_running:
  assumes "departure_time flight = Some dt" "dt \<noteq> 0"
    "aircraft_speed flight = Some speed" "0 < speed" "path \<noteq> []"
  shows "\<exists>traj ct. fold_err (traj_segment (speed / 3600)) (zip path (tl path))
                      ([], of_int dt) = Inr (traj, ct)
                  \<and> generate_4d_trajectory flight path = Inr traj
                  \<and> distinct (map fst traj)"
proof -
  have v: "0 < speed / 3600" using assms(4) by simp
  obtain st' where st': "fold_err (traj_segment (speed / 3600)) (zip path (tl path))
      ([], of_int dt) = Inr st'"
    using fold_err_total [of "traj_segment (speed / 3600)"] traj_segment_total [OF v] by blast
  have "distinct (map fst (fst st'))"
  proof (rule fold_err_invariant [OF st', where I = "\<lambda>s. distinct (map fst (fst s))"])
    show "distinct (map fst (fst (([] :: trajectory), real_of_int dt)))" by simp
  next
    fix x s s'
    assume "distinct (map fst (fst s))" "traj_segment (speed / 3600) x s = Inr s'"
    then show "distinct (map fst (fst s'))"
      using traj_segment_distinct [of "speed / 3600" x "fst s" "snd s" "fst s'" "snd s'"] v
      by simp
  qed
  moreover have "generate_4d_trajectory flight path = Inr (fst st')"
    using assms st' by (simp add: generate_4d_trajectory_def split: prod.splits)
  ultimately show ?thesis using st' by (cases st') auto
qed

lemma generate_4d_trajectory_total:
  "\<exists>traj. generate_4d_trajectory flight path = Inr traj \<and> distinct (map fst traj)"
proof (cases "departure_time flight")
  case None
  then show ?thesis by (simp add: generate_4d_trajectory_def)
next
  case dt: (Some dt)
  show ?thesis
  proof (cases "aircraft_speed flight")
    case None
    with dt show ?thesis by (simp add: generate_4d_trajectory_def)
  next
    case (Some speed)
    show ?thesis
    proof (cases "dt \<noteq> 0 \<and> 0 < speed \<and> path \<noteq> []")
      case True
      then show ?thesis
        using generate_4d_trajectory_running [OF dt _ Some] by blast
    next
      case False
      with dt Some have "generate_4d_trajectory flight path = Inr []"
        by (auto simp: generate_4d_trajectory_def)
      then show ?thesis by simp
    qed
  qed
qed

lemma py_split_short_leg: "py_split short_leg = [''0N/0E'', ''0N/0.1E'']"
  by (simp add: py_split_def short_leg_def is_space_def)

lemma float_dec_examples:
  "float_dec ''0'' = Some 0" "float_dec ''0.1'' = Some (1 / 10)"
  "float_dec ''0.001'' = Some (1 / 1000)" "float_dec ''10'' = Some 10" "float_dec ''20'' = Some 20"
  by (simp_all add: float_dec_def float_unsigned_def digit_val_def)

lemma parse_route_short_leg:
  "parse_route float_dec (Some short_leg) = [(0, 0), (0, 1 / 10)]"
  by (simp add: parse_route_def py_split_short_leg parse_waypoint_def parse_coord_def
      float_dec_examples py_upper_def)
    (simp add: short_leg_def)

lemma get_full_flight_path_demo:
  "get_full_flight_path float_dec (demo_flight a short_leg alt dep) = [(0, 0), (0, 1 / 10)]"
  by (simp add: get_full_flight_path_def demo_flight_def airport_point_def AIRPORT_LOCATIONS_def
      parse_route_short_leg)

lemma py_split_tiny_leg: "py_split tiny_leg = [''0N/0E'', ''0N/0.001E'']"
  by (simp add: py_split_def tiny_leg_def is_space_def)

lemma parse_route_congestion_tiny_leg:
  "parse_route_congestion float_dec (Some tiny_leg) = [(0, 0), (0, 1 / 1000)]"
  by (simp add: parse_route_congestion_def py_split_tiny_leg parse_waypoint_congestion_def
      split_once_def float_dec_examples py_upper_def)
    (simp add: tiny_leg_def)

lemma py_int_of_int [simp]: "py_int (of_int n) = n"
  by (simp add: py_int_def)

lemma py_int_small: "0 \<le> x \<Longrightarrow> x < 1 \<Longrightarrow> py_int x = 0"
  by (simp add: py_int_def floor_eq_iff)

lemma interpolate_position_0 [simp]: "interpolate_position p1 p2 0 = p1"
  by (cases p1, cases p2) (simp add: interpolate_position_def)

lemma interpolate_position_1 [simp]: "interpolate_position p1 p2 1 = p2"
  by (cases p1, cases p2) (simp add: interpolate_position_def)

text \<open>A segment flown in less than a minute leaves one sample: its start point.\<close>

lemma traj_segment_short:
  assumes "horizontal_distance_nm p1 p2 = Inr d" and "0 < v" and "0 < d" and "d / v < 60"
  shows "traj_segment v (p1, p2) (traj, ct)
           = Inr (AList.update ((py_int ct div 60) * 60) p1 traj, ct + d / v)"
proof -
  have "0 \<le> d / v / 60" "d / v / 60 < 1"
    using assms by (simp_all add: field_simps)
  then have "py_int (d / v / 60) = 0"
    by (rule py_int_small)
  then show ?thesis
    using assms by (simp add: traj_segment_eq [OF assms(1,2)])
qed

lemma short_leg_distance:
  "horizontal_distance_nm (0, 0) (0, 1 / 10) = Inr (6371 * (pi / 1800) / 1.852)"
  using central_angle_equator [where lon_a = 0 and lon_b = "1 / 10"]
  by (simp add: horizontal_distance_nm_eq radians_def)

lemma generate_4d_trajectory_demo:
  assumes "dep \<noteq> 0"
  shows "generate_4d_trajectory (demo_flight a r alt (Some dep)) [(0, 0), (0, 1 / 10)]
           = Inr [((dep div 60) * 60, (0, 0))]"
proof -
  let ?d = "6371 * (pi / 1800) / 1.852 :: real"
  have d: "0 < ?d" by simp
  have "?d / (480 / 3600) < 60"
    using pi_less_4 by (simp add: field_simps)
  then have "traj_segment (480 / 3600) ((0, 0), (0, 1 / 10)) ([], of_int dep)
               = Inr (AList.update ((py_int (of_int dep) div 60) * 60) (0, 0) [],
                      of_int dep + ?d / (480 / 3600))"
    by (intro traj_segment_short [OF short_leg_distance _ d]) simp_all
  then show ?thesis
    using assms by (simp add: generate_4d_trajectory_def demo_flight_def)
qed

lemma generate_4d_trajectory_cong:
  "departure_time f1 = departure_time f2 \<Longrightarrow> aircraft_speed f1 = aircraft_speed f2
     \<Longrightarrow> generate_4d_trajectory f1 path = generate_4d_trajectory f2 path"
  by (auto simp: generate_4d_trajectory_def split: option.splits)

lemma generate_4d_trajectory_no_path: "generate_4d_trajectory f [] = Inr []"
  by (simp add: generate_4d_trajectory_def split: option.splits)

subsection \<open>The first loop: flight objects and stored trajectories\<close>

lemma preprocess_flight_total:
  "\<exists>st'. preprocess_flight pyfloat f st = Inr st'"
proof -
  obtain fo fts where st: "st = (fo, fts)" by (cases st)
  obtain traj where "generate_4d_trajectory f (get_full_flight_path pyfloat f) = Inr traj"
    using generate_4d_trajectory_total by blast
  then show ?thesis
    by (simp add: st preprocess_flight_def Let_def)
qed

text \<open>What the first loop maintains, for the flights \<open>fs\<close> processed so far.\<close>

lemma preprocess_flight_invariant:
  assumes "preprocess_flight pyfloat f (fo, fts) = Inr (fo', fts')"
    and "fst ` set fo = acid ` F"
    and "\<forall>a g. map_of fo a = Some g \<longrightarrow> g \<in> F \<and> acid g = a"
    and "distinct (map fst fts)"
    and "\<forall>a traj. (a, traj) \<in> set fts \<longrightarrow>
           traj \<noteq> [] \<and> distinct (map fst traj)
           \<and> (\<exists>g \<in> F. acid g = a
                 \<and> generate_4d_trajectory g (get_full_flight_path pyfloat g) = Inr traj)"
    and "\<forall>g \<in> F. generate_4d_trajectory g (get_full_flight_path pyfloat g) \<noteq> Inr []
           \<longrightarrow> acid g \<in> fst ` set fts"
  shows "fst ` set fo' = acid ` insert f F"
    and "\<forall>a g. map_of fo' a = Some g \<longrightarrow> g \<in> insert f F \<and> acid g = a"
    and "distinct (map fst fts')"
    and "\<forall>a traj. (a, traj) \<in> set fts' \<longrightarrow>
           traj \<noteq> [] \<and> distinct (map fst traj)
           \<and> (\<exists>g \<in> insert f F. acid g = a
                 \<and> generate_4d_trajectory g (get_full_flight_path pyfloat g) = Inr traj)"
    and "\<forall>g \<in> insert f F. generate_4d_trajectory g (get_full_flight_path pyfloat g) \<noteq> Inr []
           \<longrightarrow> acid g \<in> fst ` set fts'"
proof -
  obtain traj where traj: "generate_4d_trajectory f (get_full_flight_path pyfloat f) = Inr traj"
    "distinct (map fst traj)"
    using generate_4d_trajectory_total by blast
  have fo': "fo' = AList.update (acid f) f fo"
    using assms(1) traj(1) by (auto simp: preprocess_flight_def Let_def split: if_splits)
  have fts': "fts' = fts \<or> (traj \<noteq> [] \<and> fts' = AList.update (acid f) traj fts)"
    using assms(1) traj(1) by (auto simp: preprocess_flight_def Let_def split: if_splits)
  have stored: "traj \<noteq> [] \<Longrightarrow> fts' = AList.update (acid f) traj fts"
    using assms(1) traj(1) generate_4d_trajectory_no_path [of f]
    by (auto simp: preprocess_flight_def Let_def split: if_splits)
  show "\<forall>g \<in> insert f F. generate_4d_trajectory g (get_full_flight_path pyfloat g) \<noteq> Inr []
           \<longrightarrow> acid g \<in> fst ` set fts'"
  proof (intro ballI impI)
    fix g
    assume g: "g \<in> insert f F"
      and ne: "generate_4d_trajectory g (get_full_flight_path pyfloat g) \<noteq> Inr []"
    show "acid g \<in> fst ` set fts'"
    proof (cases "g = f")
      case True
      with ne traj(1) have "traj \<noteq> []" by auto
      then show ?thesis using stored True by (simp add: dom_update)
    next
      case False
      with g ne assms(6) have "acid g \<in> fst ` set fts" by blast
      moreover have "fst ` set fts \<subseteq> fst ` set fts'"
        using fts' by (auto simp only: dom_update)
      ultimately show ?thesis by blast
    qed
  qed
  show "fst ` set fo' = acid ` insert f F"
    using assms(2) by (simp add: fo' dom_update)
  show "\<forall>a g. map_of fo' a = Some g \<longrightarrow> g \<in> insert f F \<and> acid g = a"
    using assms(3) by (auto simp: fo' update_conv')
  show "distinct (map fst fts')"
    using fts' assms(4) by (auto simp: distinct_update)
  show "\<forall>a traj. (a, traj) \<in> set fts' \<longrightarrow>
           traj \<noteq> [] \<and> distinct (map fst traj)
           \<and> (\<exists>g \<in> insert f F. acid g = a
                 \<and> generate_4d_trajectory g (get_full_flight_path pyfloat g) = Inr traj)"
  proof (intro allI impI)
    fix a tr
    assume mem: "(a, tr) \<in> set fts'"
    from fts' show "tr \<noteq> [] \<and> distinct (map fst tr)
           \<and> (\<exists>g \<in> insert f F. acid g = a
                 \<and> generate_4d_trajectory g (get_full_flight_path pyfloat g) = Inr tr)"
    proof
      assume "fts' = fts"
      with mem assms(5) show ?thesis by blast
    next
      assume upd: "traj \<noteq> [] \<and> fts' = AList.update (acid f) traj fts"
      have "set (AList.update (acid f) traj fts) \<subseteq> insert (acid f, traj) (set fts)"
        by (induction fts) auto
      with mem upd have "(a, tr) = (acid f, traj) \<or> (a, tr) \<in> set fts" by auto
      then show ?thesis
        using upd traj assms(5) by blast
    qed
  qed
qed

lemma preprocess_flight_preprocessed:
  assumes "preprocess_flight pyfloat f st = Inr st'" and "preprocessed pyfloat F st"
  shows "preprocessed pyfloat (insert f F) st'"
proof -
  obtain fo fts fo' fts' where st: "st = (fo, fts)" "st' = (fo', fts')"
    by (cases st, cases st') auto
  have pre: "preprocess_flight pyfloat f (fo, fts) = Inr (fo', fts')"
    using assms(1) by (simp add: st)
  have a: "fst ` set fo = acid ` F"
    and b: "\<forall>a g. map_of fo a = Some g \<longrightarrow> g \<in> F \<and> acid g = a"
    and c: "distinct (map fst fts)"
    and d: "\<forall>a traj. (a, traj) \<in> set fts \<longrightarrow>
           traj \<noteq> [] \<and> distinct (map fst traj)
           \<and> (\<exists>g \<in> F. acid g = a
                 \<and> generate_4d_trajectory g (get_full_flight_path pyfloat g) = Inr traj)"
    and e: "\<forall>g \<in> F. generate_4d_trajectory g (get_full_flight_path pyfloat g) \<noteq> Inr []
           \<longrightarrow> acid g \<in> fst ` set fts"
    using assms(2) unfolding st preprocessed_def by blast+
  show ?thesis
    unfolding st preprocessed_def prod.case
    by (intro conjI preprocess_flight_invariant [OF pre a b c d e])
qed

lemma preprocess_all:
  "\<exists>st. fold_err (preprocess_flight pyfloat) flights ([], []) = Inr st
        \<and> preprocessed pyfloat (set flights) st"
proof (induction flights rule: rev_induct)
  case Nil
  show ?case by (simp add: preprocessed_def)
next
  case (snoc f flights)
  then obtain st where st: "fold_err (preprocess_flight pyfloat) flights ([], []) = Inr st"
    "preprocessed pyfloat (set flights) st"
    by blast
  obtain st' where st': "preprocess_flight pyfloat f st = Inr st'"
    using preprocess_flight_total by blast
  have "preprocessed pyfloat (insert f (set flights)) st'"
    using st' st(2) by (rule preprocess_flight_preprocessed)
  then show ?case
    using st(1) st' by (simp add: fold_err_append)
qed

subsection \<open>The inverted index\<close>

lemma add_position_conv:
  "map_of (add_position a (t, pos) pbt)
     = (map_of pbt)(t \<mapsto> (case map_of pbt t of None \<Rightarrow> [] | Some l \<Rightarrow> l) @ [(a, pos)])"
  by (simp add: add_position_def update_conv' split: option.splits)

lemma add_position_keys:
  "fst ` set (add_position a (t, pos) pbt) = insert t (fst ` set pbt)"
  by (simp add: add_position_def dom_update split: option.splits)

lemma add_position_distinct:
  "distinct (map fst pbt) \<Longrightarrow> distinct (map fst (add_position a tp pbt))"
  by (cases tp) (simp add: add_position_def distinct_update split: option.splits)

lemma fold_add_position_distinct:
  "distinct (map fst pbt) \<Longrightarrow> distinct (map fst (fold (add_position a) traj pbt))"
  by (induction traj arbitrary: pbt) (simp_all add: add_position_distinct)

lemma fold_add_position_keys:
  "fst ` set (fold (add_position a) traj pbt) = fst ` set traj \<union> fst ` set pbt"
proof (induction traj arbitrary: pbt)
  case Nil
  show ?case by simp
next
  case (Cons tp traj)
  obtain t pos where tp: "tp = (t, pos)" by (cases tp)
  show ?case
    by (simp add: Cons.IH tp add_position_keys)
qed

lemma fold_add_position_conv:
  assumes "distinct (map fst traj)"
  shows "map_of (fold (add_position a) traj pbt) t
           = (case map_of traj t of
                None \<Rightarrow> map_of pbt t
              | Some pos \<Rightarrow> Some ((case map_of pbt t of None \<Rightarrow> [] | Some l \<Rightarrow> l) @ [(a, pos)]))"
  using assms
proof (induction traj arbitrary: pbt)
  case Nil
  show ?case by simp
next
  case (Cons tp traj)
  obtain t0 pos0 where tp: "tp = (t0, pos0)" by (cases tp)
  from Cons.prems have d: "distinct (map fst traj)" and notin: "t0 \<notin> fst ` set traj"
    by (simp_all add: tp)
  from notin have none: "map_of traj t0 = None"
    by (simp add: map_of_eq_None_iff)
  show ?case
    using Cons.IH [OF d, of "add_position a (t0, pos0) pbt"] none
    by (simp add: tp add_position_conv split: option.splits)
qed

lemma bucket_at_snoc:
  "bucket_at (fts @ [(a, traj)]) t
     = bucket_at fts t @ (case map_of traj t of None \<Rightarrow> [] | Some pos \<Rightarrow> [(a, pos)])"
  by (simp add: bucket_at_def)

text \<open>
  The index holds, at every time, exactly the occupants of that time bucket, in the order
  of the stored trajectories.
\<close>

lemma invert_trajectories_conv:
  assumes "\<forall>(a, traj) \<in> set fts. distinct (map fst traj)"
  shows "distinct (map fst (invert_trajectories fts))"
    and "map_of (invert_trajectories fts) t
           = (if bucket_at fts t = [] then None else Some (bucket_at fts t))"
    and "fst ` set (invert_trajectories fts) = (\<Union>(a, traj) \<in> set fts. fst ` set traj)"
  using assms
proof (induction fts rule: rev_induct)
  case Nil
  {
    case 1 show ?case by (simp add: invert_trajectories_def)
  next
    case 2 show ?case by (simp add: invert_trajectories_def bucket_at_def)
  next
    case 3 show ?case by (simp add: invert_trajectories_def)
  }
next
  case (snoc x fts)
  obtain a traj where x: "x = (a, traj)" by (cases x)
  have step: "invert_trajectories (fts @ [x]) = fold (add_position a) traj (invert_trajectories fts)"
    by (simp add: invert_trajectories_def x)
  {
    case 1
    then have "\<forall>(a, traj) \<in> set fts. distinct (map fst traj)" by simp
    then show ?case
      unfolding step using snoc.IH(1) by (simp add: fold_add_position_distinct)
  next
    case 2
    then have d: "distinct (map fst traj)" and rest: "\<forall>(a, traj) \<in> set fts. distinct (map fst traj)"
      by (simp_all add: x)
    have "map_of (invert_trajectories (fts @ [x])) t
            = (case map_of traj t of
                 None \<Rightarrow> map_of (invert_trajectories fts) t
               | Some pos \<Rightarrow>
                   Some ((case map_of (invert_trajectories fts) t of None \<Rightarrow> [] | Some l \<Rightarrow> l)
                           @ [(a, pos)]))"
      by (simp only: step fold_add_position_conv [OF d])
    then show ?case
      by (simp add: snoc.IH(2) [OF rest] x bucket_at_snoc split: option.splits)
  next
    case 3
    then have rest: "\<forall>(a, traj) \<in> set fts. distinct (map fst traj)" by simp
    show ?case
      unfolding step fold_add_position_keys snoc.IH(3) [OF rest] by (auto simp: x)
  }
qed

lemma bucket_at_acids:
  "map fst (bucket_at fts t) = filter (\<lambda>a. \<exists>traj. (a, traj) \<in> set fts \<and> map_of traj t \<noteq> None) (map fst fts)"
  if "distinct (map fst fts)"
  using that
proof (induction fts)
  case Nil
  show ?case by (simp add: bucket_at_def)
next
  case (Cons x fts)
  obtain a traj where x: "x = (a, traj)" by (cases x)
  from Cons.prems have d: "distinct (map fst fts)" and notin: "a \<notin> fst ` set fts"
    by (simp_all add: x)
  have tl: "filter (\<lambda>b. \<exists>tr. (b, tr) \<in> set (x # fts) \<and> map_of tr t \<noteq> None) (map fst fts)
          = filter (\<lambda>b. \<exists>tr. (b, tr) \<in> set fts \<and> map_of tr t \<noteq> None) (map fst fts)"
    using notin by (intro filter_cong) (auto simp: x image_iff)
  have hd: "(\<exists>tr. (a, tr) \<in> set (x # fts) \<and> map_of tr t \<noteq> None) \<longleftrightarrow> map_of traj t \<noteq> None"
    using notin by (auto simp: x image_iff)
  have "bucket_at (x # fts) t
          = (case map_of traj t of None \<Rightarrow> [] | Some pos \<Rightarrow> [(a, pos)]) @ bucket_at fts t"
    by (simp add: bucket_at_def x)
  then show ?case
    using Cons.IH [OF d] tl hd by (simp add: x split: option.splits)
qed

lemma bucket_at_distinct:
  "distinct (map fst fts) \<Longrightarrow> distinct (map fst (bucket_at fts t))"
  by (simp add: bucket_at_acids)

lemma bucket_at_subset:
  "fst ` set (bucket_at fts t) \<subseteq> fst ` set fts"
  by (force simp: bucket_at_def split: option.splits)

subsection \<open>The pair loop\<close>

lemma pair_key_eq_iff: "pair_key a b = pair_key c d \<longleftrightarrow> {a, b} = {c, d}"
  by (auto simp: pair_key_def doubleton_eq_iff)

lemma fromtimestamp_utc_Inr: "fromtimestamp_utc t = Inr s \<Longrightarrow> s = t"
  by (simp add: fromtimestamp_utc_def split: if_splits)

text \<open>One iteration either leaves the state alone or appends the record of a new pair.\<close>

lemma check_pair_cases:
  assumes "check_pair fo t acid1 pos1 fl1 (acid2, pos2) (cs, act) = Inr (cs', act')"
  shows "(cs' = cs \<and> act' = act)
       \<or> (\<exists>fl2 h1 h2 d.
             map_of fo acid2 = Some fl2 \<and> altitude fl1 = Some h1 \<and> altitude fl2 = Some h2
             \<and> \<bar>h1 - h2\<bar> < 2000 \<and> horizontal_distance_nm pos1 pos2 = Inr d \<and> d < 5
             \<and> pair_key acid1 acid2 \<notin> act
             \<and> cs' = cs @ [\<lparr>flight1 = acid1, flight2 = acid2, horizontal_nm = py_round2 d,
                             vertical_ft = \<bar>h1 - h2\<bar>,
                             reason = ''Loss-of-separation detected'',
                             start_time_overlap = t\<rparr>]
             \<and> act' = insert (pair_key acid1 acid2) act)"
  using assms unfolding check_pair_def
  by (auto split: option.splits if_splits sum.splits dest: fromtimestamp_utc_Inr)

lemma check_pair_once_per_pair:
  assumes "check_pair fo t acid1 pos1 fl1 ap2 st = Inr st'" and "once_per_pair st"
  shows "once_per_pair st'"
proof -
  obtain acid2 pos2 cs act cs' act' where
    eq: "ap2 = (acid2, pos2)" "st = (cs, act)" "st' = (cs', act')"
    by (cases ap2, cases st, cases st') auto
  from check_pair_cases [OF assms(1) [unfolded eq]] show ?thesis
  proof
    assume "cs' = cs \<and> act' = act"
    then show ?thesis using assms(2) by (simp add: eq)
  next
    assume "\<exists>fl2 h1 h2 d.
             map_of fo acid2 = Some fl2 \<and> altitude fl1 = Some h1 \<and> altitude fl2 = Some h2
             \<and> \<bar>h1 - h2\<bar> < 2000 \<and> horizontal_distance_nm pos1 pos2 = Inr d \<and> d < 5
             \<and> pair_key acid1 acid2 \<notin> act
             \<and> cs' = cs @ [\<lparr>flight1 = acid1, flight2 = acid2, horizontal_nm = py_round2 d,
                             vertical_ft = \<bar>h1 - h2\<bar>,
                             reason = ''Loss-of-separation detected'',
                             start_time_overlap = t\<rparr>]
             \<and> act' = insert (pair_key acid1 acid2) act"
    then obtain r where new: "pair_key acid1 acid2 \<notin> act" "cs' = cs @ [r]"
      "flight1 r = acid1" "flight2 r = acid2" "act' = insert (pair_key acid1 acid2) act"
      by auto
    have old: "distinct (map conflict_pair cs)"
      "(\<lambda>c. pair_key (flight1 c) (flight2 c)) ` set cs = act"
      using assms(2) by (simp_all add: eq once_per_pair_def)
    have "conflict_pair r \<notin> conflict_pair ` set cs"
    proof
      assume "conflict_pair r \<in> conflict_pair ` set cs"
      then obtain c where c: "c \<in> set cs" "conflict_pair c = conflict_pair r" by auto
      then have "pair_key (flight1 c) (flight2 c) = pair_key acid1 acid2"
        by (simp add: pair_key_eq_iff conflict_pair_def new)
      with old(2) c(1) new(1) show False by (metis image_eqI)
    qed
    then show ?thesis
      using old new by (auto simp: eq once_per_pair_def)
  qed
qed

lemma check_pair_genuine:
  assumes "check_pair fo t acid1 pos1 fl1 ap2 st = Inr st'"
    and "\<forall>c \<in> set (fst st). genuine_conflict fo pbt c"
    and "map_of pbt t = Some l" and "(acid1, pos1) \<in> set l" and "ap2 \<in> set l"
    and "acid1 \<noteq> fst ap2" and "map_of fo acid1 = Some fl1"
  shows "\<forall>c \<in> set (fst st'). genuine_conflict fo pbt c"
proof -
  obtain acid2 pos2 cs act cs' act' where
    eq: "ap2 = (acid2, pos2)" "st = (cs, act)" "st' = (cs', act')"
    by (cases ap2, cases st, cases st') auto
  from check_pair_cases [OF assms(1) [unfolded eq]] show ?thesis
  proof
    assume "cs' = cs \<and> act' = act"
    then show ?thesis using assms(2) by (simp add: eq)
  next
    assume "\<exists>fl2 h1 h2 d.
             map_of fo acid2 = Some fl2 \<and> altitude fl1 = Some h1 \<and> altitude fl2 = Some h2
             \<and> \<bar>h1 - h2\<bar> < 2000 \<and> horizontal_distance_nm pos1 pos2 = Inr d \<and> d < 5
             \<and> pair_key acid1 acid2 \<notin> act
             \<and> cs' = cs @ [\<lparr>flight1 = acid1, flight2 = acid2, horizontal_nm = py_round2 d,
                             vertical_ft = \<bar>h1 - h2\<bar>,
                             reason = ''Loss-of-separation detected'',
                             start_time_overlap = t\<rparr>]
             \<and> act' = insert (pair_key acid1 acid2) act"
    then obtain fl2 h1 h2 d where new:
      "map_of fo acid2 = Some fl2" "altitude fl1 = Some h1" "altitude fl2 = Some h2"
      "\<bar>h1 - h2\<bar> < 2000" "horizontal_distance_nm pos1 pos2 = Inr d" "d < 5"
      "cs' = cs @ [\<lparr>flight1 = acid1, flight2 = acid2, horizontal_nm = py_round2 d,
                             vertical_ft = \<bar>h1 - h2\<bar>,
                             reason = ''Loss-of-separation detected'',
                             start_time_overlap = t\<rparr>]"
      by auto
    have "genuine_conflict fo pbt \<lparr>flight1 = acid1, flight2 = acid2, horizontal_nm = py_round2 d,
                             vertical_ft = \<bar>h1 - h2\<bar>,
                             reason = ''Loss-of-separation detected'',
                             start_time_overlap = t\<rparr>"
      unfolding genuine_conflict_def
      using new(1-6) assms(3-7) unfolding eq
      by (intro exI [of _ l] exI [of _ pos1] exI [of _ pos2] exI [of _ fl1] exI [of _ fl2]
          exI [of _ h1] exI [of _ h2] exI [of _ d]) simp
    then show ?thesis
      using assms(2) new(7) by (auto simp: eq)
  qed
qed

lemma check_bucket_once_per_pair:
  assumes "check_bucket fo t l st = Inr st'" and "once_per_pair st"
  shows "once_per_pair st'"
  using assms
proof (induction l arbitrary: st)
  case Nil
  then show ?case by simp
next
  case (Cons ap1 rest)
  from Cons.prems(1) obtain fl1 s1 where
    s1: "map_of fo (fst ap1) = Some fl1"
      "fold_err (check_pair fo t (fst ap1) (snd ap1) fl1) rest st = Inr s1"
      "check_bucket fo t rest s1 = Inr st'"
    by (auto split: option.splits sum.splits)
  have "once_per_pair s1"
    using s1(2) Cons.prems(2)
    by (rule fold_err_invariant) (rule check_pair_once_per_pair)
  with s1(3) show ?case by (rule Cons.IH)
qed

lemma check_bucket_genuine:
  assumes "check_bucket fo t l st = Inr st'"
    and "\<forall>c \<in> set (fst st). genuine_conflict fo pbt c"
    and "map_of pbt t = Some l0" and "set l \<subseteq> set l0" and "distinct (map fst l)"
  shows "\<forall>c \<in> set (fst st'). genuine_conflict fo pbt c"
  using assms(1,2,4,5)
proof (induction l arbitrary: st)
  case Nil
  then show ?case by simp
next
  case (Cons ap1 rest)
  from Cons.prems(1) obtain fl1 s1 where
    s1: "map_of fo (fst ap1) = Some fl1"
      "fold_err (check_pair fo t (fst ap1) (snd ap1) fl1) rest st = Inr s1"
      "check_bucket fo t rest s1 = Inr st'"
    by (auto split: option.splits sum.splits)
  have "\<forall>c \<in> set (fst s1). genuine_conflict fo pbt c"
    using s1(2) Cons.prems(2)
  proof (rule fold_err_invariant)
    fix ap2 s s'
    assume ap2: "ap2 \<in> set rest" and s: "\<forall>c \<in> set (fst s). genuine_conflict fo pbt c"
      and step: "check_pair fo t (fst ap1) (snd ap1) fl1 ap2 s = Inr s'"
    have "fst ap1 \<noteq> fst ap2"
      using Cons.prems(4) ap2 by auto
    moreover have "(fst ap1, snd ap1) \<in> set l0" "ap2 \<in> set l0"
      using Cons.prems(3) ap2 by auto
    ultimately show "\<forall>c \<in> set (fst s'). genuine_conflict fo pbt c"
      using check_pair_genuine [OF step s assms(3) _ _ _ s1(1)] by blast
  qed
  moreover have "set rest \<subseteq> set l0" "distinct (map fst rest)"
    using Cons.prems(3,4) by simp_all
  ultimately show ?case
    using Cons.IH [OF s1(3)] by blast
qed

subsection \<open>The detector as a whole\<close>

lemma check_time_once_per_pair:
  assumes "check_time fo pbt t st = Inr st'" and "once_per_pair st"
  shows "once_per_pair st'"
  using assms unfolding check_time_def
  by (auto split: option.splits intro: check_bucket_once_per_pair)

lemma check_time_genuine:
  assumes "check_time fo (invert_trajectories fts) t st = Inr st'"
    and "\<forall>c \<in> set (fst st). genuine_conflict fo (invert_trajectories fts) c"
    and "distinct (map fst fts)" and "\<forall>(a, traj) \<in> set fts. distinct (map fst traj)"
  shows "\<forall>c \<in> set (fst st'). genuine_conflict fo (invert_trajectories fts) c"
proof -
  from assms(1) obtain l where l: "map_of (invert_trajectories fts) t = Some l"
    "check_bucket fo t l st = Inr st'"
    by (auto simp: check_time_def split: option.splits)
  have "l = bucket_at fts t"
    using l(1) invert_trajectories_conv(2) [OF assms(4), of t] by (simp split: if_splits)
  then have "distinct (map fst l)"
    using assms(3) by (simp add: bucket_at_distinct)
  then show ?thesis
    using check_bucket_genuine [OF l(2) assms(2) l(1)] by simp
qed

lemma preprocessed_trajectories_distinct:
  "preprocessed pyfloat F (fo, fts) \<Longrightarrow> \<forall>(a, traj) \<in> set fts. distinct (map fst traj)"
  unfolding preprocessed_def by auto

text \<open>
  Every run that returns has built its two dictionaries as \<open>preprocessed\<close> says, reports
  no unordered pair twice, and reports genuine pairs only.
\<close>

lemma detect_loss_of_separation_sound:
  assumes "detect_loss_of_separation pyfloat flights = Inr cs"
  shows "\<exists>fo fts.
           fold_err (preprocess_flight pyfloat) flights ([], []) = Inr (fo, fts)
           \<and> preprocessed pyfloat (set flights) (fo, fts)
           \<and> distinct (map conflict_pair cs)
           \<and> (\<forall>c \<in> set cs. genuine_conflict fo (invert_trajectories fts) c)"
proof -
  obtain fo fts where pre: "fold_err (preprocess_flight pyfloat) flights ([], []) = Inr (fo, fts)"
    "preprocessed pyfloat (set flights) (fo, fts)"
    using preprocess_all [of pyfloat flights] by auto
  let ?pbt = "invert_trajectories fts"
  from assms pre(1) obtain act where
    run: "fold_err (check_time fo ?pbt) (sort (map fst ?pbt)) ([], {}) = Inr (cs, act)"
    by (auto simp: detect_loss_of_separation_def check_conflicts_def Let_def split: sum.splits)
  have d: "distinct (map fst fts)" "\<forall>(a, traj) \<in> set fts. distinct (map fst traj)"
    using pre(2) preprocessed_trajectories_distinct [OF pre(2)]
    by (simp_all add: preprocessed_def)
  have "once_per_pair (cs, act)"
    using run
  proof (rule fold_err_invariant)
    show "once_per_pair ([], {})" by (simp add: once_per_pair_def)
  qed (rule check_time_once_per_pair)
  then have "distinct (map conflict_pair cs)"
    by (simp add: once_per_pair_def)
  moreover have "\<forall>c \<in> set (fst (cs, act)). genuine_conflict fo ?pbt c"
    using run
  proof (rule fold_err_invariant)
    show "\<forall>c \<in> set (fst (([] :: ConflictRecord list), ({} :: (string \<times> string) set))).
            genuine_conflict fo ?pbt c"
      by simp
  next
    fix t s s'
    assume "\<forall>c \<in> set (fst s). genuine_conflict fo ?pbt c" "check_time fo ?pbt t s = Inr s'"
    then show "\<forall>c \<in> set (fst s'). genuine_conflict fo ?pbt c"
      using check_time_genuine [OF _ _ d] by blast
  qed
  ultimately show ?thesis
    using pre by auto
qed

text \<open>A reported flight has a stored, hence non-empty, trajectory.\<close>

lemma reported_flight_simulated:
  assumes "detect_loss_of_separation pyfloat flights = Inr cs" and "c \<in> set cs"
    and "a \<in> conflict_pair c"
  shows "\<exists>g \<in> set flights. \<exists>traj. acid g = a \<and> traj \<noteq> []
           \<and> generate_4d_trajectory g (get_full_flight_path pyfloat g) = Inr traj"
proof -
  obtain fo fts where pre: "preprocessed pyfloat (set flights) (fo, fts)"
    and gen: "genuine_conflict fo (invert_trajectories fts) c"
    using detect_loss_of_separation_sound [OF assms(1)] assms(2) by blast
  have d: "\<forall>(a, traj) \<in> set fts. distinct (map fst traj)"
    using preprocessed_trajectories_distinct [OF pre] .
  from gen obtain l pos1 pos2 where
    l: "map_of (invert_trajectories fts) (start_time_overlap c) = Some l"
      "(flight1 c, pos1) \<in> set l" "(flight2 c, pos2) \<in> set l"
    unfolding genuine_conflict_def by blast
  have "l = bucket_at fts (start_time_overlap c)"
    using l(1) invert_trajectories_conv(2) [OF d, of "start_time_overlap c"]
    by (simp split: if_splits)
  then have "fst ` set l \<subseteq> fst ` set fts"
    using bucket_at_subset by simp
  moreover have "a \<in> fst ` set l"
    using assms(3) l(2,3) by (force simp: conflict_pair_def)
  ultimately obtain traj where "(a, traj) \<in> set fts"
    by auto
  then show ?thesis
    using pre unfolding preprocessed_def by blast
qed

subsection \<open>Two example flights on the same leg\<close>

lemma py_round2_0 [simp]: "py_round2 0 = 0"
  by (simp add: py_round2_def)

lemma horizontal_distance_nm_same: "horizontal_distance_nm p p = Inr 0"
  by (cases p) (simp add: horizontal_distance_nm_eq central_angle_same)

lemma preprocess_demo_pair:
  assumes "a1 \<noteq> a2" and "dep \<noteq> 0"
  shows "fold_err (preprocess_flight float_dec)
           [demo_flight a1 short_leg alt1 (Some dep), demo_flight a2 short_leg alt2 (Some dep)]
           ([], [])
         = Inr ([(a1, demo_flight a1 short_leg alt1 (Some dep)),
                 (a2, demo_flight a2 short_leg alt2 (Some dep))],
                [(a1, [((dep div 60) * 60, (0, 0))]), (a2, [((dep div 60) * 60, (0, 0))])])"
proof -
  have acid: "acid (demo_flight a r alt d) = a" for a r alt d
    by (simp add: demo_flight_def)
  show ?thesis
    using assms
    by (simp add: preprocess_flight_def get_full_flight_path_demo generate_4d_trajectory_demo acid)
qed

lemma detect_demo_pair:
  assumes "a1 \<noteq> a2" and "dep \<noteq> 0"
  shows "detect_loss_of_separation float_dec
           [demo_flight a1 short_leg alt1 (Some dep), demo_flight a2 short_leg alt2 (Some dep)]
         = (case alt1 of
              None \<Rightarrow> Inl TypeError
            | Some h1 \<Rightarrow>
                (case alt2 of
                   None \<Rightarrow> Inl TypeError
                 | Some h2 \<Rightarrow>
                     if 2000 \<le> \<bar>h1 - h2\<bar> then Inr []
                     else
                       (case fromtimestamp_utc ((dep div 60) * 60) of
                          Inl e \<Rightarrow> Inl e
                        | Inr start \<Rightarrow>
                            Inr [\<lparr>flight1 = a1, flight2 = a2, horizontal_nm = 0,
                                  vertical_ft = \<bar>h1 - h2\<bar>,
                                  reason = ''Loss-of-separation detected'',
                                  start_time_overlap = start\<rparr>])))"
proof -
  have alt: "altitude (demo_flight a r alt d) = alt" for a r alt d
    by (simp add: demo_flight_def)
  show ?thesis
    unfolding detect_loss_of_separation_def check_conflicts_def preprocess_demo_pair [OF assms]
    using assms(1)
    by (simp add: invert_trajectories_def add_position_def check_time_def check_pair_def alt
        horizontal_distance_nm_same split: option.splits sum.splits)
qed

subsection \<open>Two flights on one trajectory\<close>

lemma preprocess_same_pair:
  assumes "acid f1 \<noteq> acid f2"
    and "get_full_flight_path pyfloat f1 = path" and "get_full_flight_path pyfloat f2 = path"
    and "generate_4d_trajectory f1 path = Inr traj" and "generate_4d_trajectory f2 path = Inr traj"
    and "traj \<noteq> []"
  shows "fold_err (preprocess_flight pyfloat) [f1, f2] ([], [])
           = Inr ([(acid f1, f1), (acid f2, f2)], [(acid f1, traj), (acid f2, traj)])"
proof -
  have "path \<noteq> []"
    using assms(4,6) generate_4d_trajectory_no_path [of f1] by auto
  then show ?thesis
    using assms by (simp add: preprocess_flight_def)
qed

text \<open>The bucket of a shared time holds the two flights at one position.\<close>

lemma check_bucket_same_pair:
  assumes "map_of fo a1 = Some g1" and "map_of fo a2 = Some g2"
    and "altitude g1 = Some h1" and "altitude g2 = Some h2" and "h1 - h2 = 0"
  shows "check_bucket fo t [(a1, pos), (a2, pos)] (cs, act)
           = (if pair_key a1 a2 \<in> act then Inr (cs, act)
              else (case fromtimestamp_utc t of
                      Inl e \<Rightarrow> Inl e
                    | Inr start \<Rightarrow>
                        Inr (cs @ [\<lparr>flight1 = a1, flight2 = a2, horizontal_nm = 0,
                                    vertical_ft = 0, reason = ''Loss-of-separation detected'',
                                    start_time_overlap = start\<rparr>],
                             insert (pair_key a1 a2) act)))"
  using assms by (simp add: check_pair_def horizontal_distance_nm_same split: sum.splits)

lemma fold_err_same_pair_active:
  assumes "\<And>t cs act. t \<in> set ts \<Longrightarrow> k \<in> act \<Longrightarrow> f t (cs, act) = Inr (cs, act)"
    and "k \<in> act"
  shows "fold_err f ts (cs, act) = Inr (cs, act)"
  using assms by (induction ts) simp_all

text \<open>
  The second part on two identifiers with one and the same trajectory, whose flights have
  known equal altitudes: when the time buckets of the trajectory can be rendered it
  returns one record, of the earliest bucket.
\<close>

lemma check_conflicts_same_trajectory:
  assumes fo: "map_of fo a1 = Some g1" "map_of fo a2 = Some g2"
    and ne: "a1 \<noteq> a2"
    and alt: "altitude g1 = Some h1" "altitude g2 = Some h2" "h1 - h2 = 0"
    and ne_traj: "traj \<noteq> []" and dtraj: "distinct (map fst traj)"
    and render: "\<forall>t \<in> fst ` set traj. fromtimestamp_utc t = Inr t"
  shows "\<exists>t. check_conflicts fo [(a1, traj), (a2, traj)]
               = Inr [\<lparr>flight1 = a1, flight2 = a2, horizontal_nm = 0, vertical_ft = 0,
                       reason = ''Loss-of-separation detected'', start_time_overlap = t\<rparr>]
             \<and> t \<in> fst ` set traj \<and> (\<forall>t' \<in> fst ` set traj. t \<le> t')"
proof -
  let ?fts = "[(a1, traj), (a2, traj)]"
  let ?pbt = "invert_trajectories ?fts"
  let ?ts = "sort (map fst ?pbt)"
  let ?k = "pair_key a1 a2"
  let ?rec = "\<lambda>t. \<lparr>flight1 = a1, flight2 = a2, horizontal_nm = 0, vertical_ft = 0,
                  reason = ''Loss-of-separation detected'', start_time_overlap = t\<rparr>"
  from dtraj have d: "\<forall>(a, tr) \<in> set ?fts. distinct (map fst tr)"
    by simp
  have keys: "set ?ts = fst ` set traj"
    using invert_trajectories_conv(3) [OF d] by simp
  have bucket: "map_of ?pbt t = Some [(a1, pos), (a2, pos)]"
    if "map_of traj t = Some pos" for t pos
    using invert_trajectories_conv(2) [OF d, of t] that by (simp add: bucket_at_def)
  have step: "check_time fo ?pbt t (cs, act)
                = (if ?k \<in> act then Inr (cs, act) else Inr (cs @ [?rec t], insert ?k act))"
    if "t \<in> set ?ts" for t cs act
  proof -
    from that keys have t: "t \<in> fst ` set traj"
      by simp
    then have "map_of traj t \<noteq> None"
      by (simp add: map_of_eq_None_iff)
    then obtain pos where "map_of traj t = Some pos"
      by blast
    moreover have "fromtimestamp_utc t = Inr t"
      using render t by blast
    ultimately show ?thesis
      using check_bucket_same_pair [OF fo alt, of t pos cs act] bucket
      by (simp add: check_time_def)
  qed
  from ne_traj keys obtain t ts' where ts: "?ts = t # ts'"
    by (cases ?ts) auto
  have t_min: "t \<in> fst ` set traj" "\<forall>t' \<in> fst ` set traj. t \<le> t'"
  proof -
    have mem: "fst ` set traj = insert t (set ts')"
      using keys ts by simp
    then show "t \<in> fst ` set traj"
      by simp
    have "sorted (t # ts')"
      using sorted_sort [of "map fst ?pbt"] ts by simp
    then show "\<forall>t' \<in> fst ` set traj. t \<le> t'"
      unfolding mem by auto
  qed
  have "fold_err (check_time fo ?pbt) ts' ([?rec t], {?k}) = Inr ([?rec t], {?k})"
  proof (rule fold_err_same_pair_active [where k = ?k])
    fix u cs act
    assume "u \<in> set ts'" "?k \<in> act"
    then show "check_time fo ?pbt u (cs, act) = Inr (cs, act)"
      using step [of u cs act] ts by simp
  qed simp
  moreover have "check_time fo ?pbt t ([], {}) = Inr ([?rec t], {?k})"
    using step [of t "[]" "{}"] ts by simp
  ultimately have "fold_err (check_time fo ?pbt) ?ts ([], {}) = Inr ([?rec t], {?k})"
    unfolding ts by simp
  then have "check_conflicts fo ?fts = Inr [?rec t]"
    unfolding check_conflicts_def by (simp add: Let_def)
  with t_min show ?thesis by blast
qed

lemma parse_route_two_legs:
  "parse_route float_dec (Some two_legs) = [(0, 0), (0, 1 / 10), (0, 1 / 5)]"
proof -
  have "py_split two_legs = [''0N/0E'', ''0N/0.1E'', ''0N/0.2E'']"
    by (simp add: py_split_def two_legs_def is_space_def)
  moreover have "float_dec ''0.2'' = Some (1 / 5)"
    by (simp add: float_dec_def float_unsigned_def digit_val_def)
  ultimately show ?thesis
    by (simp add: parse_route_def parse_waypoint_def parse_coord_def float_dec_examples
        py_upper_def)
      (simp add: two_legs_def)
qed

lemma get_full_flight_path_two_legs:
  "get_full_flight_path float_dec (demo_flight a two_legs alt dep)
     = [(0, 0), (0, 1 / 10), (0, 1 / 5)]"
  by (simp add: get_full_flight_path_def demo_flight_def airport_point_def AIRPORT_LOCATIONS_def
      parse_route_two_legs)

lemma second_leg_distance:
  "horizontal_distance_nm (0, 1 / 10) (0, 1 / 5) = Inr (6371 * (pi / 1800) / 1.852)"
  using central_angle_equator [where lon_a = "1 / 10" and lon_b = "1 / 5"]
  by (simp add: horizontal_distance_nm_eq radians_def)

text \<open>
  Departing 35 s into a minute, the second leg starts in the next minute: the trajectory
  has two time buckets.
\<close>

lemma generate_4d_trajectory_two_legs:
  "generate_4d_trajectory (demo_flight a r alt (Some 1700000015)) [(0, 0), (0, 1 / 10), (0, 1 / 5)]
     = Inr [(1699999980, (0, 0)), (1700000040, (0, 1 / 10))]"
proof -
  let ?d = "6371 * (pi / 1800) / 1.852 :: real"
  let ?D = "?d / (480 / 3600)"
  have d: "0 < ?d" by simp
  have short: "?D < 60"
    using pi_less_4 by (simp add: field_simps)
  have lo: "25 \<le> ?D"
    using pi_ge_two by (simp add: field_simps)
  have seg1: "traj_segment (480 / 3600) ((0, 0), (0, 1 / 10)) ([], 1700000015)
               = Inr ([(1699999980, (0, 0))], 1700000015 + ?D)"
    using traj_segment_short [OF short_leg_distance _ d short, of "[]" "of_int 1700000015"]
    by (simp add: py_int_def)
  have "1700000040 \<le> \<lfloor>1700000015 + ?D\<rfloor>" "\<lfloor>1700000015 + ?D\<rfloor> < 1700000100"
    using lo short by (simp_all add: le_floor_iff floor_less_iff)
  then have "\<lfloor>1700000015 + ?D\<rfloor> div 60 = 28333334"
    by presburger
  moreover have "py_int (1700000015 + ?D) = \<lfloor>1700000015 + ?D\<rfloor>"
    using lo by (simp add: py_int_def)
  ultimately have "py_int (1700000015 + ?D) div 60 = 28333334"
    by simp
  then have minute: "py_int (1700000015 + 159275 * pi / 11112) div 60 = 28333334"
    by simp
  have seg2: "traj_segment (480 / 3600) ((0, 1 / 10), (0, 1 / 5))
                ([(1699999980, (0, 0))], 1700000015 + ?D)
               = Inr ([(1699999980, (0, 0)), (1700000040, (0, 1 / 10))], 1700000015 + ?D + ?D)"
    using traj_segment_short [OF second_leg_distance _ d short,
        of "[(1699999980, (0, 0))]" "1700000015 + ?D"]
    by (simp add: minute)
  show ?thesis
    using seg1 seg2 by (simp add: generate_4d_trajectory_def demo_flight_def)
qed

subsection \<open>Claims on the loss-of-separation detector\<close>

text \<open>
  C2 (fails on the code). Two flights on the same 6 nm leg at the same time, the first with
  no altitude: the vertical test is skipped, the horizontal distance 0 is below 5 nm, and
  building the record evaluates \<^verbatim>\<open>abs(flight1.altitude - flight2.altitude)\<close> on
  \<^verbatim>\<open>None\<close>: the run ends in \<^verbatim>\<open>TypeError\<close> and returns no result.
\<close>

theorem missing_altitude_raises_type_error:
  "detect_loss_of_separation float_dec
     [demo_flight ''AC101'' short_leg None (Some 1700000000),
      demo_flight ''AC202'' short_leg (Some 35000) (Some 1700000000)]
   = Inl TypeError"
  by (simp add: detect_demo_pair)

text \<open>
  C10. A flight whose departure time is 0 or missing has the empty trajectory, whatever
  its path and speed; and when every flight of an identifier is such a flight, no record
  of a run that returns mentions the identifier.
\<close>

theorem no_departure_time_no_trajectory:
  "(departure_time flight = None \<or> departure_time flight = Some 0
      \<longrightarrow> generate_4d_trajectory flight path = Inr [])
   \<and> ((\<forall>g \<in> set flights. acid g = a \<longrightarrow> departure_time g = None \<or> departure_time g = Some 0)
        \<and> detect_loss_of_separation pyfloat flights = Inr cs
      \<longrightarrow> (\<forall>c \<in> set cs. a \<notin> conflict_pair c))"
proof (intro conjI impI ballI)
  assume "departure_time flight = None \<or> departure_time flight = Some 0"
  then show "generate_4d_trajectory flight path = Inr []"
    by (auto simp: generate_4d_trajectory_def)
next
  fix c
  assume h: "(\<forall>g \<in> set flights. acid g = a \<longrightarrow> departure_time g = None \<or> departure_time g = Some 0)
        \<and> detect_loss_of_separation pyfloat flights = Inr cs"
    and c: "c \<in> set cs"
  show "a \<notin> conflict_pair c"
  proof
    assume "a \<in> conflict_pair c"
    then obtain g traj where g: "g \<in> set flights" "acid g = a" "traj \<noteq> []"
      "generate_4d_trajectory g (get_full_flight_path pyfloat g) = Inr traj"
      using reported_flight_simulated [of pyfloat flights cs c a] h c by blast
    from h g(1,2) have "departure_time g = None \<or> departure_time g = Some 0"
      by blast
    then have "generate_4d_trajectory g (get_full_flight_path pyfloat g) = Inr []"
      by (auto simp: generate_4d_trajectory_def)
    with g(3,4) show False by simp
  qed
qed

lemma detect_demo_triple:
  "detect_loss_of_separation float_dec
     [demo_flight ''AC900'' short_leg (Some 35000) (Some 0),
      demo_flight ''AC101'' short_leg (Some 35000) (Some 1700000000),
      demo_flight ''AC202'' short_leg (Some 36000) (Some 1700000000)]
   = Inr [\<lparr>flight1 = ''AC101'', flight2 = ''AC202'', horizontal_nm = 0, vertical_ft = 1000,
           reason = ''Loss-of-separation detected'', start_time_overlap = 1699999980\<rparr>]"
proof -
  have gen0: "generate_4d_trajectory (demo_flight ''AC900'' short_leg (Some 35000) (Some 0)) p
                = Inr []" for p
    by (simp add: generate_4d_trajectory_def demo_flight_def)
  have sel: "acid (demo_flight a r alt d) = a" "altitude (demo_flight a r alt d) = alt"
    for a r alt d
    by (simp_all add: demo_flight_def)
  have pre: "fold_err (preprocess_flight float_dec)
     [demo_flight ''AC900'' short_leg (Some 35000) (Some 0),
      demo_flight ''AC101'' short_leg (Some 35000) (Some 1700000000),
      demo_flight ''AC202'' short_leg (Some 36000) (Some 1700000000)] ([], [])
     = Inr ([(''AC900'', demo_flight ''AC900'' short_leg (Some 35000) (Some 0)),
             (''AC101'', demo_flight ''AC101'' short_leg (Some 35000) (Some 1700000000)),
             (''AC202'', demo_flight ''AC202'' short_leg (Some 36000) (Some 1700000000))],
            [(''AC101'', [(1699999980, (0, 0))]), (''AC202'', [(1699999980, (0, 0))])])"
    by (simp add: preprocess_flight_def get_full_flight_path_demo generate_4d_trajectory_demo
        gen0 sel)
  show ?thesis
    unfolding detect_loss_of_separation_def check_conflicts_def pre
    by (simp add: invert_trajectories_def add_position_def check_time_def check_pair_def sel
        horizontal_distance_nm_same pair_key_def fromtimestamp_utc_def)
qed

text \<open>
  The flight AC900 departs at 0: its trajectory is empty although its path has two points
  6 nm apart and its speed is 480 kt, and the run reports the other two flights only.
\<close>

theorem no_departure_time_no_trajectory_witness:
  "generate_4d_trajectory (demo_flight ''AC900'' short_leg (Some 35000) (Some 0))
     [(0, 0), (0, 1 / 10)] = Inr []
   \<and> generate_4d_trajectory (demo_flight ''AC900'' short_leg (Some 35000) (Some 1700000000))
       [(0, 0), (0, 1 / 10)] = Inr [(1699999980, (0, 0))]
   \<and> detect_loss_of_separation float_dec
       [demo_flight ''AC900'' short_leg (Some 35000) (Some 0),
        demo_flight ''AC101'' short_leg (Some 35000) (Some 1700000000),
        demo_flight ''AC202'' short_leg (Some 36000) (Some 1700000000)]
     = Inr [\<lparr>flight1 = ''AC101'', flight2 = ''AC202'', horizontal_nm = 0, vertical_ft = 1000,
             reason = ''Loss-of-separation detected'', start_time_overlap = 1699999980\<rparr>]
   \<and> ''AC900'' \<notin> conflict_pair
         \<lparr>flight1 = ''AC101'', flight2 = ''AC202'', horizontal_nm = 0, vertical_ft = 1000,
          reason = ''Loss-of-separation detected'', start_time_overlap = 1699999980\<rparr>"
proof -
  let ?x = "demo_flight ''AC900'' short_leg (Some 35000) (Some 0)"
  let ?fs = "[?x, demo_flight ''AC101'' short_leg (Some 35000) (Some 1700000000),
        demo_flight ''AC202'' short_leg (Some 36000) (Some 1700000000)]"
  let ?r = "\<lparr>flight1 = ''AC101'', flight2 = ''AC202'', horizontal_nm = 0, vertical_ft = 1000,
          reason = ''Loss-of-separation detected'', start_time_overlap = 1699999980\<rparr>"
  note inst = no_departure_time_no_trajectory
    [of ?x "[(0, 0), (0, 1 / 10)]" ?fs "''AC900''" float_dec "[?r]"]
  have dep: "departure_time ?x = None \<or> departure_time ?x = Some 0"
    by (simp add: demo_flight_def)
  have all: "\<forall>g \<in> set ?fs. acid g = ''AC900'' \<longrightarrow> departure_time g = None \<or> departure_time g = Some 0"
    by (simp add: demo_flight_def)
  from inst dep have "generate_4d_trajectory ?x [(0, 0), (0, 1 / 10)] = Inr []"
    by blast
  moreover from inst all detect_demo_triple have "''AC900'' \<notin> conflict_pair ?r"
    by simp
  ultimately show ?thesis
    by (simp add: detect_demo_triple generate_4d_trajectory_demo)
qed

subsection \<open>Every violating pair of a shared bucket ends up active\<close>

lemma haversine_a_sym: "haversine_a lat1 lon1 lat2 lon2 = haversine_a lat2 lon2 lat1 lon1"
proof -
  have "(sin (radians (x - y) / 2))\<^sup>2 = (sin (radians (y - x) / 2))\<^sup>2" for x y
  proof -
    have "radians (x - y) / 2 = - (radians (y - x) / 2)"
      by (simp add: radians_def field_simps)
    then show ?thesis by (simp only: sin_minus power2_minus)
  qed
  then show ?thesis
    by (simp add: haversine_a_def mult.commute)
qed

lemma horizontal_distance_nm_sym: "horizontal_distance_nm p q = horizontal_distance_nm q p"
  by (cases p, cases q)
    (simp add: horizontal_distance_nm_eq central_angle_def haversine_a_sym)

lemma too_close_sym: "too_close p q = too_close q p"
  by (simp add: too_close_def horizontal_distance_nm_sym)

lemma vertically_separated_sym: "vertically_separated f g = vertically_separated g f"
  by (simp add: vertically_separated_def abs_minus_commute split: option.splits)

lemma pair_key_sym: "pair_key a b = pair_key b a"
  by (simp add: pair_key_eq_iff insert_commute)

lemma check_pair_mono:
  assumes "check_pair fo t acid1 pos1 fl1 ap2 st = Inr st'"
  shows "snd st \<subseteq> snd st'"
proof -
  obtain acid2 pos2 cs act cs' act' where
    eq: "ap2 = (acid2, pos2)" "st = (cs, act)" "st' = (cs', act')"
    by (cases ap2, cases st, cases st') auto
  from check_pair_cases [OF assms [unfolded eq]] show ?thesis
    by (auto simp: eq)
qed

lemma check_pair_progress:
  assumes "check_pair fo t acid1 pos1 fl1 (acid2, pos2) st = Inr st'"
    and "map_of fo acid2 = Some fl2"
    and "\<not> vertically_separated fl1 fl2" and "too_close pos1 pos2"
  shows "pair_key acid1 acid2 \<in> snd st'"
  using assms unfolding check_pair_def vertically_separated_def too_close_def
  by (cases st) (auto split: option.splits sum.splits if_splits)

lemma fold_err_progress:
  assumes "fold_err f xs st = Inr st'" and "x \<in> set xs"
    and "\<And>s s'. f x s = Inr s' \<Longrightarrow> Q s'"
    and "\<And>y s s'. y \<in> set xs \<Longrightarrow> f y s = Inr s' \<Longrightarrow> Q s \<Longrightarrow> Q s'"
  shows "Q st'"
  using assms
proof (induction xs arbitrary: st)
  case Nil
  then show ?case by simp
next
  case (Cons y ys)
  from Cons.prems(1) obtain s1 where s1: "f y st = Inr s1" "fold_err f ys s1 = Inr st'"
    by (auto split: sum.splits)
  show ?case
  proof (cases "x \<in> set ys")
    case True
    show ?thesis
    proof (rule Cons.IH [OF s1(2) True])
      show "\<And>s s'. f x s = Inr s' \<Longrightarrow> Q s'" by (rule Cons.prems(3))
      fix z s s'
      assume "z \<in> set ys" "f z s = Inr s'" "Q s"
      then show "Q s'" using Cons.prems(4) [of z s s'] by simp
    qed
  next
    case False
    with Cons.prems(2) have "x = y" by simp
    with s1(1) Cons.prems(3) have "Q s1" by blast
    with s1(2) show ?thesis
    proof (rule fold_err_invariant)
      fix z s s'
      assume "z \<in> set ys" "Q s" "f z s = Inr s'"
      then show "Q s'" using Cons.prems(4) [of z s s'] by simp
    qed
  qed
qed

lemma check_bucket_mono:
  assumes "check_bucket fo t l st = Inr st'"
  shows "snd st \<subseteq> snd st'"
  using assms
proof (induction l arbitrary: st)
  case Nil
  then show ?case by simp
next
  case (Cons ap1 rest)
  from Cons.prems obtain fl1 s1 where
    s1: "fold_err (check_pair fo t (fst ap1) (snd ap1) fl1) rest st = Inr s1"
      "check_bucket fo t rest s1 = Inr st'"
    by (auto split: option.splits sum.splits)
  have "snd st \<subseteq> snd s1"
    using s1(1)
  proof (rule fold_err_invariant [where I = "\<lambda>s. snd st \<subseteq> snd s"])
    fix x s s'
    assume "snd st \<subseteq> snd s" "check_pair fo t (fst ap1) (snd ap1) fl1 x s = Inr s'"
    then show "snd st \<subseteq> snd s'"
      using check_pair_mono by blast
  qed simp
  with Cons.IH [OF s1(2)] show ?case by blast
qed

text \<open>The condition under which the pair loop marks two occupants of a bucket.\<close>

lemma check_bucket_progress:
  assumes "check_bucket fo t l st = Inr st'"
    and "ap1 \<in> set l" and "ap2 \<in> set l" and "fst ap1 \<noteq> fst ap2"
    and "map_of fo (fst ap1) = Some fl1" and "map_of fo (fst ap2) = Some fl2"
    and "\<not> vertically_separated fl1 fl2" and "too_close (snd ap1) (snd ap2)"
  shows "pair_key (fst ap1) (fst ap2) \<in> snd st'"
  using assms(1-3)
proof (induction l arbitrary: st)
  case Nil
  then show ?case by simp
next
  case (Cons x rest)
  from Cons.prems(1) obtain fx s1 where
    s1: "map_of fo (fst x) = Some fx"
      "fold_err (check_pair fo t (fst x) (snd x) fx) rest st = Inr s1"
      "check_bucket fo t rest s1 = Inr st'"
    by (auto split: option.splits sum.splits)
  have later: "pair_key (fst x) (fst y) \<in> snd st'"
    if y: "y \<in> set rest" "map_of fo (fst y) = Some fy"
      "\<not> vertically_separated fx fy" "too_close (snd x) (snd y)" for y fy
  proof -
    have "pair_key (fst x) (fst y) \<in> snd s1"
      using s1(2) y(1)
    proof (rule fold_err_progress [where Q = "\<lambda>s. pair_key (fst x) (fst y) \<in> snd s"])
      fix s s'
      assume "check_pair fo t (fst x) (snd x) fx y s = Inr s'"
      then show "pair_key (fst x) (fst y) \<in> snd s'"
        using check_pair_progress [of fo t "fst x" "snd x" fx "fst y" "snd y" s s' fy] y(2-4)
        by simp
    next
      fix z s s'
      assume "check_pair fo t (fst x) (snd x) fx z s = Inr s'" "pair_key (fst x) (fst y) \<in> snd s"
      then show "pair_key (fst x) (fst y) \<in> snd s'"
        using check_pair_mono by blast
    qed
    then show ?thesis
      using check_bucket_mono [OF s1(3)] by blast
  qed
  consider "ap1 = x" "ap2 \<in> set rest" | "ap2 = x" "ap1 \<in> set rest"
    | "ap1 \<in> set rest" "ap2 \<in> set rest"
    using Cons.prems(2,3) assms(4) by auto
  then show ?case
  proof cases
    case 1
    then show ?thesis
      using later [of ap2 fl2] s1(1) assms(5-8) by simp
  next
    case 2
    moreover have "\<not> vertically_separated fl2 fl1" "too_close (snd ap2) (snd ap1)"
      using assms(7,8) vertically_separated_sym [of fl1 fl2] too_close_sym [of "snd ap1" "snd ap2"]
      by simp_all
    ultimately have "pair_key (fst ap2) (fst ap1) \<in> snd st'"
      using later [of ap1 fl1] s1(1) assms(5,6) by simp
    then show ?thesis
      by (simp add: pair_key_sym [of "fst ap1"])
  next
    case 3
    then show ?thesis
      using Cons.IH [OF s1(3)] by simp
  qed
qed

lemma check_time_mono:
  "check_time fo pbt t st = Inr st' \<Longrightarrow> snd st \<subseteq> snd st'"
  unfolding check_time_def by (auto split: option.splits dest: check_bucket_mono)

subsection \<open>Which pairs a returning run reports\<close>

lemma bucket_at_mem:
  "(a, pos) \<in> set (bucket_at fts t) \<longleftrightarrow> (\<exists>traj. (a, traj) \<in> set fts \<and> map_of traj t = Some pos)"
proof (induction fts)
  case Nil
  show ?case by (simp add: bucket_at_def)
next
  case (Cons x fts)
  obtain b tr where x: "x = (b, tr)" by (cases x)
  have "bucket_at (x # fts) t
          = (case map_of tr t of None \<Rightarrow> [] | Some pos \<Rightarrow> [(b, pos)]) @ bucket_at fts t"
    by (simp add: bucket_at_def x)
  then show ?case
    using Cons.IH by (auto simp: x split: option.splits)
qed

lemma detect_loss_of_separation_stages:
  assumes "detect_loss_of_separation pyfloat flights = Inr cs"
    and "fold_err (preprocess_flight pyfloat) flights ([], []) = Inr (fo, fts)"
  shows "\<exists>act.
           preprocessed pyfloat (set flights) (fo, fts)
           \<and> fold_err (check_time fo (invert_trajectories fts))
                (sort (map fst (invert_trajectories fts))) ([], {}) = Inr (cs, act)
           \<and> once_per_pair (cs, act)
           \<and> (\<forall>c \<in> set cs. genuine_conflict fo (invert_trajectories fts) c)"
proof -
  obtain fo' fts' where pre': "fold_err (preprocess_flight pyfloat) flights ([], []) = Inr (fo', fts')"
    "preprocessed pyfloat (set flights) (fo', fts')"
    and gen': "\<forall>c \<in> set cs. genuine_conflict fo' (invert_trajectories fts') c"
    using detect_loss_of_separation_sound [OF assms(1)] by blast
  from pre'(1) assms(2) have eq: "fo' = fo" "fts' = fts"
    by simp_all
  note pre = pre'(2) [unfolded eq] and gen = gen' [unfolded eq]
  let ?pbt = "invert_trajectories fts"
  from assms obtain act where
    run: "fold_err (check_time fo ?pbt) (sort (map fst ?pbt)) ([], {}) = Inr (cs, act)"
    by (auto simp: detect_loss_of_separation_def check_conflicts_def Let_def split: sum.splits)
  have "once_per_pair (cs, act)"
    using run
  proof (rule fold_err_invariant)
    show "once_per_pair ([], {})" by (simp add: once_per_pair_def)
  qed (rule check_time_once_per_pair)
  with pre run gen show ?thesis
    by (intro exI [of _ act]) simp
qed

text \<open>
  In terms of the two dictionaries: a pair is reported exactly when, in some time bucket,
  both flights are present, the vertical guard does not skip them and they are closer
  than 5 nm.
\<close>

lemma reported_iff_internal:
  assumes pre: "preprocessed pyfloat F (fo, fts)"
    and run: "fold_err (check_time fo (invert_trajectories fts))
                (sort (map fst (invert_trajectories fts))) ([], {}) = Inr (cs, act)"
    and once: "once_per_pair (cs, act)"
    and gen: "\<forall>c \<in> set cs. genuine_conflict fo (invert_trajectories fts) c"
    and ne: "a1 \<noteq> a2"
  shows "(\<exists>c \<in> set cs. conflict_pair c = {a1, a2})
     \<longleftrightarrow> (\<exists>t p q fl1 fl2.
            (a1, p) \<in> set (bucket_at fts t) \<and> (a2, q) \<in> set (bucket_at fts t)
            \<and> map_of fo a1 = Some fl1 \<and> map_of fo a2 = Some fl2
            \<and> \<not> vertically_separated fl1 fl2 \<and> too_close p q)"
    (is "?L \<longleftrightarrow> ?R")
proof
  let ?pbt = "invert_trajectories fts"
  have d: "\<forall>(a, traj) \<in> set fts. distinct (map fst traj)"
    using preprocessed_trajectories_distinct [OF pre] .
  have bucket: "l = bucket_at fts t" if "map_of ?pbt t = Some l" for t l
    using that invert_trajectories_conv(2) [OF d, of t] by (simp split: if_splits)
  {
    assume ?L
    then obtain c where c: "c \<in> set cs" "conflict_pair c = {a1, a2}" by blast
    from gen c(1) obtain l pos1 pos2 fl1 fl2 h1 h2 dd where g:
      "map_of ?pbt (start_time_overlap c) = Some l"
      "(flight1 c, pos1) \<in> set l" "(flight2 c, pos2) \<in> set l"
      "map_of fo (flight1 c) = Some fl1" "map_of fo (flight2 c) = Some fl2"
      "altitude fl1 = Some h1" "altitude fl2 = Some h2" "\<bar>h1 - h2\<bar> < 2000"
      "horizontal_distance_nm pos1 pos2 = Inr dd" "dd < 5"
      unfolding genuine_conflict_def by blast
    have l: "l = bucket_at fts (start_time_overlap c)"
      using bucket [OF g(1)] .
    have vs: "\<not> vertically_separated fl1 fl2" "\<not> vertically_separated fl2 fl1"
      using g(6-8) by (simp_all add: vertically_separated_def abs_minus_commute)
    have tc: "too_close pos1 pos2" "too_close pos2 pos1"
      using g(9,10) horizontal_distance_nm_sym [of pos1 pos2] by (simp_all add: too_close_def)
    from c(2) have "(flight1 c = a1 \<and> flight2 c = a2) \<or> (flight1 c = a2 \<and> flight2 c = a1)"
      by (auto simp: conflict_pair_def doubleton_eq_iff)
    then show ?R
    proof
      assume "flight1 c = a1 \<and> flight2 c = a2"
      then show ?R
        using g(2-5) vs(1) tc(1) unfolding l
        by (intro exI [of _ "start_time_overlap c"] exI [of _ pos1] exI [of _ pos2]
            exI [of _ fl1] exI [of _ fl2]) simp
    next
      assume "flight1 c = a2 \<and> flight2 c = a1"
      then show ?R
        using g(2-5) vs(2) tc(2) unfolding l
        by (intro exI [of _ "start_time_overlap c"] exI [of _ pos2] exI [of _ pos1]
            exI [of _ fl2] exI [of _ fl1]) simp
    qed
  next
    assume ?R
    then obtain t p q fl1 fl2 where r:
      "(a1, p) \<in> set (bucket_at fts t)" "(a2, q) \<in> set (bucket_at fts t)"
      "map_of fo a1 = Some fl1" "map_of fo a2 = Some fl2"
      "\<not> vertically_separated fl1 fl2" "too_close p q"
      by blast
    from r(1) have look: "map_of ?pbt t = Some (bucket_at fts t)"
      using invert_trajectories_conv(2) [OF d, of t] by auto
    then have "map_of ?pbt t \<noteq> None"
      by simp
    then have "t \<in> fst ` set ?pbt"
      by (simp add: map_of_eq_None_iff)
    then have t: "t \<in> set (sort (map fst ?pbt))"
      by simp
    have "pair_key a1 a2 \<in> snd (cs, act)"
      using run t
    proof (rule fold_err_progress [where Q = "\<lambda>s. pair_key a1 a2 \<in> snd s"])
      fix s s'
      assume "check_time fo ?pbt t s = Inr s'"
      then have "check_bucket fo t (bucket_at fts t) s = Inr s'"
        by (simp add: check_time_def look)
      then have "pair_key (fst (a1, p)) (fst (a2, q)) \<in> snd s'"
        by (rule check_bucket_progress [where ?fl1.0 = fl1 and ?fl2.0 = fl2])
          (use r ne in simp_all)
      then show "pair_key a1 a2 \<in> snd s'"
        by simp
    next
      fix u s s'
      assume "check_time fo ?pbt u s = Inr s'" "pair_key a1 a2 \<in> snd s"
      then show "pair_key a1 a2 \<in> snd s'"
        using check_time_mono by blast
    qed
    moreover have "(\<lambda>c. pair_key (flight1 c) (flight2 c)) ` set cs = act"
      using once by (simp add: once_per_pair_def)
    ultimately have "pair_key a1 a2 \<in> (\<lambda>c. pair_key (flight1 c) (flight2 c)) ` set cs"
      by simp
    then obtain c where c: "c \<in> set cs" "pair_key a1 a2 = pair_key (flight1 c) (flight2 c)"
      by (rule imageE)
    from c(2) have "conflict_pair c = {a1, a2}"
      unfolding pair_key_eq_iff conflict_pair_def by simp
    with c(1) show ?L
      by blast
  }
qed

lemma filter_distinct_key:
  assumes "distinct (map f xs)" and "x \<in> set xs" and "f x = k"
  shows "length (filter (\<lambda>c. f c = k) xs) = 1"
  using assms
proof (induction xs)
  case Nil
  then show ?case by simp
next
  case (Cons y ys)
  show ?case
  proof (cases "f y = k")
    case True
    have "f y \<notin> f ` set ys"
      using Cons.prems(1) by simp
    with True have "\<forall>c \<in> set ys. f c \<noteq> k"
      by (metis image_eqI)
    then have "filter (\<lambda>c. f c = k) ys = []"
      by (simp add: filter_empty_conv)
    with True show ?thesis by simp
  next
    case False
    with Cons.prems have "x \<in> set ys"
      by auto
    with Cons.IH Cons.prems(1,3) False show ?thesis
      by simp
  qed
qed

text \<open>
  Two identifiers with one and the same stored trajectory and known, equal altitudes: a
  run that returns has exactly one record of the pair, whatever the other flights are.
\<close>

lemma same_trajectory_reported_once:
  assumes run: "detect_loss_of_separation pyfloat flights = Inr cs"
    and pre: "fold_err (preprocess_flight pyfloat) flights ([], []) = Inr (fo, fts)"
    and traj: "(a1, traj) \<in> set fts" "(a2, traj) \<in> set fts" and ne: "a1 \<noteq> a2"
    and fo: "map_of fo a1 = Some g1" "map_of fo a2 = Some g2"
    and alt: "altitude g1 = Some h1" "altitude g2 = Some h2" "h1 - h2 = 0"
  shows "length (filter (\<lambda>c. conflict_pair c = {a1, a2}) cs) = 1"
proof -
  obtain act where st:
    "preprocessed pyfloat (set flights) (fo, fts)"
    "fold_err (check_time fo (invert_trajectories fts))
       (sort (map fst (invert_trajectories fts))) ([], {}) = Inr (cs, act)"
    "once_per_pair (cs, act)"
    "\<forall>c \<in> set cs. genuine_conflict fo (invert_trajectories fts) c"
    using detect_loss_of_separation_stages [OF run pre] by blast
  from st(1) traj(1) have "traj \<noteq> []"
    unfolding preprocessed_def by blast
  then obtain t p rest where tr: "traj = (t, p) # rest"
    by (cases traj) auto
  then have look: "map_of traj t = Some p"
    by simp
  have b1: "(a1, p) \<in> set (bucket_at fts t)" and b2: "(a2, p) \<in> set (bucket_at fts t)"
    unfolding bucket_at_mem using traj look by blast+
  have vs: "\<not> vertically_separated g1 g2"
    using alt by (simp add: vertically_separated_def)
  have tc: "too_close p p"
    by (simp add: too_close_def horizontal_distance_nm_same)
  have "\<exists>c \<in> set cs. conflict_pair c = {a1, a2}"
    unfolding reported_iff_internal [OF st ne]
    using b1 b2 fo vs tc by blast
  then obtain c where c: "c \<in> set cs" "conflict_pair c = {a1, a2}"
    by blast
  have "distinct (map conflict_pair cs)"
    using st(3) by (simp add: once_per_pair_def)
  then show ?thesis
    using c by (rule filter_distinct_key)
qed

subsection \<open>Claims on the deduplication of the detector\<close>

text \<open>
  C1. A run of \<^verbatim>\<open>detect_loss_of_separation\<close> that returns reports each unordered flight
  pair at most once: no two records of its result have the same pair of identifiers. Flights
  with the same speed and departure time have the same trajectory on the same path. When
  the first loop has stored one and the same trajectory for two identifiers whose flights
  have known altitudes with difference 0, a run that returns has exactly one record of
  their pair, whatever the other flights are. And the second part of the function, on two
  such identifiers alone and a trajectory whose time buckets \<^verbatim>\<open>fromtimestamp\<close> renders,
  returns exactly one record, whose bucket is the earliest of the trajectory, however many
  buckets the two share.
\<close>

theorem one_record_per_flight_pair:
  "(detect_loss_of_separation pyfloat flights = Inr cs \<longrightarrow> distinct (map conflict_pair cs))
   \<and> (aircraft_speed f1 = aircraft_speed f2 \<and> departure_time f1 = departure_time f2
      \<longrightarrow> generate_4d_trajectory f1 path = generate_4d_trajectory f2 path)
   \<and> (detect_loss_of_separation pyfloat flights = Inr cs
        \<and> fold_err (preprocess_flight pyfloat) flights ([], []) = Inr (fo, fts)
        \<and> (a1, traj) \<in> set fts \<and> (a2, traj) \<in> set fts \<and> a1 \<noteq> a2
        \<and> map_of fo a1 = Some g1 \<and> map_of fo a2 = Some g2
        \<and> altitude g1 = Some h1 \<and> altitude g2 = Some h2 \<and> h1 - h2 = 0
      \<longrightarrow> length (filter (\<lambda>c. conflict_pair c = {a1, a2}) cs) = 1)
   \<and> (map_of fo' b1 = Some e1 \<and> map_of fo' b2 = Some e2 \<and> b1 \<noteq> b2
        \<and> altitude e1 = Some k1 \<and> altitude e2 = Some k2 \<and> k1 - k2 = 0
        \<and> tr \<noteq> [] \<and> distinct (map fst tr)
        \<and> (\<forall>t \<in> fst ` set tr. fromtimestamp_utc t = Inr t)
      \<longrightarrow> (\<exists>t. check_conflicts fo' [(b1, tr), (b2, tr)]
                   = Inr [\<lparr>flight1 = b1, flight2 = b2, horizontal_nm = 0,
                           vertical_ft = 0, reason = ''Loss-of-separation detected'',
                           start_time_overlap = t\<rparr>]
                \<and> t \<in> fst ` set tr \<and> (\<forall>t' \<in> fst ` set tr. t \<le> t')))"
proof (intro conjI impI)
  assume "detect_loss_of_separation pyfloat flights = Inr cs"
  then show "distinct (map conflict_pair cs)"
    using detect_loss_of_separation_sound by blast
next
  assume "aircraft_speed f1 = aircraft_speed f2 \<and> departure_time f1 = departure_time f2"
  then show "generate_4d_trajectory f1 path = generate_4d_trajectory f2 path"
    using generate_4d_trajectory_cong [of f1 f2 path] by simp
next
  assume h: "detect_loss_of_separation pyfloat flights = Inr cs
        \<and> fold_err (preprocess_flight pyfloat) flights ([], []) = Inr (fo, fts)
        \<and> (a1, traj) \<in> set fts \<and> (a2, traj) \<in> set fts \<and> a1 \<noteq> a2
        \<and> map_of fo a1 = Some g1 \<and> map_of fo a2 = Some g2
        \<and> altitude g1 = Some h1 \<and> altitude g2 = Some h2 \<and> h1 - h2 = 0"
  show "length (filter (\<lambda>c. conflict_pair c = {a1, a2}) cs) = 1"
    by (rule same_trajectory_reported_once [of pyfloat flights cs fo fts a1 traj a2 g1 g2 h1 h2])
      (use h in simp_all)
next
  assume h: "map_of fo' b1 = Some e1 \<and> map_of fo' b2 = Some e2 \<and> b1 \<noteq> b2
        \<and> altitude e1 = Some k1 \<and> altitude e2 = Some k2 \<and> k1 - k2 = 0
        \<and> tr \<noteq> [] \<and> distinct (map fst tr)
        \<and> (\<forall>t \<in> fst ` set tr. fromtimestamp_utc t = Inr t)"
  show "\<exists>t. check_conflicts fo' [(b1, tr), (b2, tr)]
                   = Inr [\<lparr>flight1 = b1, flight2 = b2, horizontal_nm = 0,
                           vertical_ft = 0, reason = ''Loss-of-separation detected'',
                           start_time_overlap = t\<rparr>]
                \<and> t \<in> fst ` set tr \<and> (\<forall>t' \<in> fst ` set tr. t \<le> t')"
    by (rule check_conflicts_same_trajectory [of fo' b1 e1 b2 e2 k1 k2 tr]) (use h in simp_all)
qed

text \<open>
  Two flights on the two-leg route, both at 35000 ft: the first loop stores the same
  trajectory for both, of the buckets 1699999980 and 1700000040, and the run returns one
  record, of the first bucket.
\<close>

theorem one_record_per_flight_pair_witness:
  "fold_err (preprocess_flight float_dec)
     [demo_flight ''AC101'' two_legs (Some 35000) (Some 1700000015),
      demo_flight ''AC202'' two_legs (Some 35000) (Some 1700000015)] ([], [])
   = Inr ([(''AC101'', demo_flight ''AC101'' two_legs (Some 35000) (Some 1700000015)),
           (''AC202'', demo_flight ''AC202'' two_legs (Some 35000) (Some 1700000015))],
          [(''AC101'', [(1699999980, (0, 0)), (1700000040, (0, 1 / 10))]),
           (''AC202'', [(1699999980, (0, 0)), (1700000040, (0, 1 / 10))])])
   \<and> detect_loss_of_separation float_dec
       [demo_flight ''AC101'' two_legs (Some 35000) (Some 1700000015),
        demo_flight ''AC202'' two_legs (Some 35000) (Some 1700000015)]
     = Inr [\<lparr>flight1 = ''AC101'', flight2 = ''AC202'', horizontal_nm = 0, vertical_ft = 0,
             reason = ''Loss-of-separation detected'', start_time_overlap = 1699999980\<rparr>]
   \<and> length (filter (\<lambda>c. conflict_pair c = {''AC101'', ''AC202''})
       [\<lparr>flight1 = ''AC101'', flight2 = ''AC202'', horizontal_nm = 0, vertical_ft = 0,
         reason = ''Loss-of-separation detected'', start_time_overlap = 1699999980\<rparr>]) = 1
   \<and> distinct (map conflict_pair
       [\<lparr>flight1 = ''AC101'', flight2 = ''AC202'', horizontal_nm = 0, vertical_ft = 0,
         reason = ''Loss-of-separation detected'', start_time_overlap = 1699999980\<rparr>])
   \<and> generate_4d_trajectory (demo_flight ''AC101'' two_legs (Some 35000) (Some 1700000015))
       [(0, 0), (0, 1 / 10), (0, 1 / 5)]
     = generate_4d_trajectory (demo_flight ''AC202'' two_legs (Some 35000) (Some 1700000015))
         [(0, 0), (0, 1 / 10), (0, 1 / 5)]"
proof -
  let ?f1 = "demo_flight ''AC101'' two_legs (Some 35000) (Some 1700000015)"
  let ?f2 = "demo_flight ''AC202'' two_legs (Some 35000) (Some 1700000015)"
  let ?path = "[(0, 0), (0, 1 / 10), (0, 1 / 5)] :: coord list"
  let ?traj = "[(1699999980, (0, 0)), (1700000040, (0, 1 / 10))] :: trajectory"
  let ?fo = "[(''AC101'', ?f1), (''AC202'', ?f2)]"
  let ?fts = "[(''AC101'', ?traj), (''AC202'', ?traj)]"
  let ?r = "\<lparr>flight1 = ''AC101'', flight2 = ''AC202'', horizontal_nm = 0, vertical_ft = 0,
         reason = ''Loss-of-separation detected'', start_time_overlap = 1699999980\<rparr>"
  note inst = one_record_per_flight_pair
    [of float_dec "[?f1, ?f2]" "[?r]" ?f1 ?f2 ?path ?fo ?fts "''AC101''" ?traj "''AC202''"
      ?f1 ?f2 35000 35000 ?fo "''AC101''" ?f1 "''AC202''" ?f2 35000 35000 ?traj]
  have sel: "acid ?f1 = ''AC101''" "acid ?f2 = ''AC202''"
    "altitude ?f1 = Some 35000" "altitude ?f2 = Some 35000"
    "aircraft_speed ?f1 = aircraft_speed ?f2" "departure_time ?f1 = departure_time ?f2"
    by (simp_all add: demo_flight_def)
  have pre: "fold_err (preprocess_flight float_dec) [?f1, ?f2] ([], []) = Inr (?fo, ?fts)"
    using preprocess_same_pair [of ?f1 ?f2 float_dec ?path ?traj]
    by (simp add: get_full_flight_path_two_legs generate_4d_trajectory_two_legs sel)
  have render: "\<forall>t \<in> fst ` set ?traj. fromtimestamp_utc t = Inr t"
    by (simp add: fromtimestamp_utc_def)
  from inst [THEN conjunct2, THEN conjunct2, THEN conjunct2] render sel
  obtain t where t:
    "check_conflicts ?fo ?fts
       = Inr [\<lparr>flight1 = ''AC101'', flight2 = ''AC202'', horizontal_nm = 0,
               vertical_ft = 0, reason = ''Loss-of-separation detected'',
               start_time_overlap = t\<rparr>]"
    "t \<in> fst ` set ?traj" "\<forall>t' \<in> fst ` set ?traj. t \<le> t'"
    by auto
  from t(2,3) have "t = 1699999980"
    by auto
  with t(1) have run: "detect_loss_of_separation float_dec [?f1, ?f2] = Inr [?r]"
    unfolding detect_loss_of_separation_def pre by simp
  from inst [THEN conjunct1] run have dis: "distinct (map conflict_pair [?r])"
    by blast
  from inst [THEN conjunct2, THEN conjunct1] sel
  have same: "generate_4d_trajectory ?f1 ?path = generate_4d_trajectory ?f2 ?path"
    by blast
  have "length (filter (\<lambda>c. conflict_pair c = {''AC101'', ''AC202''}) [?r]) = 1"
    using inst [THEN conjunct2, THEN conjunct2, THEN conjunct1] run pre sel
    by simp
  with pre run dis same show ?thesis
    by (intro conjI)
qed

subsection \<open>A pair with no altitude\<close>

text \<open>
  C4 (fails on the code). Two flights with no altitude at the same position of the same
  time bucket: the vertical guard of line 248 does not skip them, their distance 0 is
  strictly below 5.0 nm, and the pair is not flagged: building the record evaluates
  \<^verbatim>\<open>abs(flight1.altitude - flight2.altitude)\<close> on \<^verbatim>\<open>None\<close> at line 263 and the run ends in
  \<^verbatim>\<open>TypeError\<close>.
\<close>

theorem missing_altitudes_not_flagged:
  "detect_loss_of_separation float_dec
     [demo_flight ''AC101'' short_leg None (Some 1700000000),
      demo_flight ''AC202'' short_leg None (Some 1700000000)]
   = Inl TypeError
   \<and> \<not> vertically_separated (demo_flight ''AC101'' short_leg None (Some 1700000000))
         (demo_flight ''AC202'' short_leg None (Some 1700000000))
   \<and> too_close (0, 0) (0, 0)"
proof -
  have "altitude (demo_flight a r None d) = None" for a r d
    by (simp add: demo_flight_def)
  then show ?thesis
    by (simp add: detect_demo_pair vertically_separated_def too_close_def
        horizontal_distance_nm_same)
qed

subsection \<open>Route parsing\<close>

text \<open>The \<^verbatim>\<open>except\<close> clause of either parser catches whatever its \<^verbatim>\<open>try\<close> block raises.\<close>

lemma parse_waypoint_errors:
  "parse_waypoint pyfloat part = Inl e \<Longrightarrow> e = ValueError \<or> e = IndexError"
  unfolding parse_waypoint_def parse_coord_def
  by (auto split: list.splits option.splits sum.splits if_splits)

lemma parse_waypoint_congestion_errors:
  "parse_waypoint_congestion pyfloat part = Inl e \<Longrightarrow> e = ValueError \<or> e = IndexError"
  unfolding parse_waypoint_congestion_def
  by (auto split: list.splits option.splits if_splits)

text \<open>
  In \<^verbatim>\<open>airspace_congestion.parse_route\<close> only \<^verbatim>\<open>S\<close> negates a latitude and only \<^verbatim>\<open>W\<close> a
  longitude.
\<close>

lemma parse_waypoint_congestion_signs:
  assumes "parse_waypoint_congestion pyfloat part = Inr (la, lo)"
  shows "\<exists>lat_str lon_str lat_val lon_val.
           split_once CHR ''/'' part = [lat_str, lon_str]
           \<and> pyfloat (butlast lat_str) = Some lat_val \<and> pyfloat (butlast lon_str) = Some lon_val
           \<and> la = (if py_upper (last lat_str) = CHR ''S'' then - lat_val else lat_val)
           \<and> lo = (if py_upper (last lon_str) = CHR ''W'' then - lon_val else lon_val)"
  using assms unfolding parse_waypoint_congestion_def
  by (auto split: list.splits option.splits if_splits)

text \<open>
  C8 (fails on the code). \<^verbatim>\<open>flight_analysis.parse_route\<close> tests the suffix of a latitude
  and of a longitude against both \<^verbatim>\<open>S\<close> and \<^verbatim>\<open>W\<close>: on the token \<^verbatim>\<open>10W/20S\<close> it negates
  the latitude for the suffix \<^verbatim>\<open>W\<close> and the longitude for the suffix \<^verbatim>\<open>S\<close>, where
  \<^verbatim>\<open>airspace_congestion.parse_route\<close> keeps both positive.
\<close>

theorem parse_route_negates_garbled_suffix:
  "parse_route float_dec (Some ''10W/20S'') = [(- 10, - 20)]
   \<and> parse_route_congestion float_dec (Some ''10W/20S'') = [(10, 20)]"
proof -
  have "py_split ''10W/20S'' = [''10W/20S'']"
    by (simp add: py_split_def is_space_def)
  then show ?thesis
    by (simp add: parse_route_def parse_route_congestion_def parse_waypoint_def parse_coord_def
        parse_waypoint_congestion_def split_once_def float_dec_examples py_upper_def)
qed

subsection \<open>Sampling a segment\<close>

lemma map_err_pure:
  assumes "\<And>x. x \<in> set xs \<Longrightarrow> f x = Inr (g x)"
  shows "map_err f xs = Inr (map g xs)"
  using assms by (induction xs) simp_all

lemma upto_0_length: "0 \<le> n \<Longrightarrow> length [0..n] = nat n + 1"
  by simp

lemma upto_0_nth: "0 \<le> j \<Longrightarrow> j \<le> n \<Longrightarrow> [0..n] ! nat j = j"
  by (simp add: nth_upto)

text \<open>
  \<^verbatim>\<open>estimate_trajectory\<close> on a segment of positive duration: evenly spaced fractions
  \<open>j / num_samples\<close>, truncated timestamps, both endpoints sampled.
\<close>

lemma congestion_segment_eq:
  fixes a :: string and ct :: int and lat1 lon1 lat2 lon2 d speed :: real
  assumes "haversine_distance lat1 lon1 lat2 lon2 = Inr d" and "0 < speed" and "0 < d"
  defines "T \<equiv> d / speed * 3600"
  defines "n \<equiv> max 1 (py_int (T / 90))"
  defines "smp \<equiv> \<lambda>j. \<lparr>timestamp = ct + py_int (of_int j / of_int n * T),
                        latitude = lat1 + of_int j / of_int n * (lat2 - lat1),
                        longitude = lon1 + of_int j / of_int n * (lon2 - lon1),
                        sample_acid = a\<rparr>"
  shows "congestion_segment a speed ((lat1, lon1), (lat2, lon2)) (samples, Some ct)
           = Inr (samples @ map smp [0..n], Some (ct + py_int T))"
proof -
  have T: "0 < T"
    using assms(2,3) by (simp add: T_def)
  have n: "1 \<le> n"
    by (simp add: n_def)
  have "segment_sample a (lat1, lon1) (lat2, lon2) (Some ct) T n j = Inr (smp j)"
    if "j \<in> set [0..n]" for j
  proof -
    from that n have "of_int j / of_int n \<le> (1 :: real)"
      by simp
    then have "min (of_int j / of_int n) (1 :: real) = of_int j / of_int n"
      by simp
    then show ?thesis
      using n by (simp add: segment_sample_def smp_def Let_def)
  qed
  then have me: "map_err (segment_sample a (lat1, lon1) (lat2, lon2) (Some ct) T n) [0..n]
               = Inr (map smp [0..n])"
    by (rule map_err_pure)
  have "congestion_segment a speed ((lat1, lon1), (lat2, lon2)) (samples, Some ct)
          = (if T \<le> 0 then Inr (samples, Some ct)
             else (case map_err (segment_sample a (lat1, lon1) (lat2, lon2) (Some ct) T n) [0..n] of
                     Inl e \<Rightarrow> Inl e
                   | Inr new_samples \<Rightarrow> Inr (samples @ new_samples, Some (ct + py_int T))))"
    unfolding congestion_segment_def T_def n_def
    by (simp only: prod.case fst_conv snd_conv assms(1) sum.case Let_def option.case)
  then show ?thesis
    using T by (simp add: me)
qed

lemma tiny_leg_distance:
  "haversine_distance 0 0 0 (1 / 1000) = Inr (3440.065 * (pi / 180000))"
  using central_angle_equator [where lon_a = 0 and lon_b = "1 / 1000"]
  by (simp add: haversine_distance_eq radians_def)

text \<open>
  C7 (amended). The two reconstructors sample a segment differently, and neither as the
  claim states. \<^verbatim>\<open>estimate_trajectory\<close> takes, on a segment of positive duration \<open>T\<close>,
  \<open>n = max 1 (int (T / 90))\<close> and the \<open>n + 1\<close> evenly spaced fractions \<open>j / n\<close>, puts a
  sample at \<open>lat1 + fraction * (lat2 - lat1)\<close>, likewise the longitude, and stamps it with
  the segment's start time plus the truncation of \<open>fraction * T\<close>: at least two samples,
  the first at the start point and the last at fraction 1.
  \<^verbatim>\<open>generate_4d_trajectory\<close> takes, on a segment of positive duration \<open>D\<close>,
  \<open>steps = int (D / 60)\<close> with no lower bound and the fractions \<open>min 1 (s * 60 / D)\<close>, and
  stores the position \<open>lat1 + (lat2 - lat1) * fraction\<close>, likewise the longitude, under the
  minute of \<open>int (start + s * 60)\<close>: a segment flown in less than 60 s leaves one sample,
  its start point.
\<close>

theorem segment_sampling:
  "(haversine_distance lat1 lon1 lat2 lon2 = Inr d \<and> 0 < speed \<and> 0 < d \<longrightarrow>
      (let T = d / speed * 3600;
           n = max 1 (py_int (T / 90));
           new = map (\<lambda>j. \<lparr>timestamp = ct + py_int (of_int j / of_int n * T),
                           latitude = lat1 + of_int j / of_int n * (lat2 - lat1),
                           longitude = lon1 + of_int j / of_int n * (lon2 - lon1),
                           sample_acid = a\<rparr>) [0..n]
       in congestion_segment a speed ((lat1, lon1), (lat2, lon2)) (samples, Some ct)
            = Inr (samples @ new, Some (ct + py_int T))
          \<and> length new = nat n + 1 \<and> 2 \<le> length new
          \<and> hd new = \<lparr>timestamp = ct, latitude = lat1, longitude = lon1, sample_acid = a\<rparr>
          \<and> last new = \<lparr>timestamp = ct + py_int T, latitude = lat1 + 1 * (lat2 - lat1),
                         longitude = lon1 + 1 * (lon2 - lon1), sample_acid = a\<rparr>))
   \<and> (horizontal_distance_nm (u1, v1) (u2, v2) = Inr dist_nm \<and> 0 < v \<and> 0 < dist_nm \<longrightarrow>
        (let D = dist_nm / v;
             steps = py_int (D / 60)
         in traj_segment v ((u1, v1), (u2, v2)) (traj, current_time)
              = Inr (fold (\<lambda>s. AList.update
                                 ((py_int (current_time + of_int (s * 60)) div 60) * 60)
                                 (u1 + (u2 - u1) * min 1 (of_int (s * 60) / D),
                                  v1 + (v2 - v1) * min 1 (of_int (s * 60) / D)))
                       [0..steps] traj,
                     current_time + D)
            \<and> (D < 60 \<longrightarrow>
                  traj_segment v ((u1, v1), (u2, v2)) (traj, current_time)
                    = Inr (AList.update ((py_int current_time div 60) * 60) (u1, v1) traj,
                           current_time + D))))"
proof (intro conjI impI)
  assume h: "haversine_distance lat1 lon1 lat2 lon2 = Inr d \<and> 0 < speed \<and> 0 < d"
  define T where "T = d / speed * 3600"
  define n where "n = max 1 (py_int (T / 90))"
  define smp where "smp = (\<lambda>j. \<lparr>timestamp = ct + py_int (of_int j / of_int n * T),
                           latitude = lat1 + of_int j / of_int n * (lat2 - lat1),
                           longitude = lon1 + of_int j / of_int n * (lon2 - lon1),
                           sample_acid = a\<rparr>)"
  have n: "1 \<le> n" by (simp add: n_def)
  have seg: "congestion_segment a speed ((lat1, lon1), (lat2, lon2)) (samples, Some ct)
               = Inr (samples @ map smp [0..n], Some (ct + py_int T))"
    using congestion_segment_eq [where a = a and ct = ct and samples = samples and speed = speed and d = d] h
    by (simp add: T_def n_def smp_def)
  have len: "length (map smp [0..n]) = nat n + 1"
    using n by simp
  have "hd [0..n] = 0"
    using n by (simp add: upto_rec1 [of 0 n])
  then have hd: "hd (map smp [0..n])
                   = \<lparr>timestamp = ct, latitude = lat1, longitude = lon1, sample_acid = a\<rparr>"
    using n by (simp add: hd_map smp_def py_int_def)
  have "last [0..n] = n"
    using n by (simp add: upto_rec2 [of 0 n])
  then have last: "last (map smp [0..n])
                     = \<lparr>timestamp = ct + py_int T, latitude = lat1 + 1 * (lat2 - lat1),
                         longitude = lon1 + 1 * (lon2 - lon1), sample_acid = a\<rparr>"
    using n by (simp add: last_map smp_def)
  show "let T = d / speed * 3600;
           n = max 1 (py_int (T / 90));
           new = map (\<lambda>j. \<lparr>timestamp = ct + py_int (of_int j / of_int n * T),
                           latitude = lat1 + of_int j / of_int n * (lat2 - lat1),
                           longitude = lon1 + of_int j / of_int n * (lon2 - lon1),
                           sample_acid = a\<rparr>) [0..n]
       in congestion_segment a speed ((lat1, lon1), (lat2, lon2)) (samples, Some ct)
            = Inr (samples @ new, Some (ct + py_int T))
          \<and> length new = nat n + 1 \<and> 2 \<le> length new
          \<and> hd new = \<lparr>timestamp = ct, latitude = lat1, longitude = lon1, sample_acid = a\<rparr>
          \<and> last new = \<lparr>timestamp = ct + py_int T, latitude = lat1 + 1 * (lat2 - lat1),
                         longitude = lon1 + 1 * (lon2 - lon1), sample_acid = a\<rparr>"
    unfolding Let_def T_def [symmetric] n_def [symmetric] smp_def [symmetric]
    using seg len hd last n by simp
next
  assume h: "horizontal_distance_nm (u1, v1) (u2, v2) = Inr dist_nm \<and> 0 < v \<and> 0 < dist_nm"
  have full: "traj_segment v ((u1, v1), (u2, v2)) (traj, current_time)
          = Inr (fold (\<lambda>s. AList.update ((py_int (current_time + of_int (s * 60)) div 60) * 60)
                            (u1 + (u2 - u1) * min 1 (of_int (s * 60) / (dist_nm / v)),
                             v1 + (v2 - v1) * min 1 (of_int (s * 60) / (dist_nm / v))))
                   [0..py_int (dist_nm / v / 60)] traj,
                 current_time + dist_nm / v)"
    using traj_segment_eq [of "(u1, v1)" "(u2, v2)" dist_nm v traj current_time] h
    by (simp add: interpolate_position_def)
  have short: "traj_segment v ((u1, v1), (u2, v2)) (traj, current_time)
               = Inr (AList.update ((py_int current_time div 60) * 60) (u1, v1) traj,
                      current_time + dist_nm / v)"
    if "dist_nm / v < 60"
    using traj_segment_short [of "(u1, v1)" "(u2, v2)" dist_nm v traj current_time] h that
    by simp
  show "let D = dist_nm / v;
             steps = py_int (D / 60)
         in traj_segment v ((u1, v1), (u2, v2)) (traj, current_time)
              = Inr (fold (\<lambda>s. AList.update
                                 ((py_int (current_time + of_int (s * 60)) div 60) * 60)
                                 (u1 + (u2 - u1) * min 1 (of_int (s * 60) / D),
                                  v1 + (v2 - v1) * min 1 (of_int (s * 60) / D)))
                       [0..steps] traj,
                     current_time + D)
            \<and> (D < 60 \<longrightarrow>
                  traj_segment v ((u1, v1), (u2, v2)) (traj, current_time)
                    = Inr (AList.update ((py_int current_time div 60) * 60) (u1, v1) traj,
                           current_time + D))"
    unfolding Let_def using full short by blast
qed

text \<open>
  A leg of 0.001 degree flown in under half a second: \<^verbatim>\<open>estimate_trajectory\<close> samples
  both its ends with the same timestamp. A leg of 0.1 degree flown in 45 s:
  \<^verbatim>\<open>generate_4d_trajectory\<close> samples its start only.
\<close>

theorem segment_sampling_witness:
  "congestion_segment ''AC101'' 480 ((0, 0), (0, 1 / 1000)) ([], Some 1700000000)
     = Inr ([\<lparr>timestamp = 1700000000, latitude = 0, longitude = 0, sample_acid = ''AC101''\<rparr>,
             \<lparr>timestamp = 1700000000, latitude = 0, longitude = 1 / 1000,
              sample_acid = ''AC101''\<rparr>],
            Some 1700000000)
   \<and> traj_segment (480 / 3600) ((0, 0), (0, 1 / 10)) ([], 1700000000)
     = Inr ([(1699999980, (0, 0))], 1700000000 + 6371 * (pi / 1800) / 1.852 / (480 / 3600))"
proof -
  let ?d = "3440.065 * (pi / 180000) :: real"
  let ?T = "?d / 480 * 3600"
  let ?d' = "6371 * (pi / 1800) / 1.852 :: real"
  note inst = segment_sampling [of 0 0 0 "1 / 1000" ?d 480 1700000000 "''AC101''" "[]"
      0 0 0 "1 / 10" ?d' "480 / 3600" "[]" 1700000000]
  have T: "0 \<le> ?T" "?T < 1"
    using pi_less_4 by (simp_all add: field_simps)
  then have pT: "py_int ?T = 0"
    by (rule py_int_small)
  have "0 \<le> ?T / 90" "?T / 90 < 1"
    using T by simp_all
  then have "py_int (?T / 90) = 0"
    by (rule py_int_small)
  then have n: "max 1 (py_int (?T / 90)) = 1"
    by simp
  have up: "[0..1] = [0, 1 :: int]"
    by (simp add: upto_rec1 [of 0 1])
  have hyp1: "haversine_distance 0 0 0 (1 / 1000) = Inr ?d \<and> (0 :: real) < 480 \<and> 0 < ?d"
    using tiny_leg_distance by simp
  have "congestion_segment ''AC101'' 480 ((0, 0), (0, 1 / 1000)) ([], Some 1700000000)
       = Inr ([] @ map (\<lambda>j. \<lparr>timestamp = 1700000000 + py_int (of_int j / of_int 1 * ?T),
                           latitude = 0 + of_int j / of_int 1 * (0 - 0),
                           longitude = 0 + of_int j / of_int 1 * (1 / 1000 - 0),
                           sample_acid = ''AC101''\<rparr>) [0..1],
              Some (1700000000 + py_int ?T))"
    using inst [THEN conjunct1, THEN mp, OF hyp1] unfolding Let_def n by (rule conjunct1)
  then have first: "congestion_segment ''AC101'' 480 ((0, 0), (0, 1 / 1000)) ([], Some 1700000000)
     = Inr ([\<lparr>timestamp = 1700000000, latitude = 0, longitude = 0, sample_acid = ''AC101''\<rparr>,
             \<lparr>timestamp = 1700000000, latitude = 0, longitude = 1 / 1000,
              sample_acid = ''AC101''\<rparr>],
            Some 1700000000)"
    unfolding up using pT by (simp add: py_int_def)
  have hyp2: "horizontal_distance_nm (0, 0) (0, 1 / 10) = Inr ?d' \<and> (0 :: real) < 480 / 3600
      \<and> 0 < ?d'"
    using short_leg_distance by simp
  have short: "?d' / (480 / 3600) < 60"
    using pi_less_4 by (simp add: field_simps)
  have "traj_segment (480 / 3600) ((0, 0), (0, 1 / 10)) ([], 1700000000)
       = Inr (AList.update ((py_int 1700000000 div 60) * 60) (0, 0) [],
              1700000000 + ?d' / (480 / 3600))"
    by (rule inst [THEN conjunct2, THEN mp, OF hyp2, unfolded Let_def, THEN conjunct2, THEN mp,
          OF short])
  then have "traj_segment (480 / 3600) ((0, 0), (0, 1 / 10)) ([], 1700000000)
     = Inr ([(1699999980, (0, 0))], 1700000000 + ?d' / (480 / 3600))"
    by (simp add: py_int_def)
  with first show ?thesis
    by simp
qed

text \<open>
  C7 as stated fails on \<^verbatim>\<open>generate_4d_trajectory\<close>: the path of one segment of 6 nm,
  flown in 45 s, has positive duration and gets one sample, at its start point; the
  endpoint \<open>(0, 0.1)\<close> is not sampled.
\<close>

theorem one_sample_segment_counterexample:
  "generate_4d_trajectory (demo_flight ''AC101'' short_leg (Some 35000) (Some 1700000000))
     [(0, 0), (0, 1 / 10)]
   = Inr [(1699999980, (0, 0))]
   \<and> horizontal_distance_nm (0, 0) (0, 1 / 10) = Inr (6371 * (pi / 1800) / 1.852)
   \<and> 0 < 6371 * (pi / 1800) / 1.852 / (480 / 3600)"
  by (simp add: generate_4d_trajectory_demo short_leg_distance)

subsection \<open>The congestion buckets\<close>

lemma add_flight_conv:
  "map_of (add_flight a s d)
     = (map_of d)(sample_key s \<mapsto> insert a (case map_of d (sample_key s) of None \<Rightarrow> {} | Some fs \<Rightarrow> fs))"
  by (simp add: add_flight_def Let_def update_conv')

lemma add_flight_distinct:
  "distinct (map fst d) \<Longrightarrow> distinct (map fst (add_flight a s d))"
  by (simp add: add_flight_def Let_def distinct_update)

lemma fold_add_flight_distinct:
  "distinct (map fst d) \<Longrightarrow> distinct (map fst (fold (add_flight a) samples d))"
  by (induction samples arbitrary: d) (simp_all add: add_flight_distinct)

lemma fold_add_flight_conv:
  "map_of (fold (add_flight a) samples d) k
     = (if k \<in> sample_key ` set samples
        then Some (insert a (case map_of d k of None \<Rightarrow> {} | Some fs \<Rightarrow> fs))
        else map_of d k)"
proof (induction samples arbitrary: d)
  case Nil
  show ?case by simp
next
  case (Cons s samples)
  show ?case
    by (simp add: Cons.IH add_flight_conv)
qed

lemma bucket_flights_iff:
  "a \<in> bucket_flights pyfloat flights k
     \<longleftrightarrow> (\<exists>f \<in> set flights. \<exists>samples. acid f = a
            \<and> estimate_trajectory pyfloat f = Inr samples \<and> k \<in> sample_key ` set samples)"
proof
  assume "a \<in> bucket_flights pyfloat flights k"
  then obtain f where f: "f \<in> set flights" "acid f = a"
    "case estimate_trajectory pyfloat f of Inl e \<Rightarrow> False
     | Inr samples \<Rightarrow> k \<in> sample_key ` set samples"
    unfolding bucket_flights_def by blast
  from f(3) obtain samples where "estimate_trajectory pyfloat f = Inr samples"
    "k \<in> sample_key ` set samples"
    by (cases "estimate_trajectory pyfloat f") simp_all
  with f(1,2) show "\<exists>f \<in> set flights. \<exists>samples. acid f = a
            \<and> estimate_trajectory pyfloat f = Inr samples \<and> k \<in> sample_key ` set samples"
    by blast
next
  assume "\<exists>f \<in> set flights. \<exists>samples. acid f = a
            \<and> estimate_trajectory pyfloat f = Inr samples \<and> k \<in> sample_key ` set samples"
  then obtain f samples where f: "f \<in> set flights" "acid f = a"
    "estimate_trajectory pyfloat f = Inr samples" "k \<in> sample_key ` set samples"
    by blast
  then have "f \<in> {f \<in> set flights.
               case estimate_trajectory pyfloat f of
                 Inl e \<Rightarrow> False
               | Inr samples \<Rightarrow> k \<in> sample_key ` set samples}"
    by simp
  then show "a \<in> bucket_flights pyfloat flights k"
    unfolding bucket_flights_def using f(2) by blast
qed

text \<open>A flight adds its identifier to the buckets its samples fall into.\<close>

lemma bucket_flights_snoc:
  assumes "estimate_trajectory pyfloat f = Inr samples"
  shows "bucket_flights pyfloat (fs @ [f]) k
     = bucket_flights pyfloat fs k \<union> (if k \<in> sample_key ` set samples then {acid f} else {})"
proof (intro set_eqI iffI)
  fix a
  assume "a \<in> bucket_flights pyfloat (fs @ [f]) k"
  then obtain g ss where g: "g \<in> set (fs @ [f])" "acid g = a"
    "estimate_trajectory pyfloat g = Inr ss" "k \<in> sample_key ` set ss"
    unfolding bucket_flights_iff by blast
  show "a \<in> bucket_flights pyfloat fs k \<union> (if k \<in> sample_key ` set samples then {acid f} else {})"
  proof (cases "g = f")
    case True
    with g assms show ?thesis by simp
  next
    case False
    with g(1) have "g \<in> set fs" by simp
    with g(2-4) have "a \<in> bucket_flights pyfloat fs k"
      unfolding bucket_flights_iff by blast
    then show ?thesis by simp
  qed
next
  fix a
  assume "a \<in> bucket_flights pyfloat fs k \<union> (if k \<in> sample_key ` set samples then {acid f} else {})"
  then consider "a \<in> bucket_flights pyfloat fs k" | "k \<in> sample_key ` set samples" "a = acid f"
    by (auto split: if_splits)
  then show "a \<in> bucket_flights pyfloat (fs @ [f]) k"
  proof cases
    case 1
    then show ?thesis unfolding bucket_flights_iff by auto
  next
    case 2
    with assms show ?thesis unfolding bucket_flights_iff by auto
  qed
qed

lemma fold_err_snoc_Inr:
  "fold_err f (xs @ [x]) st = Inr st' \<longleftrightarrow> (\<exists>s. fold_err f xs st = Inr s \<and> f x s = Inr st')"
  by (simp add: fold_err_append split: sum.splits)

lemma congestion_flight_Inr:
  "congestion_flight pyfloat f d0 = Inr d
     \<longleftrightarrow> (\<exists>samples. estimate_trajectory pyfloat f = Inr samples
            \<and> d = fold (add_flight (acid f)) samples d0)"
  by (auto simp: congestion_flight_def split: sum.splits)

lemma congestion_accumulated:
  assumes "fold_err (congestion_flight pyfloat) flights [] = Inr d"
  shows "distinct (map fst d)"
    and "map_of d k = (if bucket_flights pyfloat flights k = {} then None
                       else Some (bucket_flights pyfloat flights k))"
  using assms
proof (induction flights arbitrary: d k rule: rev_induct)
  case Nil
  {
    case 1 then show ?case by simp
  next
    case 2
    have "bucket_flights pyfloat [] k = {}"
      using bucket_flights_iff [of _ pyfloat "[]" k] by auto
    with 2 show ?case by simp
  }
next
  case (snoc f fs)
  {
    case 1
    then obtain d0 samples where s: "fold_err (congestion_flight pyfloat) fs [] = Inr d0"
      "estimate_trajectory pyfloat f = Inr samples" "d = fold (add_flight (acid f)) samples d0"
      unfolding fold_err_snoc_Inr congestion_flight_Inr by blast
    show ?case
      unfolding s(3) using snoc.IH(1) [OF s(1)] by (rule fold_add_flight_distinct)
  next
    case 2
    then obtain d0 samples where s: "fold_err (congestion_flight pyfloat) fs [] = Inr d0"
      "estimate_trajectory pyfloat f = Inr samples" "d = fold (add_flight (acid f)) samples d0"
      unfolding fold_err_snoc_Inr congestion_flight_Inr by blast
    show ?case
      unfolding s(3) fold_add_flight_conv snoc.IH(2) [OF s(1)] bucket_flights_snoc [OF s(2)]
      by simp
  }
qed

subsection \<open>Hotspots\<close>

lemma filter_key_distinct:
  "distinct (map fst d)
     \<Longrightarrow> filter (\<lambda>kv. fst kv = k) d = (case map_of d k of None \<Rightarrow> [] | Some v \<Rightarrow> [(k, v)])"
proof (induction d)
  case Nil
  show ?case by simp
next
  case (Cons x d)
  obtain k' v' where x: "x = (k', v')" by (cases x)
  show ?case
  proof (cases "k' = k")
    case True
    with Cons.prems have "k \<notin> fst ` set d" by (simp add: x)
    then have "filter (\<lambda>kv. fst kv = k) d = []"
      by (auto simp: filter_empty_conv)
    with True show ?thesis by (simp add: x)
  next
    case False
    with Cons show ?thesis by (simp add: x)
  qed
qed

lemma make_hotspot_key:
  "(sector_lat (make_hotspot kv), sector_lon (make_hotspot kv), window_start (make_hotspot kv))
     = fst kv"
  by (cases kv) (auto simp: make_hotspot_def)

lemma detect_congestion_Inr:
  "detect_congestion pyfloat flights = Inr hs
     \<longleftrightarrow> (\<exists>d. fold_err (congestion_flight pyfloat) flights [] = Inr d
            \<and> hs = sort_key hotspot_order
                     (map make_hotspot (filter (\<lambda>kv. 5 < card (snd kv)) d)))"
  by (auto simp: detect_congestion_def Let_def split: sum.splits)

lemma hotspots_of_bucket:
  assumes "detect_congestion pyfloat flights = Inr hs"
  shows "filter (\<lambda>h. (sector_lat h, sector_lon h, window_start h) = k) hs
           = (if 5 < card (bucket_flights pyfloat flights k)
              then [make_hotspot (k, bucket_flights pyfloat flights k)] else [])"
proof -
  let ?Q = "\<lambda>kv :: (int \<times> int \<times> int) \<times> string set. 5 < card (snd kv)"
  let ?B = "bucket_flights pyfloat flights k"
  from assms obtain d where d: "fold_err (congestion_flight pyfloat) flights [] = Inr d"
    "hs = sort_key hotspot_order (map make_hotspot (filter ?Q d))"
    unfolding detect_congestion_Inr by blast
  have dist: "distinct (map fst d)"
    and look: "map_of d k = (if ?B = {} then None else Some ?B)"
    using congestion_accumulated [OF d(1)] by simp_all
  have "filter (\<lambda>h. (sector_lat h, sector_lon h, window_start h) = k) hs
          = sort_key hotspot_order
              (map make_hotspot (filter (\<lambda>kv. fst kv = k) (filter ?Q d)))"
    unfolding d(2) filter_sort filter_map by (simp add: comp_def make_hotspot_key)
  also have "filter (\<lambda>kv. fst kv = k) (filter ?Q d) = filter ?Q (filter (\<lambda>kv. fst kv = k) d)"
    by (simp add: conj_commute)
  also have "filter (\<lambda>kv. fst kv = k) d = (case map_of d k of None \<Rightarrow> [] | Some v \<Rightarrow> [(k, v)])"
    using dist by (rule filter_key_distinct)
  finally show ?thesis
    by (simp add: look)
qed

lemma distinct_map_sort_key:
  assumes "distinct (map f zs)"
  shows "distinct (map f (sort_key f zs))"
proof -
  have "mset (map f (sort_key f zs)) = mset (map f zs)"
    by simp
  then show ?thesis
    using assms mset_eq_imp_distinct_iff by blast
qed

text \<open>Sorting by a key that tells the elements apart forgets the order of the input.\<close>

lemma sort_key_unique:
  assumes "set xs = set ys" and "distinct (map f xs)" and "distinct (map f ys)"
  shows "sort_key f xs = sort_key f ys"
proof -
  have d: "distinct (map f (sort_key f zs))" if "distinct (map f zs)" for zs
  proof -
    have "mset (map f (sort_key f zs)) = mset (map f zs)"
      by simp
    then show ?thesis
      using that mset_eq_imp_distinct_iff by blast
  qed
  have "map f (sort_key f xs) = map f (sort_key f ys)"
  proof (rule sorted_distinct_set_unique)
    show "set (map f (sort_key f xs)) = set (map f (sort_key f ys))"
      using assms(1) by simp
  qed (simp_all add: d assms)
  moreover have "inj_on f (set (sort_key f xs) \<union> set (sort_key f ys))"
    using assms by (simp add: distinct_map)
  ultimately show ?thesis
    by (simp add: inj_on_map_eq_map)
qed

lemma hotspot_order_make: "hotspot_order (make_hotspot kv) = (snd (snd (fst kv)), fst (fst kv), fst (snd (fst kv)))"
  by (cases kv) (auto simp: hotspot_order_def make_hotspot_def)

lemma hotspots_distinct:
  assumes "distinct (map fst d)"
  shows "distinct (map hotspot_order (map make_hotspot (filter Q d)))"
proof -
  let ?g = "\<lambda>k :: int \<times> int \<times> int. (snd (snd k), fst k, fst (snd k))"
  have a: "distinct (map fst (filter Q d))"
    using assms by (rule distinct_map_filter)
  have "inj ?g"
    by (auto simp: inj_def)
  then have b: "inj_on ?g (set (map fst (filter Q d)))"
    by (rule inj_on_subset [OF _ subset_UNIV])
  have "distinct (map ?g (map fst (filter Q d)))"
    by (rule iffD2 [OF distinct_map]) (intro conjI a b)
  then show ?thesis
    by (simp add: comp_def hotspot_order_make)
qed

lemma congestion_flight_total:
  assumes "\<And>f. f \<in> set flights \<Longrightarrow> \<exists>samples. estimate_trajectory pyfloat f = Inr samples"
  shows "\<exists>d'. fold_err (congestion_flight pyfloat) flights d = Inr d'"
  using assms
proof (induction flights arbitrary: d)
  case Nil
  show ?case by simp
next
  case (Cons f flights)
  obtain samples where "estimate_trajectory pyfloat f = Inr samples"
    using Cons.prems [of f] by auto
  then show ?case
    using Cons.IH [of "fold (add_flight (acid f)) samples d"] Cons.prems
    by (simp add: congestion_flight_def)
qed

lemma bucket_flights_set_cong:
  "set flights' = set flights \<Longrightarrow> bucket_flights pyfloat flights' = bucket_flights pyfloat flights"
  by (simp add: bucket_flights_def fun_eq_iff)

text \<open>The result depends on the set of flights only.\<close>

lemma detect_congestion_set_cong:
  assumes "detect_congestion pyfloat flights = Inr hs" and "set flights' = set flights"
  shows "detect_congestion pyfloat flights' = Inr hs"
proof -
  let ?Q = "\<lambda>kv :: (int \<times> int \<times> int) \<times> string set. 5 < card (snd kv)"
  from assms(1) obtain d where d: "fold_err (congestion_flight pyfloat) flights [] = Inr d"
    "hs = sort_key hotspot_order (map make_hotspot (filter ?Q d))"
    unfolding detect_congestion_Inr by blast
  have ok: "\<exists>samples. estimate_trajectory pyfloat f = Inr samples" if "f \<in> set flights'" for f
  proof -
    from that assms(2) have "f \<in> set flights" by simp
    then obtain s s' where "congestion_flight pyfloat f s = Inr s'"
      using fold_err_steps_succeed [OF d(1), of f] by blast
    then show ?thesis
      unfolding congestion_flight_Inr by blast
  qed
  obtain d' where d': "fold_err (congestion_flight pyfloat) flights' [] = Inr d'"
    using congestion_flight_total [of flights' pyfloat "[]"] ok by blast
  have "map_of d' = map_of d"
    using congestion_accumulated(2) [OF d'] congestion_accumulated(2) [OF d(1)]
      bucket_flights_set_cong [OF assms(2), of pyfloat]
    by (simp add: fun_eq_iff)
  moreover have dd: "distinct (map fst d')" "distinct (map fst d)"
    using congestion_accumulated(1) [OF d'] congestion_accumulated(1) [OF d(1)] by simp_all
  ultimately have "set d' = set d"
    by (simp add: map_of_inject_set)
  then have "set (map make_hotspot (filter ?Q d')) = set (map make_hotspot (filter ?Q d))"
    by simp
  then have "sort_key hotspot_order (map make_hotspot (filter ?Q d'))
               = sort_key hotspot_order (map make_hotspot (filter ?Q d))"
    using hotspots_distinct [OF dd(1)] hotspots_distinct [OF dd(2)] by (rule sort_key_unique)
  with d' d(2) show ?thesis
    unfolding detect_congestion_Inr by (intro exI [of _ d']) simp
qed

subsection \<open>Six flights in one sector and window\<close>

lemma estimate_trajectory_tiny_leg:
  "estimate_trajectory float_dec (demo_flight a tiny_leg alt (Some dep))
     = Inr [\<lparr>timestamp = dep, latitude = 0, longitude = 0, sample_acid = a\<rparr>,
            \<lparr>timestamp = dep, latitude = 0, longitude = 1 / 1000, sample_acid = a\<rparr>]"
proof -
  let ?d = "3440.065 * (pi / 180000) :: real"
  let ?T = "?d / 480 * 3600"
  have T: "0 \<le> ?T" "?T < 1"
    using pi_less_4 by (simp_all add: field_simps)
  then have pT: "py_int ?T = 0"
    by (rule py_int_small)
  have "0 \<le> ?T / 90" "?T / 90 < 1"
    using T by simp_all
  then have "py_int (?T / 90) = 0"
    by (rule py_int_small)
  then have n: "max 1 (py_int (?T / 90)) = 1"
    by simp
  have up: "[0..1] = [0, 1 :: int]"
    by (simp add: upto_rec1 [of 0 1])
  have d: "(0 :: real) < ?d"
    by simp
  have seg: "congestion_segment a 480 ((0, 0), (0, 1 / 1000)) ([], Some dep)
       = Inr ([\<lparr>timestamp = dep, latitude = 0, longitude = 0, sample_acid = a\<rparr>,
               \<lparr>timestamp = dep, latitude = 0, longitude = 1 / 1000, sample_acid = a\<rparr>],
              Some dep)"
    using congestion_segment_eq [OF tiny_leg_distance _ d, of 480 a "[]" dep] pT
    unfolding n up by (simp add: py_int_def)
  show ?thesis
    using seg
    by (simp add: estimate_trajectory_def demo_flight_def parse_route_congestion_tiny_leg)
qed

lemma congestion_flight_tiny_leg:
  "congestion_flight float_dec (demo_flight a tiny_leg alt (Some 1700000000)) d
     = Inr (AList.update (0, 0, 1699999200)
              (insert a (case map_of d (0, 0, 1699999200) of None \<Rightarrow> {} | Some fs \<Rightarrow> fs)) d)"
proof -
  have acid: "acid (demo_flight a tiny_leg alt (Some 1700000000)) = a"
    by (simp add: demo_flight_def)
  have k: "sample_key \<lparr>timestamp = 1700000000, latitude = 0, longitude = lon, sample_acid = a\<rparr>
             = (0, 0, 1699999200)" if "0 \<le> lon" "lon < 1" for lon :: real
  proof -
    from that have "\<lfloor>lon\<rfloor> = 0"
      by (simp add: floor_eq_iff)
    then show ?thesis
      by (simp add: sample_key_def get_sector_def get_time_window_def)
  qed
  show ?thesis
    unfolding congestion_flight_def estimate_trajectory_tiny_leg acid
    by (simp add: add_flight_def k update_conv' split: option.splits)
qed


lemma detect_congestion_six:
  "detect_congestion float_dec six_flights
     = Inr [\<lparr>sector_lat = 0, sector_lon = 0, window_start = 1699999200, flight_count = 6,
             flight_set = {''AC101'', ''AC102'', ''AC103'', ''AC104'', ''AC105'', ''AC106''}\<rparr>]"
proof -
  have "fold_err (congestion_flight float_dec) six_flights []
          = Inr [((0, 0, 1699999200),
                  {''AC106'', ''AC105'', ''AC104'', ''AC103'', ''AC102'', ''AC101''})]"
    by (simp add: six_flights_def congestion_flight_tiny_leg)
  moreover have "card {''AC106'', ''AC105'', ''AC104'', ''AC103'', ''AC102'', ''AC101''} = 6"
    by simp
  moreover have "{''AC106'', ''AC105'', ''AC104'', ''AC103'', ''AC102'', ''AC101''}
                   = {''AC101'', ''AC102'', ''AC103'', ''AC104'', ''AC105'', ''AC106''}"
    by auto
  ultimately show ?thesis
    by (simp add: detect_congestion_def make_hotspot_def)
qed

lemma detect_congestion_five: "detect_congestion float_dec five_flights = Inr []"
proof -
  have "fold_err (congestion_flight float_dec) five_flights []
          = Inr [((0, 0, 1699999200), {''AC105'', ''AC104'', ''AC103'', ''AC102'', ''AC101''})]"
    by (simp add: five_flights_def congestion_flight_tiny_leg)
  moreover have "card {''AC105'', ''AC104'', ''AC103'', ''AC102'', ''AC101''} = 5"
    by simp
  ultimately show ?thesis
    by (simp add: detect_congestion_def)
qed

subsection \<open>Sectors and windows\<close>

lemma get_time_window_eq:
  "get_time_window ts = w \<longleftrightarrow> w mod 900 = 0 \<and> w \<le> ts \<and> ts < w + 900"
proof
  assume "get_time_window ts = w"
  then have w: "w = ts div 900 * 900"
    by (simp add: get_time_window_def)
  have eq: "ts = ts div 900 * 900 + ts mod 900"
    by simp
  have bounds: "0 \<le> ts mod 900" "ts mod 900 < 900"
    by simp_all
  have "w mod 900 = 0"
    by (simp add: w)
  moreover have "w \<le> ts"
    unfolding w using eq bounds(1) by linarith
  moreover have "ts < w + 900"
    unfolding w using eq bounds(2) by linarith
  ultimately show "w mod 900 = 0 \<and> w \<le> ts \<and> ts < w + 900"
    by simp
next
  assume h: "w mod 900 = 0 \<and> w \<le> ts \<and> ts < w + 900"
  then obtain q where q: "w = 900 * q"
    by (auto simp: mod_eq_0_iff_dvd elim: dvdE)
  have "ts div 900 = q"
    by (rule int_div_pos_eq [of ts 900 q "ts - w"]) (use h q in simp_all)
  then show "get_time_window ts = w"
    by (simp add: get_time_window_def q)
qed

lemma sample_key_in_bucket: "sample_key s = k \<longleftrightarrow> in_bucket s k"
proof -
  obtain s_lat s_lon w_start where k: "k = (s_lat, s_lon, w_start)"
    by (cases k)
  have fl: "\<lfloor>x\<rfloor> = n \<longleftrightarrow> of_int n \<le> x \<and> x < of_int n + 1" for x :: real and n
    by (rule floor_eq_iff)
  have "sample_key s = k
          \<longleftrightarrow> \<lfloor>latitude s\<rfloor> = s_lat \<and> \<lfloor>longitude s\<rfloor> = s_lon
               \<and> get_time_window (timestamp s) = w_start"
    by (simp add: k sample_key_def get_sector_def)
  also have "\<dots> \<longleftrightarrow> in_bucket s k"
    unfolding fl get_time_window_eq by (simp add: k in_bucket_def)
  finally show ?thesis .
qed

lemma bucket_flights_observed: "bucket_flights pyfloat flights k = flights_observed pyfloat flights k"
proof -
  have "(k \<in> sample_key ` set samples) = (\<exists>s \<in> set samples. in_bucket s k)" for samples
    by (auto simp: image_iff sample_key_in_bucket [symmetric])
  then show ?thesis
    unfolding bucket_flights_def flights_observed_def by (simp only:)
qed

subsection \<open>Six flights across two sectors\<close>

lemma py_split_crossing_leg: "py_split crossing_leg = [''0N/0.0005E'', ''0N/0.0005W'']"
  by (simp add: py_split_def crossing_leg_def is_space_def)

lemma parse_route_congestion_crossing_leg:
  "parse_route_congestion float_dec (Some crossing_leg) = [(0, 1 / 2000), (0, - (1 / 2000))]"
proof -
  have "float_dec ''0.0005'' = Some (1 / 2000)"
    by (simp add: float_dec_def float_unsigned_def digit_val_def)
  then show ?thesis
    by (simp add: parse_route_congestion_def py_split_crossing_leg parse_waypoint_congestion_def
        split_once_def float_dec_examples py_upper_def)
      (simp add: crossing_leg_def)
qed

lemma crossing_leg_distance:
  "haversine_distance 0 (1 / 2000) 0 (- (1 / 2000)) = Inr (3440.065 * (pi / 180000))"
proof -
  have "central_angle 0 (1 / 2000) 0 (- (1 / 2000)) = central_angle 0 (- (1 / 2000)) 0 (1 / 2000)"
    by (simp add: central_angle_def haversine_a_sym [of 0 "1 / 2000"])
  also have "\<dots> = radians (1 / 2000 - - (1 / 2000))"
    by (rule central_angle_equator) simp_all
  finally show ?thesis
    by (simp add: haversine_distance_eq radians_def)
qed

lemma estimate_trajectory_crossing_leg:
  "estimate_trajectory float_dec (demo_flight a crossing_leg alt (Some dep))
     = Inr [\<lparr>timestamp = dep, latitude = 0, longitude = 1 / 2000, sample_acid = a\<rparr>,
            \<lparr>timestamp = dep, latitude = 0, longitude = - (1 / 2000), sample_acid = a\<rparr>]"
proof -
  let ?d = "3440.065 * (pi / 180000) :: real"
  let ?T = "?d / 480 * 3600"
  have T: "0 \<le> ?T" "?T < 1"
    using pi_less_4 by (simp_all add: field_simps)
  then have pT: "py_int ?T = 0"
    by (rule py_int_small)
  have "0 \<le> ?T / 90" "?T / 90 < 1"
    using T by simp_all
  then have "py_int (?T / 90) = 0"
    by (rule py_int_small)
  then have n: "max 1 (py_int (?T / 90)) = 1"
    by simp
  have up: "[0..1] = [0, 1 :: int]"
    by (simp add: upto_rec1 [of 0 1])
  have d: "(0 :: real) < ?d"
    by simp
  have seg: "congestion_segment a 480 ((0, 1 / 2000), (0, - (1 / 2000))) ([], Some dep)
       = Inr ([\<lparr>timestamp = dep, latitude = 0, longitude = 1 / 2000, sample_acid = a\<rparr>,
               \<lparr>timestamp = dep, latitude = 0, longitude = - (1 / 2000), sample_acid = a\<rparr>],
              Some dep)"
    using congestion_segment_eq [OF crossing_leg_distance _ d, of 480 a "[]" dep] pT
    unfolding n up by (simp add: py_int_def)
  show ?thesis
    using seg
    by (simp add: estimate_trajectory_def demo_flight_def parse_route_congestion_crossing_leg)
qed

lemma congestion_flight_crossing_leg:
  "congestion_flight float_dec (demo_flight a crossing_leg alt (Some 1700000000)) d
     = Inr (add_flight a \<lparr>timestamp = 1700000000, latitude = 0, longitude = - (1 / 2000),
                           sample_acid = a\<rparr>
             (add_flight a \<lparr>timestamp = 1700000000, latitude = 0, longitude = 1 / 2000,
                             sample_acid = a\<rparr> d))"
proof -
  have acid: "acid (demo_flight a crossing_leg alt (Some 1700000000)) = a"
    by (simp add: demo_flight_def)
  show ?thesis
    unfolding congestion_flight_def estimate_trajectory_crossing_leg acid by simp
qed

lemma sample_key_crossing:
  "sample_key \<lparr>timestamp = 1700000000, latitude = 0, longitude = 1 / 2000, sample_acid = a\<rparr>
     = (0, 0, 1699999200)"
  "sample_key \<lparr>timestamp = 1700000000, latitude = 0, longitude = - (1 / 2000), sample_acid = a\<rparr>
     = (0, - 1, 1699999200)"
proof -
  have "\<lfloor>1 / 2000 :: real\<rfloor> = 0" "\<lfloor>- (1 / 2000) :: real\<rfloor> = - 1"
    by (simp_all add: floor_eq_iff)
  then show
    "sample_key \<lparr>timestamp = 1700000000, latitude = 0, longitude = 1 / 2000, sample_acid = a\<rparr>
       = (0, 0, 1699999200)"
    "sample_key \<lparr>timestamp = 1700000000, latitude = 0, longitude = - (1 / 2000), sample_acid = a\<rparr>
       = (0, - 1, 1699999200)"
    by (simp_all add: sample_key_def get_sector_def get_time_window_def)
qed

lemma detect_congestion_six_crossing:
  "detect_congestion float_dec six_crossing_flights
     = Inr [\<lparr>sector_lat = 0, sector_lon = - 1, window_start = 1699999200, flight_count = 6,
             flight_set = {''AC101'', ''AC102'', ''AC103'', ''AC104'', ''AC105'', ''AC106''}\<rparr>,
            \<lparr>sector_lat = 0, sector_lon = 0, window_start = 1699999200, flight_count = 6,
             flight_set = {''AC101'', ''AC102'', ''AC103'', ''AC104'', ''AC105'', ''AC106''}\<rparr>]"
proof -
  let ?S = "{''AC106'', ''AC105'', ''AC104'', ''AC103'', ''AC102'', ''AC101''}"
  have "fold_err (congestion_flight float_dec) six_crossing_flights []
          = Inr [((0, 0, 1699999200), ?S), ((0, - 1, 1699999200), ?S)]"
    by (simp add: six_crossing_flights_def congestion_flight_crossing_leg add_flight_def
        sample_key_crossing)
  moreover have "card ?S = 6"
    by simp
  moreover have "?S = {''AC101'', ''AC102'', ''AC103'', ''AC104'', ''AC105'', ''AC106''}"
    by auto
  ultimately show ?thesis
    by (simp add: detect_congestion_def make_hotspot_def hotspot_order_def)
qed

subsection \<open>Claims on the congestion detector\<close>

text \<open>
  C3. In a run of \<^verbatim>\<open>detect_congestion\<close> that returns, the hotspots of a bucket \<open>k\<close>, a
  one-degree sector and a 15-minute window, are: one Hotspot, with the number and the set
  of the distinct identifiers of the flights that have a position sample in the bucket,
  when that number strictly exceeds 5, and none otherwise.
\<close>

theorem hotspot_exactly_above_five_flights:
  "detect_congestion pyfloat flights = Inr hs \<longrightarrow>
     filter (\<lambda>h. (sector_lat h, sector_lon h, window_start h) = k) hs
       = (if 5 < card (flights_observed pyfloat flights k)
          then [\<lparr>sector_lat = fst k, sector_lon = fst (snd k), window_start = snd (snd k),
                 flight_count = card (flights_observed pyfloat flights k),
                 flight_set = flights_observed pyfloat flights k\<rparr>]
          else [])"
proof
  assume "detect_congestion pyfloat flights = Inr hs"
  then have "filter (\<lambda>h. (sector_lat h, sector_lon h, window_start h) = k) hs
           = (if 5 < card (bucket_flights pyfloat flights k)
              then [make_hotspot (k, bucket_flights pyfloat flights k)] else [])"
    by (rule hotspots_of_bucket)
  moreover have "make_hotspot (k, fs)
                   = \<lparr>sector_lat = fst k, sector_lon = fst (snd k), window_start = snd (snd k),
                      flight_count = card fs, flight_set = fs\<rparr>" for fs
    by (cases k) (auto simp: make_hotspot_def)
  ultimately show "filter (\<lambda>h. (sector_lat h, sector_lon h, window_start h) = k) hs
       = (if 5 < card (flights_observed pyfloat flights k)
          then [\<lparr>sector_lat = fst k, sector_lon = fst (snd k), window_start = snd (snd k),
                 flight_count = card (flights_observed pyfloat flights k),
                 flight_set = flights_observed pyfloat flights k\<rparr>]
          else [])"
    by (simp add: bucket_flights_observed)
qed

text \<open>
  Six flights on the same short leg of sector \<open>(0, 0)\<close>, departing in the same window
  1699999200: one Hotspot with \<open>flight_count = 6\<close>. The first five of them: none.
\<close>

theorem hotspot_exactly_above_five_flights_witness:
  "detect_congestion float_dec six_flights
     = Inr [\<lparr>sector_lat = 0, sector_lon = 0, window_start = 1699999200, flight_count = 6,
             flight_set = {''AC101'', ''AC102'', ''AC103'', ''AC104'', ''AC105'', ''AC106''}\<rparr>]
   \<and> flights_observed float_dec six_flights (0, 0, 1699999200)
       = {''AC101'', ''AC102'', ''AC103'', ''AC104'', ''AC105'', ''AC106''}
   \<and> detect_congestion float_dec five_flights = Inr []
   \<and> \<not> 5 < card (flights_observed float_dec five_flights (0, 0, 1699999200))"
proof -
  let ?H = "\<lparr>sector_lat = 0, sector_lon = 0, window_start = 1699999200, flight_count = 6,
             flight_set = {''AC101'', ''AC102'', ''AC103'', ''AC104'', ''AC105'', ''AC106''}\<rparr>"
  let ?B6 = "flights_observed float_dec six_flights (0, 0, 1699999200)"
  let ?B5 = "flights_observed float_dec five_flights (0, 0, 1699999200)"
  have six: "[?H] = (if 5 < card ?B6
                    then [\<lparr>sector_lat = 0, sector_lon = 0, window_start = 1699999200,
                           flight_count = card ?B6, flight_set = ?B6\<rparr>]
                    else [])"
    using hotspot_exactly_above_five_flights
      [of float_dec six_flights "[?H]" "(0, 0, 1699999200)"] detect_congestion_six
    by simp
  then have "5 < card ?B6"
    by (metis list.distinct(1))
  with six have b6: "?B6 = {''AC101'', ''AC102'', ''AC103'', ''AC104'', ''AC105'', ''AC106''}"
    by simp
  have "[] = (if 5 < card ?B5
              then [\<lparr>sector_lat = 0, sector_lon = 0, window_start = 1699999200,
                     flight_count = card ?B5, flight_set = ?B5\<rparr>]
              else [])"
    using hotspot_exactly_above_five_flights
      [of float_dec five_flights "[]" "(0, 0, 1699999200)"] detect_congestion_five
    by (simp split: if_splits)
  then have "\<not> 5 < card ?B5"
    by (metis list.distinct(1))
  with b6 show ?thesis
    by (simp add: detect_congestion_six detect_congestion_five)
qed

text \<open>
  C5. The list a run of \<^verbatim>\<open>detect_congestion\<close> returns is sorted ascending by
  \<open>(window_start, sector_lat, sector_lon)\<close>: of two hotspots the earlier one has the
  smaller window start, or the same window start and the smaller sector latitude, or the
  same of both and the smaller sector longitude. And a run on the same flights in any
  other order, or on any list of the same flights, returns the same list.
\<close>

theorem congestion_output_sorted_whatever_the_input_order:
  "(detect_congestion pyfloat flights = Inr hs \<longrightarrow>
      sorted (map (\<lambda>h. (window_start h, sector_lat h, sector_lon h)) hs)
      \<and> (\<forall>i j. i < j \<and> j < length hs \<longrightarrow>
             window_start (hs ! i) < window_start (hs ! j)
             \<or> window_start (hs ! i) = window_start (hs ! j)
               \<and> (sector_lat (hs ! i) < sector_lat (hs ! j)
                  \<or> sector_lat (hs ! i) = sector_lat (hs ! j)
                    \<and> sector_lon (hs ! i) < sector_lon (hs ! j))))
   \<and> (detect_congestion pyfloat flights = Inr hs \<and> detect_congestion pyfloat flights' = Inr hs'
        \<and> set flights' = set flights
      \<longrightarrow> hs' = hs)"
proof (intro conjI impI allI)
  assume h: "detect_congestion pyfloat flights = Inr hs"
  then obtain d where d: "fold_err (congestion_flight pyfloat) flights [] = Inr d"
    "hs = sort_key hotspot_order (map make_hotspot (filter (\<lambda>kv. 5 < card (snd kv)) d))"
    unfolding detect_congestion_Inr by blast
  have S: "sorted (map hotspot_order hs)"
    unfolding d(2) by (rule sorted_sort_key)
  then show "sorted (map (\<lambda>h. (window_start h, sector_lat h, sector_lon h)) hs)"
    by (simp add: hotspot_order_def [abs_def])
  have "distinct (map fst d)"
    using congestion_accumulated(1) [OF d(1)] .
  then have "distinct (map hotspot_order (map make_hotspot (filter (\<lambda>kv. 5 < card (snd kv)) d)))"
    by (rule hotspots_distinct)
  then have D: "distinct (map hotspot_order hs)"
    unfolding d(2) by (rule distinct_map_sort_key)
  fix i j
  assume ij: "i < j \<and> j < length hs"
  then have "map hotspot_order hs ! i \<le> map hotspot_order hs ! j"
    using S by (intro sorted_nth_mono) simp_all
  moreover have "map hotspot_order hs ! i \<noteq> map hotspot_order hs ! j"
    using nth_eq_iff_index_eq [OF D, of i j] ij by simp
  ultimately have "hotspot_order (hs ! i) < hotspot_order (hs ! j)"
    using ij by simp
  then show "window_start (hs ! i) < window_start (hs ! j)
             \<or> window_start (hs ! i) = window_start (hs ! j)
               \<and> (sector_lat (hs ! i) < sector_lat (hs ! j)
                  \<or> sector_lat (hs ! i) = sector_lat (hs ! j)
                    \<and> sector_lon (hs ! i) < sector_lon (hs ! j))"
    by (auto simp: hotspot_order_def less_prod_def)
next
  assume "detect_congestion pyfloat flights = Inr hs \<and> detect_congestion pyfloat flights' = Inr hs'
        \<and> set flights' = set flights"
  then show "hs' = hs"
    using detect_congestion_set_cong [of pyfloat flights hs flights'] by simp
qed

text \<open>
  Six flights that cross from sector \<open>(0, 0)\<close> into sector \<open>(0, -1)\<close>: the bucket of
  sector \<open>(0, 0)\<close> is filled first and that of \<open>(0, -1)\<close> is listed first; the flights in
  reverse order give the same list.
\<close>

theorem congestion_output_sorted_whatever_the_input_order_witness:
  "detect_congestion float_dec six_crossing_flights
     = Inr [\<lparr>sector_lat = 0, sector_lon = - 1, window_start = 1699999200, flight_count = 6,
             flight_set = {''AC101'', ''AC102'', ''AC103'', ''AC104'', ''AC105'', ''AC106''}\<rparr>,
            \<lparr>sector_lat = 0, sector_lon = 0, window_start = 1699999200, flight_count = 6,
             flight_set = {''AC101'', ''AC102'', ''AC103'', ''AC104'', ''AC105'', ''AC106''}\<rparr>]
   \<and> detect_congestion float_dec (rev six_crossing_flights)
     = detect_congestion float_dec six_crossing_flights
   \<and> sorted [(1699999200, 0, - 1), (1699999200, 0, 0 :: int) :: int \<times> int \<times> int]"
proof -
  let ?S = "{''AC101'', ''AC102'', ''AC103'', ''AC104'', ''AC105'', ''AC106''}"
  let ?H1 = "\<lparr>sector_lat = 0, sector_lon = - 1, window_start = 1699999200, flight_count = 6,
              flight_set = ?S\<rparr>"
  let ?H2 = "\<lparr>sector_lat = 0, sector_lon = 0, window_start = 1699999200, flight_count = 6,
              flight_set = ?S\<rparr>"
  obtain hs' where rev: "detect_congestion float_dec (rev six_crossing_flights) = Inr hs'"
    using detect_congestion_set_cong [OF detect_congestion_six_crossing,
        of "rev six_crossing_flights"]
    by simp
  note inst = congestion_output_sorted_whatever_the_input_order
    [of float_dec six_crossing_flights "[?H1, ?H2]" "rev six_crossing_flights" hs']
  have "set (rev six_crossing_flights) = set six_crossing_flights"
    by simp
  with inst detect_congestion_six_crossing rev have "hs' = [?H1, ?H2]"
    by blast
  with rev have "detect_congestion float_dec (rev six_crossing_flights) = Inr [?H1, ?H2]"
    by simp
  moreover from inst detect_congestion_six_crossing
  have "sorted (map (\<lambda>h. (window_start h, sector_lat h, sector_lon h)) [?H1, ?H2])"
    by blast
  then have "sorted [(1699999200, 0, - 1), (1699999200, 0, 0 :: int) :: int \<times> int \<times> int]"
    by simp
  ultimately show ?thesis
    using detect_congestion_six_crossing by simp
qed

end
